(* ===== verification/Pet_Prelude.thy ===== *)
theory Pet_Prelude
  imports Main "HOL-Library.Sublist" "HOL-Library.Char_ord" "HOL-Library.List_Lexorder"
begin

text \<open>
  Shared vocabulary of the development: the parts of Rust's standard library that every
  component uses (\<open>str::split\<close>, \<open>str::find\<close>, \<open>str::trim\<close>, \<open>Vec::dedup\<close>,
  \<open>Iterator::find_map\<close>), the generic list and option lemmas about them, and the collections
  of rewrite rules that the component theories extend.

  Rust strings are UTF-8 byte strings and are modelled as \<^typ>\<open>string\<close>, one character per
  byte: \<open>str::len\<close> is \<^const>\<open>length\<close>, byte indices are list positions, and the byte-wise
  order of \<open>str\<close> is the lexicographic order of \<^typ>\<open>string\<close>.
\<close>

named_theorems path_simps \<open>rewrite rules on Unix paths\<close>
named_theorems env_defs \<open>definitions of the environment record and its builder\<close>
named_theorems text_defs \<open>definitions of the text routines\<close>

section \<open>Iterator and vector operations\<close>

text \<open>\<open>Vec::dedup\<close>: of every run of consecutive equal elements the first is kept.\<close>

fun dedup_by :: "('a \<Rightarrow> 'a \<Rightarrow> bool) \<Rightarrow> 'a list \<Rightarrow> 'a list" where
  "dedup_by eq [] = []"
| "dedup_by eq [x] = [x]"
| "dedup_by eq (x # y # xs) =
     (if eq x y then dedup_by eq (x # xs) else x # dedup_by eq (y # xs))"

text \<open>\<open>Iterator::find_map\<close>: the first \<open>Some\<close> result.\<close>

fun find_map :: "('a \<Rightarrow> 'b option) \<Rightarrow> 'a list \<Rightarrow> 'b option" where
  "find_map f [] = None"
| "find_map f (x # xs) = (case f x of Some y \<Rightarrow> Some y | None \<Rightarrow> find_map f xs)"

text \<open>\<open>Option::unwrap_or\<close>.\<close>

definition unwrap_or :: "'a option \<Rightarrow> 'a \<Rightarrow> 'a" where
  "unwrap_or v d = (case v of Some x \<Rightarrow> x | None \<Rightarrow> d)"

definition to_list :: "'a option \<Rightarrow> 'a list" where
  "to_list v = (case v of Some x \<Rightarrow> [x] | None \<Rightarrow> [])"

section \<open>String operations\<close>

text \<open>\<open>str::split(c)\<close> with a single character: never empty.\<close>

fun split_on :: "char \<Rightarrow> string \<Rightarrow> string list" where
  "split_on c [] = [[]]"
| "split_on c (x # xs) =
     (if x = c then [] # split_on c xs
      else case split_on c xs of [] \<Rightarrow> [[x]] | s # ss \<Rightarrow> (x # s) # ss)"

fun join_with :: "char \<Rightarrow> string list \<Rightarrow> string" where
  "join_with c [] = []"
| "join_with c [s] = s"
| "join_with c (s # ss) = s @ c # join_with c ss"

text \<open>\<open>str::find\<close> of a substring: the byte offset of its first occurrence.\<close>

fun str_find :: "string \<Rightarrow> string \<Rightarrow> nat option" where
  "str_find pat [] = (if pat = [] then Some 0 else None)"
| "str_find pat (x # xs) =
     (if prefix pat (x # xs) then Some 0 else map_option Suc (str_find pat xs))"

definition str_contains :: "string \<Rightarrow> string \<Rightarrow> bool" where
  "str_contains pat s \<longleftrightarrow> str_find pat s \<noteq> None"

text \<open>ASCII white space, as \<open>str::trim\<close> strips it from a UTF-8 string of ASCII text.\<close>

definition is_space :: "char \<Rightarrow> bool" where
  "is_space c \<longleftrightarrow> c = CHR '' '' \<or> (9 \<le> (of_char c :: nat) \<and> (of_char c :: nat) \<le> 13)"

definition trim_start :: "string \<Rightarrow> string" where
  "trim_start s = dropWhile is_space s"

definition trim_end :: "string \<Rightarrow> string" where
  "trim_end s = rev (dropWhile is_space (rev s))"

definition trim :: "string \<Rightarrow> string" where
  "trim s = trim_end (trim_start s)"

definition is_digit :: "char \<Rightarrow> bool" where
  "is_digit c \<longleftrightarrow> 48 \<le> (of_char c :: nat) \<and> (of_char c :: nat) \<le> 57"

definition to_lower_char :: "char \<Rightarrow> char" where
  "to_lower_char c =
     (if 65 \<le> (of_char c :: nat) \<and> (of_char c :: nat) \<le> 90 then char_of (of_char c + 32 :: nat) else c)"

definition to_lowercase :: "string \<Rightarrow> string" where
  "to_lowercase s = map to_lower_char s"

text \<open>The value of a string of decimal digits.\<close>

fun digits_value :: "nat \<Rightarrow> string \<Rightarrow> nat" where
  "digits_value acc [] = acc"
| "digits_value acc (c # cs) = digits_value (10 * acc + (of_char c - 48)) cs"

text \<open>
  \<open>str::parse\<close> at an unsigned type of the given number of values: an optional plus sign and
  at least one digit, and an error when the value does not fit.
\<close>

definition parse_unsigned :: "nat \<Rightarrow> string \<Rightarrow> nat option" where
  "parse_unsigned bound s =
     (let ds = (case s of [] \<Rightarrow> [] | c # cs \<Rightarrow> if c = CHR ''+'' then cs else s)
      in if ds \<noteq> [] \<and> list_all is_digit ds \<and> digits_value 0 ds < bound
         then Some (digits_value 0 ds) else None)"

text \<open>Decimal digits of a number, as \<open>format!\<close> writes them.\<close>

fun show_nat :: "nat \<Rightarrow> string" where
  "show_nat n = (if n < 10 then [char_of (48 + n)] else show_nat (n div 10) @ [char_of (48 + n mod 10)])"

declare show_nat.simps [simp del]

text \<open>\<open>str::lines\<close>: a line ends with a line feed, before which a carriage return is dropped.\<close>

definition strip_cr :: "string \<Rightarrow> string" where
  "strip_cr l = (if l \<noteq> [] \<and> last l = CHR 0x0D then butlast l else l)"

definition lines :: "string \<Rightarrow> string list" where
  "lines s = (let ps = split_on (CHR 0x0A) s
              in map strip_cr (butlast ps) @ (if last ps = [] then [] else [last ps]))"

text \<open>\<open>str::trim_start_matches\<close> and \<open>str::trim_end_matches\<close> of a character.\<close>

definition trim_start_matches :: "char \<Rightarrow> string \<Rightarrow> string" where
  "trim_start_matches c s = dropWhile ((=) c) s"

definition trim_end_matches :: "char \<Rightarrow> string \<Rightarrow> string" where
  "trim_end_matches c s = rev (dropWhile ((=) c) (rev s))"

text \<open>The suffixes of a text from the longest to the empty one, the positions a search tries.\<close>

fun tails :: "string \<Rightarrow> string list" where
  "tails [] = [[]]"
| "tails (c # cs) = (c # cs) # tails cs"

definition eq_ignore_ascii_case :: "string \<Rightarrow> string \<Rightarrow> bool" where
  "eq_ignore_ascii_case a b \<longleftrightarrow> to_lowercase a = to_lowercase b"

text \<open>\<open>str::strip_prefix\<close> of a string.\<close>

definition strip_prefix_str :: "string \<Rightarrow> string \<Rightarrow> string option" where
  "strip_prefix_str pre s = (if prefix pre s then Some (drop (length pre) s) else None)"

section \<open>Panics\<close>

datatype 'a outcome = Ret 'a | Panic string

text \<open>Sequencing: a panic ends the computation.\<close>

definition and_then :: "'a outcome \<Rightarrow> ('a \<Rightarrow> 'b outcome) \<Rightarrow> 'b outcome" where
  "and_then r f = (case r of Ret x \<Rightarrow> f x | Panic m \<Rightarrow> Panic m)"

lemma and_then_simps [simp]: "and_then (Ret x) f = f x" "and_then (Panic m) f = Panic m"
  by (simp_all add: and_then_def)

lemma and_then_Ret: "and_then r f = Ret y \<longleftrightarrow> (\<exists>x. r = Ret x \<and> f x = Ret y)"
  by (cases r) simp_all

text \<open>A loop that pushes the results of calls that may panic.\<close>

fun map_outcome :: "('a \<Rightarrow> 'b outcome) \<Rightarrow> 'a list \<Rightarrow> 'b list outcome" where
  "map_outcome f [] = Ret []"
| "map_outcome f (x # xs) = and_then (f x) (\<lambda>y. and_then (map_outcome f xs) (\<lambda>ys. Ret (y # ys)))"

lemma map_outcome_Ret: "map_outcome f xs = Ret ys \<longleftrightarrow> list_all2 (\<lambda>x y. f x = Ret y) xs ys"
  by (induction xs arbitrary: ys) (auto simp: and_then_Ret list_all2_Cons1)

lemma map_outcome_member:
  "map_outcome f xs = Ret ys \<Longrightarrow> y \<in> set ys \<Longrightarrow> \<exists>x \<in> set xs. f x = Ret y"
  by (induction xs arbitrary: ys) (auto simp: and_then_Ret)

lemma map_outcome_result:
  "map_outcome f xs = Ret ys \<Longrightarrow> x \<in> set xs \<Longrightarrow> \<exists>y \<in> set ys. f x = Ret y"
  by (induction xs arbitrary: ys) (auto simp: and_then_Ret)

lemma and_then_returns: "\<exists>x. r = Ret x \<Longrightarrow> (\<And>x. \<exists>y. f x = Ret y) \<Longrightarrow> \<exists>y. and_then r f = Ret y"
  by auto

lemma map_outcome_returns: "(\<And>x. \<exists>y. f x = Ret y) \<Longrightarrow> \<exists>ys. map_outcome f xs = Ret ys"
proof (induction xs)
  case (Cons x xs)
  then obtain y ys where "f x = Ret y" "map_outcome f xs = Ret ys" by meson
  then show ?case by simp
qed simp

lemma map_outcome_panics:
  "x \<in> set xs \<Longrightarrow> f x = Panic m \<Longrightarrow> \<exists>m. map_outcome f xs = Panic m"
  by (induction xs) (auto simp: and_then_def split: outcome.splits)

text \<open>Lowering a letter gives a letter.\<close>

lemma to_lower_char_other:
  assumes "to_lower_char c = d" and "\<not> (97 \<le> (of_char d :: nat) \<and> (of_char d :: nat) \<le> 122)"
  shows "c = d"
proof (cases "65 \<le> (of_char c :: nat) \<and> (of_char c :: nat) \<le> 90")
  case True
  then have "(of_char d :: nat) = of_char c + 32" using assms(1) by (auto simp: to_lower_char_def)
  with True assms(2) show ?thesis by simp
qed (use assms(1) in \<open>auto simp: to_lower_char_def split: if_splits\<close>)

lemma to_lower_char_slash [simp]: "to_lower_char c = CHR ''/'' \<longleftrightarrow> c = CHR ''/''"
proof
  show "to_lower_char c = CHR ''/'' \<Longrightarrow> c = CHR ''/''" by (rule to_lower_char_other) simp_all
qed (simp add: to_lower_char_def)

section \<open>Lemmas on the vector operations\<close>

lemma unwrap_or_simps [simp]: "unwrap_or (Some x) d = x" "unwrap_or None d = d"
  by (simp_all add: unwrap_or_def)

lemma to_list_simps [simp]: "to_list (Some x) = [x]" "to_list None = []"
  by (simp_all add: to_list_def)

lemma set_to_list [simp]: "set (to_list v) = set_option v"
  by (cases v) auto

lemma find_map_None_iff: "find_map f xs = None \<longleftrightarrow> (\<forall>x \<in> set xs. f x = None)"
  by (induction xs) (auto split: option.splits)

lemma find_map_Some_first:
  "find_map f xs = Some y \<longleftrightarrow>
     (\<exists>us x vs. xs = us @ x # vs \<and> f x = Some y \<and> (\<forall>u \<in> set us. f u = None))"
proof (induction xs)
  case Nil
  then show ?case by simp
next
  case (Cons a xs)
  show ?case
  proof (cases "f a")
    case None
    have "find_map f (a # xs) = Some y \<longleftrightarrow>
        (\<exists>us x vs. xs = us @ x # vs \<and> f x = Some y \<and> (\<forall>u \<in> set us. f u = None))"
      using None Cons.IH by simp
    also have "\<dots> \<longleftrightarrow> (\<exists>us x vs. a # xs = us @ x # vs \<and> f x = Some y \<and> (\<forall>u \<in> set us. f u = None))"
    proof
      assume "\<exists>us x vs. xs = us @ x # vs \<and> f x = Some y \<and> (\<forall>u \<in> set us. f u = None)"
      then obtain us x vs where "xs = us @ x # vs" "f x = Some y" "\<forall>u \<in> set us. f u = None"
        by blast
      with None have "a # xs = (a # us) @ x # vs \<and> f x = Some y \<and> (\<forall>u \<in> set (a # us). f u = None)"
        by simp
      then show "\<exists>us x vs. a # xs = us @ x # vs \<and> f x = Some y \<and> (\<forall>u \<in> set us. f u = None)"
        by blast
    next
      assume "\<exists>us x vs. a # xs = us @ x # vs \<and> f x = Some y \<and> (\<forall>u \<in> set us. f u = None)"
      then obtain us x vs where *: "a # xs = us @ x # vs" "f x = Some y" "\<forall>u \<in> set us. f u = None"
        by blast
      with None obtain us' where "us = a # us'" by (cases us) auto
      with * show "\<exists>us x vs. xs = us @ x # vs \<and> f x = Some y \<and> (\<forall>u \<in> set us. f u = None)"
        by auto
    qed
    finally show ?thesis .
  next
    case (Some z)
    show ?thesis
    proof
      assume "find_map f (a # xs) = Some y"
      with Some have "a # xs = [] @ a # xs \<and> f a = Some y \<and> (\<forall>u \<in> set []. f u = None)" by simp
      then show "\<exists>us x vs. a # xs = us @ x # vs \<and> f x = Some y \<and> (\<forall>u \<in> set us. f u = None)"
        by blast
    next
      assume "\<exists>us x vs. a # xs = us @ x # vs \<and> f x = Some y \<and> (\<forall>u \<in> set us. f u = None)"
      with Some show "find_map f (a # xs) = Some y" by (auto simp: Cons_eq_append_conv)
    qed
  qed
qed

lemma set_dedup_by_subset: "set (dedup_by eq xs) \<subseteq> set xs"
  by (induction eq xs rule: dedup_by.induct) auto

lemma dedup_by_Nil_iff [simp]: "dedup_by eq xs = [] \<longleftrightarrow> xs = []"
  by (induction eq xs rule: dedup_by.induct) auto

lemma hd_dedup_by [simp]: "xs \<noteq> [] \<Longrightarrow> hd (dedup_by eq xs) = hd xs"
  by (induction eq xs rule: dedup_by.induct) auto

text \<open>
  Deduplicating by a key on a list sorted by that key leaves one element per key: the keys
  become strictly sorted and no key is lost.
\<close>

text \<open>What \<open>dedup\<close> drops is equal to an element it keeps.\<close>

lemma dedup_by_covers:
  "(\<And>x. eq x x) \<Longrightarrow> x \<in> set xs \<Longrightarrow> \<exists>y \<in> set (dedup_by eq xs). eq y x"
proof (induction eq xs rule: dedup_by.induct)
  case (3 eq a b xs)
  show ?case
  proof (cases "eq a b")
    case True
    have "a \<in> set (dedup_by eq (a # xs))"
      using hd_dedup_by [of "a # xs" eq] by (metis dedup_by_Nil_iff hd_in_set list.distinct(1) list.sel(1))
    with True 3 show ?thesis by auto
  qed (use 3 in auto)
qed auto

lemma keys_dedup_by:
  "f ` set (dedup_by (\<lambda>a b. f a = f b) xs) = f ` set xs"
  by (induction "\<lambda>a b. f a = f b" xs rule: dedup_by.induct) auto

lemma sorted_distinct_dedup_by:
  fixes f :: "'a \<Rightarrow> 'k::linorder"
  assumes "sorted (map f xs)"
  shows "sorted_wrt (<) (map f (dedup_by (\<lambda>a b. f a = f b) xs))"
  using assms
proof (induction "\<lambda>a b. f a = f b" xs rule: dedup_by.induct)
  case (3 x y xs)
  show ?case
  proof (cases "f x = f y")
    case True
    with 3 show ?thesis by simp
  next
    case False
    with "3.prems" have lt: "f x < f y" by auto
    have "f x < f z" if "z \<in> set (dedup_by (\<lambda>a b. f a = f b) (y # xs))" for z
    proof -
      from that have "z \<in> set (y # xs)" using set_dedup_by_subset by fast
      with "3.prems" have "f y \<le> f z" by auto
      with lt show ?thesis by simp
    qed
    with False 3 show ?thesis by auto
  qed
qed auto

lemma dedup_by_id:
  assumes "distinct (map f xs)"
  shows "dedup_by (\<lambda>a b. f a = f b) xs = xs"
  using assms by (induction "\<lambda>a b. f a = f b" xs rule: dedup_by.induct) auto

lemma subseq_distinct: "subseq xs ys \<Longrightarrow> distinct ys \<Longrightarrow> distinct xs"
  by (induction rule: list_emb.induct) (auto dest: list_emb_set)

section \<open>Lemmas on the string operations\<close>

lemma split_on_ne [simp]: "split_on c s \<noteq> []"
  by (induction s) (auto split: list.splits)

lemma split_on_append_sep: "split_on c (xs @ c # ys) = split_on c xs @ split_on c ys"
proof (induction xs)
  case Nil
  then show ?case by simp
next
  case (Cons a xs)
  then show ?case
    by (cases "split_on c xs") (auto split: list.splits)
qed

lemma split_on_no_sep: "c \<notin> set s \<Longrightarrow> split_on c s = [s]"
  by (induction s) auto

lemma join_split [simp]: "join_with c (split_on c s) = s"
proof (induction s)
  case Nil
  then show ?case by simp
next
  case (Cons a s)
  obtain t ts where ts: "split_on c s = t # ts" by (cases "split_on c s") auto
  with Cons show ?case by (cases ts) auto
qed

lemma split_on_parts_no_sep: "t \<in> set (split_on c s) \<Longrightarrow> c \<notin> set t"
proof (induction s arbitrary: t)
  case Nil
  then show ?case by simp
next
  case (Cons a s)
  obtain u us where us: "split_on c s = u # us" by (cases "split_on c s") auto
  show ?case
  proof (cases "a = c")
    case True
    with Cons show ?thesis by auto
  next
    case False
    with Cons.prems us have "t = a # u \<or> t \<in> set us" by auto
    with Cons.IH [of u] Cons.IH [of t] us False show ?thesis by auto
  qed
qed

lemma set_join_with: "s \<in> set ss \<Longrightarrow> set s \<subseteq> set (join_with c ss)"
  by (induction c ss rule: join_with.induct) auto

lemma in_join_with: "d \<in> set (join_with c ss) \<Longrightarrow> d \<noteq> c \<Longrightarrow> \<exists>s \<in> set ss. d \<in> set s"
  by (induction c ss rule: join_with.induct) auto

lemma split_on_part_subset: "t \<in> set (split_on c s) \<Longrightarrow> set t \<subseteq> set s"
  using set_join_with [of t "split_on c s" c] by simp

lemma split_join:
  "ss \<noteq> [] \<Longrightarrow> (\<And>t. t \<in> set ss \<Longrightarrow> c \<notin> set t) \<Longrightarrow> split_on c (join_with c ss) = ss"
proof (induction c ss rule: join_with.induct)
  case (3 c s t ts)
  have "split_on c (join_with c (s # t # ts)) = split_on c s @ split_on c (join_with c (t # ts))"
    by (simp add: split_on_append_sep)
  with 3 show ?case by (simp add: split_on_no_sep)
qed (auto simp: split_on_no_sep)

lemma str_find_Some_prefix:
  "str_find pat s = Some i \<Longrightarrow> i \<le> length s \<and> prefix pat (drop i s)"
  by (induction s arbitrary: i) (auto split: if_splits)

lemma str_find_first:
  "str_find pat s = Some i \<Longrightarrow> j < i \<Longrightarrow> \<not> prefix pat (drop j s)"
proof (induction s arbitrary: i j)
  case Nil
  then show ?case by (auto split: if_splits)
next
  case (Cons a s)
  then show ?case by (cases j) (auto split: if_splits)
qed

lemma str_find_char_None [simp]: "str_find [c] s = None \<longleftrightarrow> c \<notin> set s"
  by (induction s) auto

lemma str_find_char [simp]: "c \<notin> set us \<Longrightarrow> str_find [c] (us @ c # vs) = Some (length us)"
  by (induction us) auto

lemma str_find_charE:
  assumes "str_find [c] s = Some i"
  obtains us vs where "s = us @ c # vs" "c \<notin> set us" "i = length us"
proof -
  from assms have "c \<in> set s" by (metis option.distinct(1) str_find_char_None)
  then obtain us vs where "s = us @ c # vs" "c \<notin> set us" by (meson split_list_first)
  with assms that show ?thesis by force
qed

lemma str_contains_char [simp]: "str_contains [c] s \<longleftrightarrow> c \<in> set s"
  using str_find_char_None [of c s] by (auto simp: str_contains_def)

lemma str_contains_sublist: "str_contains pat s \<longleftrightarrow> sublist pat s"
proof (induction s)
  case Nil
  then show ?case by (auto simp: str_contains_def)
next
  case (Cons a s)
  have "str_contains pat (a # s) \<longleftrightarrow> prefix pat (a # s) \<or> str_contains pat s"
    by (auto simp: str_contains_def)
  with Cons show ?case by (simp add: sublist_Cons_right)
qed

section \<open>Numbers\<close>

lemma digits_value_append: "digits_value acc (xs @ ys) = digits_value (digits_value acc xs) ys"
  by (induction acc xs rule: digits_value.induct) simp_all

lemma of_char_digit: "n < 10 \<Longrightarrow> of_char (char_of (48 + n :: nat)) = (48 + n :: nat)"
  by simp

lemma digits_value_show_nat: "digits_value 0 (show_nat n) = n"
proof (induction n rule: show_nat.induct)
  case (1 n)
  then show ?case by (cases "n < 10") (simp_all add: show_nat.simps [of n] digits_value_append)
qed

lemma show_nat_digits: "list_all is_digit (show_nat n)"
proof (induction n rule: show_nat.induct)
  case (1 n)
  then show ?case by (cases "n < 10") (simp_all add: show_nat.simps [of n] is_digit_def)
qed

lemma show_nat_ne: "show_nat n \<noteq> []"
  by (simp add: show_nat.simps [of n])

lemma digit_facts: "is_digit c \<Longrightarrow> \<not> is_space c \<and> c \<noteq> CHR ''+'' \<and> c \<noteq> CHR 0x0A"
  by (auto simp: is_digit_def is_space_def)

lemma parse_unsigned_show_nat: "n < bound \<Longrightarrow> parse_unsigned bound (show_nat n) = Some n"
proof -
  assume "n < bound"
  moreover obtain c cs where "show_nat n = c # cs" "is_digit c"
    using show_nat_ne [of n] show_nat_digits [of n] by (cases "show_nat n") auto
  ultimately show ?thesis
    using show_nat_digits [of n] digits_value_show_nat [of n] digit_facts [of c]
    by (simp add: parse_unsigned_def)
qed

lemma strip_prefix_str_Some: "strip_prefix_str p s = Some r \<longleftrightarrow> s = p @ r"
  by (auto simp: strip_prefix_str_def prefix_def)

lemma trim_padded:
  assumes "s \<noteq> []" "\<not> is_space (hd s)" "\<not> is_space (last s)" "list_all is_space ws"
  shows "trim (s @ ws) = s"
proof -
  have "trim_start (s @ ws) = s @ ws" using assms(1,2) by (cases s) (auto simp: trim_start_def)
  moreover have "dropWhile is_space (rev ws @ rev s) = rev s"
    using assms by (subst dropWhile_append2) (auto simp: list_all_iff hd_rev dropWhile_eq_self_iff)
  ultimately show ?thesis by (simp add: trim_def trim_end_def)
qed

end
