(* ===== verification/Unix_Path.thy ===== *)
theory Unix_Path
  imports Pet_Prelude
begin

text \<open>
  Rust's \<open>std::path::Path\<close> on Unix, and the file system queries the program makes.

  A path is the byte string the program holds; \<open>components\<close> is the iterator that
  equality, hashing, ordering, \<open>starts_with\<close> and \<open>ends_with\<close> of \<open>Path\<close> are
  defined by. Two paths with the same components are the same \<open>HashMap\<close> key, so maps keyed
  by paths are maps over component lists in the component theories.

  \<open>file_system\<close> is the file system as the program observes it, one field per query.
  It is an argument of every operation that touches the disk.
\<close>

section \<open>Components\<close>

datatype component = RootDir | CurDir | ParentDir | Normal string

type_synonym path = string

definition has_root :: "path \<Rightarrow> bool" where
  "has_root p \<longleftrightarrow> (case p of [] \<Rightarrow> False | c # _ \<Rightarrow> c = CHR ''/'')"

definition comp_of :: "string \<Rightarrow> component list" where
  "comp_of s = (if s = '''' \<or> s = ''.'' then [] else if s = ''..'' then [ParentDir] else [Normal s])"

text \<open>\<open>Path::components\<close>: empty and \<open>.\<close> segments vanish, except a leading \<open>.\<close>.\<close>

definition components :: "path \<Rightarrow> component list" where
  "components p =
     (case split_on (CHR ''/'') p of
        [] \<Rightarrow> []
      | s # ss \<Rightarrow>
          (if has_root p then [RootDir] else if s = ''.'' then [CurDir] else comp_of s)
          @ concat (map comp_of ss))"

definition path_eq :: "path \<Rightarrow> path \<Rightarrow> bool" where
  "path_eq p q \<longleftrightarrow> components p = components q"

definition path_join :: "path \<Rightarrow> path \<Rightarrow> path" where
  "path_join p q =
     (if has_root q then q
      else if p = [] \<or> last p = CHR ''/'' then p @ q
      else p @ CHR ''/'' # q)"

definition file_name :: "path \<Rightarrow> string option" where
  "file_name p =
     (case rev (components p) of Normal s # _ \<Rightarrow> Some s | _ \<Rightarrow> None)"

definition trim_segments :: "string list \<Rightarrow> string list" where
  "trim_segments ss = rev (dropWhile (\<lambda>s. s = '''' \<or> s = ''.'') (rev ss))"

text \<open>\<open>Path::parent\<close>, on the \<open>/\<close>-separated segments of the raw string.\<close>

definition parent :: "path \<Rightarrow> path option" where
  "parent p =
     (case split_on (CHR ''/'') p of
        [] \<Rightarrow> None
      | s # ss \<Rightarrow>
          (let body = trim_segments ss in
           if body = [] then (if has_root p \<or> s = '''' then None else Some '''')
           else let rest = trim_segments (butlast body) in
                if has_root p \<and> rest = [] then Some ''/''
                else Some (join_with (CHR ''/'') (s # rest))))"

text \<open>\<open>PathBuf::pop\<close>.\<close>

definition path_pop :: "path \<Rightarrow> path" where
  "path_pop p = unwrap_or (parent p) p"

definition path_starts_with :: "path \<Rightarrow> path \<Rightarrow> bool" where
  "path_starts_with p base \<longleftrightarrow> prefix (components base) (components p)"

definition path_ends_with :: "path \<Rightarrow> path \<Rightarrow> bool" where
  "path_ends_with p child \<longleftrightarrow> suffix (components child) (components p)"

definition path_contains :: "path list \<Rightarrow> path \<Rightarrow> bool" where
  "path_contains ps p \<longleftrightarrow> (\<exists>q \<in> set ps. path_eq q p)"

section \<open>The order of paths\<close>

text \<open>The derived order of \<open>Component\<close>: by constructor, then by the bytes of the name.\<close>

fun component_rank :: "component \<Rightarrow> nat \<times> string" where
  "component_rank RootDir = (0, [])"
| "component_rank CurDir = (1, [])"
| "component_rank ParentDir = (2, [])"
| "component_rank (Normal s) = (3, s)"

instantiation component :: linorder
begin

definition less_eq_component :: "component \<Rightarrow> component \<Rightarrow> bool" where
  "c \<le> d \<longleftrightarrow> fst (component_rank c) < fst (component_rank d)
     \<or> fst (component_rank c) = fst (component_rank d) \<and> snd (component_rank c) \<le> snd (component_rank d)"

definition less_component :: "component \<Rightarrow> component \<Rightarrow> bool" where
  "c < d \<longleftrightarrow> c \<le> d \<and> \<not> d \<le> (c :: component)"

instance
proof
  fix c d e :: component
  show "c < d \<longleftrightarrow> c \<le> d \<and> \<not> d \<le> c" by (rule less_component_def)
  show "c \<le> c" by (simp add: less_eq_component_def)
  show "c \<le> d \<Longrightarrow> d \<le> e \<Longrightarrow> c \<le> e" by (auto simp: less_eq_component_def)
  show "c \<le> d \<Longrightarrow> d \<le> c \<Longrightarrow> c = d"
    by (cases c; cases d) (auto simp: less_eq_component_def)
  show "c \<le> d \<or> d \<le> c" by (auto simp: less_eq_component_def)
qed

end

text \<open>
  \<open>Vec<PathBuf>::sort\<close> (stable, by components) and the \<open>sort(); dedup();\<close> idiom that
  the program applies to every list of alternative executables.
\<close>

definition path_sort :: "path list \<Rightarrow> path list" where
  "path_sort ps = sort_key components ps"

lemma path_sort_code [code]:
  "path_sort ps = map snd (sort_key fst (map (\<lambda>p. (components p, p)) ps))"
proof -
  have "sort_key fst (map (\<lambda>p. (components p, p)) ps) = map (\<lambda>p. (components p, p)) (sort_key components ps)"
  proof (induction ps)
    case (Cons p ps)
    have "insort_key fst (components p, p) (map (\<lambda>p. (components p, p)) qs)
        = map (\<lambda>p. (components p, p)) (insort_key components p qs)" for qs
      by (induction qs) auto
    with Cons show ?case by simp
  qed simp
  then show ?thesis by (simp add: path_sort_def comp_def)
qed

definition sort_dedup :: "path list \<Rightarrow> path list" where
  "sort_dedup ps = dedup_by path_eq (path_sort ps)"

section \<open>The file system\<close>

datatype file_type = RegularFile | Directory | Symlink | OtherFile

record file_system =
  is_file :: "path \<Rightarrow> bool"
  is_dir :: "path \<Rightarrow> bool"
  exists :: "path \<Rightarrow> bool"
  symlink_metadata :: "path \<Rightarrow> file_type option"
  canonicalize :: "path \<Rightarrow> path option"
  read_dir :: "path \<Rightarrow> path list option"
  read_to_string :: "path \<Rightarrow> string option"

text \<open>A file system given by the list of its regular files and the list of its directories.\<close>

definition plain_fs :: "path list \<Rightarrow> path list \<Rightarrow> file_system" where
  "plain_fs files dirs =
     \<lparr>is_file = (\<lambda>p. path_contains files p),
      is_dir = (\<lambda>p. path_contains dirs p),
      exists = (\<lambda>p. path_contains (files @ dirs) p),
      symlink_metadata = (\<lambda>p. if path_contains files p then Some RegularFile
                              else if path_contains dirs p then Some Directory else None),
      canonicalize = (\<lambda>p. if path_contains (files @ dirs) p then Some p else None),
      read_dir = (\<lambda>p. if path_contains dirs p
                      then Some (filter (\<lambda>q. parent q = Some p) (files @ dirs)) else None),
      read_to_string = (\<lambda>p. None)\<rparr>"

section \<open>Lemmas\<close>

text \<open>A file name a program writes as a literal: one ordinary component.\<close>

definition simple_name :: "string \<Rightarrow> bool" where
  "simple_name s \<longleftrightarrow> s \<noteq> '''' \<and> s \<noteq> ''.'' \<and> s \<noteq> ''..'' \<and> CHR ''/'' \<notin> set s"

lemma simple_name_facts:
  assumes "simple_name s"
  shows "split_on (CHR ''/'') s = [s]" and "comp_of s = [Normal s]" and "\<not> has_root s"
    and "s \<noteq> []"
  using assms
  by (auto simp: simple_name_def comp_of_def has_root_def split_on_no_sep split: list.splits)

lemma split_root: "has_root p \<Longrightarrow> \<exists>ss. split_on (CHR ''/'') p = [] # ss"
  by (cases p) (auto simp: has_root_def)

lemma path_join_split:
  assumes "simple_name q"
  shows "\<exists>ss. split_on (CHR ''/'') (path_join p q) = ss @ [q]
     \<and> (split_on (CHR ''/'') p = ss \<or> p \<noteq> [] \<and> split_on (CHR ''/'') p = ss @ [[]] \<or> p = [] \<and> ss = [])"
proof -
  note q = simple_name_facts [OF assms]
  consider "p = []" | "p \<noteq> []" "last p = CHR ''/''" | "p \<noteq> []" "last p \<noteq> CHR ''/''"
    by blast
  then show ?thesis
  proof cases
    case 1
    then show ?thesis using q by (simp add: path_join_def)
  next
    case 2
    then obtain r where r: "p = r @ [CHR ''/'']" by (metis append_butlast_last_id)
    have "split_on (CHR ''/'') p = split_on (CHR ''/'') r @ [[]]"
      using split_on_append_sep [of "CHR ''/''" r "[]"] r by simp
    moreover have "split_on (CHR ''/'') (path_join p q) = split_on (CHR ''/'') r @ [q]"
      using split_on_append_sep [of "CHR ''/''" r q] r q by (simp add: path_join_def)
    ultimately show ?thesis using 2 by blast
  next
    case 3
    have "split_on (CHR ''/'') (path_join p q) = split_on (CHR ''/'') p @ [q]"
      using split_on_append_sep [of "CHR ''/''" p q] 3 q by (simp add: path_join_def)
    then show ?thesis by blast
  qed
qed

lemma has_root_join: "\<not> has_root q \<Longrightarrow> p \<noteq> [] \<Longrightarrow> has_root (path_join p q) = has_root p"
  by (auto simp: path_join_def has_root_def split: list.splits)

text \<open>Joining a file name appends one component.\<close>

lemma components_join [path_simps]:
  assumes "simple_name q"
  shows "components (path_join p q) = components p @ [Normal q]"
proof (cases "p = []")
  case True
  with simple_name_facts [OF assms] assms show ?thesis
    by (simp add: path_join_def components_def comp_of_def has_root_def simple_name_def)
next
  case False
  note q = simple_name_facts [OF assms]
  from path_join_split [OF assms, of p] False obtain ss where
    j: "split_on (CHR ''/'') (path_join p q) = ss @ [q]" and
    p: "split_on (CHR ''/'') p = ss \<or> split_on (CHR ''/'') p = ss @ [[]]" by blast
  have root: "has_root (path_join p q) = has_root p" using has_root_join q False by blast
  have "ss \<noteq> []"
  proof
    assume "ss = []"
    with p have "split_on (CHR ''/'') p = [[]]" by auto
    then have "join_with (CHR ''/'') [[]] = p" using join_split by metis
    with False show False by simp
  qed
  then obtain s ss' where "ss = s # ss'" by (cases ss) auto
  with j p root q show ?thesis by (auto simp: components_def comp_of_def [of "[]"])
qed

lemma file_name_join [path_simps]: "simple_name q \<Longrightarrow> file_name (path_join p q) = Some q"
  by (simp add: file_name_def components_join)

lemma ends_with_join [path_simps]:
  "simple_name q \<Longrightarrow> path_ends_with (path_join p q) q"
  by (simp add: path_ends_with_def components_join)
     (simp add: components_def simple_name_facts simple_name_def suffix_def)

lemma starts_with_join [path_simps]:
  "simple_name q \<Longrightarrow> path_starts_with (path_join p q) p"
  by (simp add: path_starts_with_def components_join)

lemma comps_trim_segments [simp]:
  "concat (map comp_of (trim_segments ss)) = concat (map comp_of ss)"
proof (induction ss rule: rev_induct)
  case (snoc s ss)
  then show ?case by (auto simp: trim_segments_def comp_of_def)
qed (simp add: trim_segments_def)

lemma trim_segments_last:
  "trim_segments ss \<noteq> [] \<Longrightarrow> last (trim_segments ss) \<noteq> '''' \<and> last (trim_segments ss) \<noteq> ''.''"
  using hd_dropWhile [of "\<lambda>s. s = '''' \<or> s = ''.''" "rev ss"]
  unfolding trim_segments_def by (simp only: last_rev rev_is_Nil_conv de_Morgan_disj not_False_eq_True simp_thms)

lemma trim_segments_subset: "set (trim_segments ss) \<subseteq> set ss"
  unfolding trim_segments_def by (auto dest: set_dropWhileD)

lemma has_root_first_segment:
  "split_on (CHR ''/'') p = s # ss \<Longrightarrow> has_root p \<longleftrightarrow> s = [] \<and> ss \<noteq> []"
  by (cases p) (auto simp: has_root_def split: if_splits list.splits)

text \<open>
  \<open>Path::parent\<close> drops exactly the last component, and is \<open>None\<close> only for the empty
  path and the root.
\<close>

lemma components_parent:
  assumes "parent p = Some r"
  shows "components p \<noteq> [] \<and> components r = butlast (components p)"
proof -
  obtain s ss where ss: "split_on (CHR ''/'') p = s # ss" by (cases "split_on (CHR ''/'') p") auto
  note root = has_root_first_segment [OF ss]
  let ?head = "if has_root p then [RootDir] else if s = ''.'' then [CurDir] else comp_of s"
  have comps: "components p = ?head @ concat (map comp_of (trim_segments ss))"
    using ss by (simp add: components_def)
  show ?thesis
  proof (cases "trim_segments ss = []")
    case True
    with assms ss have "r = ''''" "\<not> has_root p" "s \<noteq> ''''"
      by (auto simp: parent_def split: if_splits)
    with True comps show ?thesis by (auto simp: components_def comp_of_def has_root_def)
  next
    case False
    define rest where "rest = trim_segments (butlast (trim_segments ss))"
    have last: "comp_of (last (trim_segments ss)) = [ParentDir]
        \<or> comp_of (last (trim_segments ss)) = [Normal (last (trim_segments ss))]"
      using trim_segments_last [OF False] by (auto simp: comp_of_def)
    have "concat (map comp_of (butlast (trim_segments ss) @ [last (trim_segments ss)]))
        = concat (map comp_of rest) @ comp_of (last (trim_segments ss))"
      by (simp add: rest_def)
    then have split: "concat (map comp_of (trim_segments ss))
        = concat (map comp_of rest) @ comp_of (last (trim_segments ss))"
      by (simp only: append_butlast_last_id [OF False])
    have "set rest \<subseteq> set ss"
      using trim_segments_subset [of "butlast (trim_segments ss)"] trim_segments_subset [of ss]
      by (auto simp: rest_def dest: in_set_butlastD)
    then have clean: "\<And>t. t \<in> set (s # rest) \<Longrightarrow> CHR ''/'' \<notin> set t"
      using split_on_parts_no_sep [of _ "CHR ''/''" p] ss by auto
    have r: "components r = ?head @ concat (map comp_of rest)"
    proof (cases "has_root p \<and> rest = []")
      case True
      with assms ss False have "r = ''/''" by (simp add: parent_def rest_def Let_def)
      with True show ?thesis by (simp add: components_def has_root_def comp_of_def)
    next
      case nroot: False
      with assms ss False have r: "r = join_with (CHR ''/'') (s # rest)"
        by (auto simp: parent_def rest_def Let_def split: if_splits)
      then have sr: "split_on (CHR ''/'') r = s # rest" using split_join [of "s # rest"] clean by simp
      have "has_root r \<longleftrightarrow> has_root p"
        using has_root_first_segment [OF sr] root nroot False by (auto simp: trim_segments_def)
      with sr show ?thesis by (simp add: components_def)
    qed
    from comps split r last show ?thesis by (auto simp: butlast_append)
  qed
qed

lemma parent_shorter: "parent p = Some q \<Longrightarrow> length (components q) < length (components p)"
  using components_parent [of p q] by simp

lemma parent_None_iff: "parent p = None \<longleftrightarrow> components p = [] \<or> components p = [RootDir]"
proof -
  obtain s ss where ss: "split_on (CHR ''/'') p = s # ss" by (cases "split_on (CHR ''/'') p") auto
  have ne: "concat (map comp_of (trim_segments ss)) \<noteq> []" if "trim_segments ss \<noteq> []"
  proof -
    from trim_segments_last [OF that] have "comp_of (last (trim_segments ss)) \<noteq> []"
      by (simp add: comp_of_def)
    with last_in_set [OF that] show ?thesis by (metis concat_eq_Nil_conv image_eqI set_map)
  qed
  have empty: "trim_segments ss = [] \<longleftrightarrow> concat (map comp_of ss) = []"
    using ne comps_trim_segments [of ss] by (metis concat.simps(1) list.simps(8))
  note root = has_root_first_segment [OF ss]
  show ?thesis
  proof (cases "trim_segments ss = []")
    case True
    with ss empty root show ?thesis by (simp add: parent_def components_def) (auto simp: comp_of_def)
  next
    case False
    then have "parent p \<noteq> None" using ss by (simp add: parent_def Let_def)
    moreover have "concat (map comp_of ss) \<noteq> []" using False empty by simp
    moreover have "RootDir \<notin> set (concat (map comp_of ss))" by (auto simp: comp_of_def split: if_splits)
    ultimately show ?thesis using ss root by (auto simp: components_def comp_of_def [of s] append_eq_Cons_conv)
  qed
qed

lemma path_eq_refl [simp]: "path_eq p p"
  by (simp add: path_eq_def)

lemma path_eq_sym: "path_eq p q \<Longrightarrow> path_eq q p"
  by (simp add: path_eq_def)

lemma path_eq_trans: "path_eq p q \<Longrightarrow> path_eq q r \<Longrightarrow> path_eq p r"
  by (simp add: path_eq_def)

lemma path_contains_iff: "path_contains ps p \<longleftrightarrow> components p \<in> components ` set ps"
  unfolding path_contains_def path_eq_def image_iff by metis

lemma path_eq_lambda: "path_eq = (\<lambda>a b. components a = components b)"
  by (auto simp: fun_eq_iff path_eq_def)

text \<open>The sorted, deduplicated list has strictly increasing components and loses no path.\<close>

lemma sort_dedup_sorted: "sorted_wrt (<) (map components (sort_dedup ps))"
  unfolding sort_dedup_def path_eq_lambda path_sort_def
  by (rule sorted_distinct_dedup_by) simp

lemma sort_dedup_distinct: "distinct (map components (sort_dedup ps))"
  using sort_dedup_sorted [of ps] by (simp add: strict_sorted_iff)

lemma components_sort_dedup: "components ` set (sort_dedup ps) = components ` set ps"
  unfolding sort_dedup_def path_eq_lambda path_sort_def by (simp add: keys_dedup_by)

lemma set_sort_dedup: "set (sort_dedup ps) \<subseteq> set ps"
  using set_dedup_by_subset [of path_eq "path_sort ps"] by (auto simp: sort_dedup_def path_sort_def)

lemma sort_dedup_Nil_iff [simp]: "sort_dedup ps = [] \<longleftrightarrow> ps = []"
  by (metis components_sort_dedup image_is_empty set_empty)

lemma path_contains_sort_dedup [simp]: "path_contains (sort_dedup ps) p = path_contains ps p"
  by (simp add: path_contains_iff components_sort_dedup)

lemma sort_dedup_id:
  assumes "sorted_wrt (<) (map components ps)"
  shows "sort_dedup ps = ps"
proof -
  from assms have "sorted (map components ps)" and d: "distinct (map components ps)"
    by (simp_all add: strict_sorted_iff)
  then have "path_sort ps = ps" by (simp add: path_sort_def sort_key_id_if_sorted)
  with d show ?thesis by (simp add: sort_dedup_def path_eq_lambda dedup_by_id)
qed

lemma sort_dedup_idem [simp]: "sort_dedup (sort_dedup ps) = sort_dedup ps"
  by (rule sort_dedup_id) (rule sort_dedup_sorted)

text \<open>A path is its parent joined with its file name, up to the spelling of separators.\<close>

lemma normal_component_simple:
  assumes "Normal s \<in> set (components p)"
  shows "simple_name s"
proof -
  obtain x xs where sp: "split_on (CHR ''/'') p = x # xs" by (cases "split_on (CHR ''/'') p") auto
  from assms sp have m: "s \<in> set (split_on (CHR ''/'') p)" and ne: "s \<noteq> ''''" "s \<noteq> ''.''" "s \<noteq> ''..''"
    by (auto simp: components_def comp_of_def split: if_splits)
  from m have "CHR ''/'' \<notin> set s" by (rule split_on_parts_no_sep)
  with ne show ?thesis by (simp add: simple_name_def)
qed

lemma file_name_components:
  assumes "file_name p = Some f"
  shows "components p = butlast (components p) @ [Normal f]" and "simple_name f"
proof -
  from assms obtain r where "rev (components p) = Normal f # r"
    by (auto simp: file_name_def split: list.splits component.splits)
  then have c: "components p = rev r @ [Normal f]" by (metis rev.simps(2) rev_rev_ident)
  then show "components p = butlast (components p) @ [Normal f]" by simp
  from c show "simple_name f" using normal_component_simple [of f p] by simp
qed

lemma components_parent_join:
  assumes "parent p = Some d" and "file_name p = Some f"
  shows "components (path_join d f) = components p"
  using components_parent [OF assms(1)] file_name_components [OF assms(2)] components_join [of f d]
  by simp

end
