(* ===== verification/Fs_Path.thy ===== *)
theory Fs_Path
  imports Unix_Path
begin

text \<open>
  The path utilities of \<open>pet-fs/src/path.rs\<close> in their Unix configuration: case
  normalisation (the identity), trailing separators, symbolic links and the expansion of
  \<open>~\<close>, \<open>${HOME}\<close> and \<open>${USERNAME}\<close>.
\<close>

section \<open>Definitions\<close>

text \<open>The values of \<open>std::env::consts::OS\<close> the program tells apart.\<close>

datatype target_os = Windows | MacOs | OtherUnix

definition norm_case :: "path \<Rightarrow> path" where
  "norm_case p = p"

fun strip_trailing_separator :: "path \<Rightarrow> path" where
  "strip_trailing_separator p =
     (if 1 < length p \<and> last p = CHR ''/'' then strip_trailing_separator (butlast p) else p)"

declare strip_trailing_separator.simps [simp del]

definition resolve_any_symlink :: "file_system \<Rightarrow> path \<Rightarrow> path option" where
  "resolve_any_symlink fs p =
     (case symlink_metadata fs p of
        None \<Rightarrow> None
      | Some ft \<Rightarrow>
          if ft = RegularFile \<or> ft \<noteq> Symlink then None
          else case canonicalize fs p of
                 None \<Rightarrow> None
               | Some r \<Rightarrow> if path_eq r p then None else Some r)"

definition resolve_symlink :: "file_system \<Rightarrow> path \<Rightarrow> path option" where
  "resolve_symlink fs exe =
     (case file_name exe of
        None \<Rightarrow> None
      | Some n \<Rightarrow>
          if suffix ''-config'' n \<or> suffix ''-build'' n then None
          else if \<not> prefix ''python'' n \<and> \<not> prefix ''conda'' n then None
          else case symlink_metadata fs exe of
                 None \<Rightarrow> None
               | Some ft \<Rightarrow>
                   if ft = RegularFile \<or> ft \<noteq> Symlink then None
                   else case canonicalize fs exe of
                          None \<Rightarrow> None
                        | Some r \<Rightarrow> if path_eq r exe then None else Some r)"

text \<open>\<open>str::replace\<close> with a non-empty pattern: non-overlapping occurrences, left to right.\<close>

function str_replace :: "string \<Rightarrow> string \<Rightarrow> string \<Rightarrow> string" where
  "str_replace pat rep s =
     (if pat = [] then s
      else case s of
        [] \<Rightarrow> []
      | c # cs \<Rightarrow> if prefix pat s then rep @ str_replace pat rep (drop (length pat) s)
                 else c # str_replace pat rep cs)"
  by pat_completeness auto
termination
  by (relation "measure (\<lambda>(pat, rep, s). length s)") auto

declare str_replace.simps [simp del]

text \<open>\<open>Path::strip_prefix("~")\<close>: what follows the first component, separators trimmed.\<close>

definition strip_first_component :: "path \<Rightarrow> path" where
  "strip_first_component p =
     join_with (CHR ''/'')
       (trim_segments (dropWhile (\<lambda>s. s = '''' \<or> s = ''.'') (tl (split_on (CHR ''/'') p))))"

type_synonym env_vars = "string \<Rightarrow> string option"

definition or_else :: "'a option \<Rightarrow> 'a option \<Rightarrow> 'a option" where
  "or_else a b = (case a of None \<Rightarrow> b | Some x \<Rightarrow> Some x)"

definition get_user_home :: "env_vars \<Rightarrow> path option" where
  "get_user_home vars = map_option norm_case (or_else (vars ''HOME'') (vars ''USERPROFILE''))"

definition expand_vars :: "env_vars \<Rightarrow> path \<Rightarrow> path" where
  "expand_vars vars p =
     (if str_contains ''${USERNAME}'' p \<or> str_contains ''${HOME}'' p
      then let username = unwrap_or (or_else (vars ''USERNAME'') (vars ''USER'')) '''';
               home = unwrap_or (or_else (vars ''HOME'') (vars ''USERPROFILE'')) ''''
           in str_replace ''${HOME}'' home (str_replace ''${USERNAME}'' username p)
      else p)"

definition expand_path :: "env_vars \<Rightarrow> path \<Rightarrow> path" where
  "expand_path vars p =
     (if path_starts_with p ''~''
      then case get_user_home vars of
             Some home \<Rightarrow> path_join home (strip_first_component p)
           | None \<Rightarrow> expand_vars vars p
      else expand_vars vars p)"

section \<open>Lemmas\<close>

lemma strip_trailing_separator_short:
  "strip_trailing_separator p = p \<or> 1 < length p \<and> last p = CHR ''/''"
  by (subst strip_trailing_separator.simps) auto

text \<open>The result never ends in a separator unless it is the root itself.\<close>

lemma strip_trailing_separator_end:
  "strip_trailing_separator p = [] \<or> last (strip_trailing_separator p) \<noteq> CHR ''/''
     \<or> strip_trailing_separator p = ''/''"
proof (induction p rule: strip_trailing_separator.induct)
  case (1 p)
  show ?case
  proof (cases "1 < length p \<and> last p = CHR ''/''")
    case True
    with 1 show ?thesis by (simp add: strip_trailing_separator.simps [of p])
  next
    case False
    then have eq: "strip_trailing_separator p = p" by (auto simp: strip_trailing_separator.simps [of p])
    show ?thesis
    proof (cases "1 < length p")
      case True
      with False eq show ?thesis by simp
    next
      case short: False
      then show ?thesis using eq by (cases p) auto
    qed
  qed
qed

lemma components_snoc_sep: "p \<noteq> [] \<Longrightarrow> components (p @ [CHR ''/'']) = components p"
proof -
  assume p: "p \<noteq> []"
  obtain s ss where ss: "split_on (CHR ''/'') p = s # ss" by (cases "split_on (CHR ''/'') p") auto
  have "split_on (CHR ''/'') (p @ [CHR ''/'']) = s # ss @ [[]]"
    using split_on_append_sep [of "CHR ''/''" p "[]"] ss by simp
  moreover have "has_root (p @ [CHR ''/'']) = has_root p" using p by (cases p) (auto simp: has_root_def)
  ultimately show ?thesis using ss by (simp add: components_def comp_of_def [of "[]"])
qed

text \<open>Stripping trailing separators never changes which path is meant.\<close>

lemma strip_trailing_separator_components:
  "components (strip_trailing_separator p) = components p"
proof (induction p rule: strip_trailing_separator.induct)
  case (1 p)
  show ?case
  proof (cases "1 < length p \<and> last p = CHR ''/''")
    case True
    then have "butlast p \<noteq> []" by (cases p) auto
    moreover have "p = butlast p @ [CHR ''/'']"
      using True append_butlast_last_id [of p] by (metis list.size(3) not_one_less_zero)
    ultimately have "components p = components (butlast p)" using components_snoc_sep by metis
    with True 1 show ?thesis by (simp add: strip_trailing_separator.simps [of p])
  next
    case False
    then show ?thesis by (auto simp: strip_trailing_separator.simps [of p])
  qed
qed

lemma strip_trailing_separator_idem:
  "strip_trailing_separator (strip_trailing_separator p) = strip_trailing_separator p"
  using strip_trailing_separator_end [of p]
  by (subst strip_trailing_separator.simps) auto

text \<open>The filtered and the unfiltered symlink resolution agree on the names the filter admits.\<close>

lemma resolve_symlink_filter:
  "resolve_symlink fs exe = Some r \<Longrightarrow> resolve_any_symlink fs exe = Some r \<and> \<not> path_eq r exe"
  by (auto simp: resolve_symlink_def resolve_any_symlink_def split: option.splits if_splits)

lemma str_replace_absent: "pat \<noteq> [] \<Longrightarrow> \<not> str_contains pat s \<Longrightarrow> str_replace pat rep s = s"
proof (induction s)
  case Nil
  then show ?case by (simp add: str_replace.simps)
next
  case (Cons c s)
  from Cons.prems have "\<not> prefix pat (c # s)" "\<not> str_contains pat s"
    by (auto simp: str_contains_def split: if_splits)
  with Cons show ?case by (simp add: str_replace.simps [of pat rep "c # s"])
qed

lemma expand_vars_id:
  "\<not> str_contains ''${USERNAME}'' p \<Longrightarrow> \<not> str_contains ''${HOME}'' p \<Longrightarrow> expand_vars vars p = p"
  by (simp add: expand_vars_def)

end
