(* ===== verification/Env_Types.thy ===== *)
theory Env_Types
  imports Fs_Path
begin

text \<open>
  The data model of \<open>pet-core\<close>: environment kinds, managers, the environment record, the
  builder that every locator uses to construct an environment, and the keys under which
  environments are reported. Sources: \<open>python_environment.rs\<close>, \<open>manager.rs\<close>,
  \<open>arch.rs\<close>, \<open>lib.rs\<close>.
\<close>

section \<open>Kinds, managers, architectures\<close>

datatype environment_kind =
    Conda | Pixi | Homebrew | Pyenv | GlobalPaths | PyenvVirtualEnv | Pipenv | Poetry | Hatch
  | MacPythonOrg | MacCommandLineTools | LinuxGlobal | MacXCode | Uv | UvWorkspace | Venv
  | VirtualEnv | VirtualEnvWrapper | WinPython | WindowsStore | WindowsRegistry

text \<open>The \<open>Debug\<close> name, by which kinds are ordered.\<close>

fun kind_debug :: "environment_kind \<Rightarrow> string" where
  "kind_debug Conda = ''Conda''"
| "kind_debug Pixi = ''Pixi''"
| "kind_debug Homebrew = ''Homebrew''"
| "kind_debug Pyenv = ''Pyenv''"
| "kind_debug GlobalPaths = ''GlobalPaths''"
| "kind_debug PyenvVirtualEnv = ''PyenvVirtualEnv''"
| "kind_debug Pipenv = ''Pipenv''"
| "kind_debug Poetry = ''Poetry''"
| "kind_debug Hatch = ''Hatch''"
| "kind_debug MacPythonOrg = ''MacPythonOrg''"
| "kind_debug MacCommandLineTools = ''MacCommandLineTools''"
| "kind_debug LinuxGlobal = ''LinuxGlobal''"
| "kind_debug MacXCode = ''MacXCode''"
| "kind_debug Uv = ''Uv''"
| "kind_debug UvWorkspace = ''UvWorkspace''"
| "kind_debug Venv = ''Venv''"
| "kind_debug VirtualEnv = ''VirtualEnv''"
| "kind_debug VirtualEnvWrapper = ''VirtualEnvWrapper''"
| "kind_debug WinPython = ''WinPython''"
| "kind_debug WindowsStore = ''WindowsStore''"
| "kind_debug WindowsRegistry = ''WindowsRegistry''"

datatype manager_type = MgrConda | MgrMamba | MgrPipenv | MgrPoetry | MgrPyenv

fun manager_debug :: "manager_type \<Rightarrow> string" where
  "manager_debug MgrConda = ''Conda''"
| "manager_debug MgrMamba = ''Mamba''"
| "manager_debug MgrPipenv = ''Pipenv''"
| "manager_debug MgrPoetry = ''Poetry''"
| "manager_debug MgrPyenv = ''Pyenv''"

datatype architecture = X64 | X86

fun arch_debug :: "architecture \<Rightarrow> string" where
  "arch_debug X64 = ''X64''"
| "arch_debug X86 = ''X86''"

record env_manager =
  mgr_executable :: path
  mgr_version :: "string option"
  mgr_tool :: manager_type

datatype locator_kind =
    LConda | LHatch | LHomebrew | LLinuxGlobal | LMacCommandLineTools | LMacPythonOrg | LMacXCode
  | LPipEnv | LPixi | LPoetry | LPyEnv | LUv | LVenv | LVirtualEnv | LVirtualEnvWrapper
  | LWinPython | LWindowsRegistry | LWindowsStore

text \<open>\<open>Ordering\<close>, \<open>Ord::cmp\<close> of strings and options, and lexicographic chaining.\<close>

datatype ordering = Less | Equal | Greater

definition cmp_of :: "'a::linorder \<Rightarrow> 'a \<Rightarrow> ordering" where
  "cmp_of a b = (if a < b then Less else if a = b then Equal else Greater)"

definition cmp_option :: "'a::linorder option \<Rightarrow> 'a option \<Rightarrow> ordering" where
  "cmp_option a b =
     (case (a, b) of
        (None, None) \<Rightarrow> Equal
      | (None, Some _) \<Rightarrow> Less
      | (Some _, None) \<Rightarrow> Greater
      | (Some x, Some y) \<Rightarrow> cmp_of x y)"

definition kind_cmp :: "environment_kind \<Rightarrow> environment_kind \<Rightarrow> ordering" where
  "kind_cmp a b = cmp_of (kind_debug a) (kind_debug b)"

definition manager_type_cmp :: "manager_type \<Rightarrow> manager_type \<Rightarrow> ordering" where
  "manager_type_cmp a b = cmp_of (manager_debug a) (manager_debug b)"

definition env_manager_cmp :: "env_manager \<Rightarrow> env_manager \<Rightarrow> ordering" where
  "env_manager_cmp a b =
     (case cmp_of (components (mgr_executable a)) (components (mgr_executable b)) of
        Equal \<Rightarrow>
          (case cmp_option (mgr_version a) (mgr_version b) of
             Equal \<Rightarrow> manager_type_cmp (mgr_tool a) (mgr_tool b)
           | r \<Rightarrow> r)
      | r \<Rightarrow> r)"

definition arch_cmp :: "architecture \<Rightarrow> architecture \<Rightarrow> ordering" where
  "arch_cmp a b = cmp_of (arch_debug a) (arch_debug b)"

section \<open>Environments and their builder\<close>

record python_environment =
  display_name :: "string option"
  env_name :: "string option"
  executable :: "path option"
  kind :: "environment_kind option"
  version :: "string option"
  env_prefix :: "path option"
  manager :: "env_manager option"
  project :: "path option"
  arch :: "architecture option"
  symlinks :: "path list option"
  env_error :: "string option"

text \<open>
  \<open>PythonEnvironmentBuilder\<close> has the fields of the environment it builds; it is the same
  record, and its methods are the functions \<open>with_...\<close>.
\<close>

type_synonym env_builder = python_environment

definition env_default :: python_environment where
  "env_default =
     \<lparr>display_name = None, env_name = None, executable = None, kind = None, version = None,
      env_prefix = None, manager = None, project = None, arch = None, symlinks = None,
      env_error = None\<rparr>"

definition environment_new ::
  "path option \<Rightarrow> environment_kind option \<Rightarrow> path option \<Rightarrow> env_manager option
   \<Rightarrow> string option \<Rightarrow> python_environment" where
  "environment_new exe k pre mgr ver =
     env_default\<lparr>executable := exe, kind := k, version := ver, env_prefix := pre, manager := mgr\<rparr>"

definition builder_new :: "environment_kind option \<Rightarrow> env_builder" where
  "builder_new k = env_default\<lparr>kind := k\<rparr>"

definition from_environment :: "python_environment \<Rightarrow> env_builder" where
  "from_environment env = env"

text \<open>The Windows Store executable: \<open>Python3.x.exe\<close> directly inside a \<open>WindowsApps\<close> directory.\<close>

definition is_store_executable :: "path \<Rightarrow> bool" where
  "is_store_executable e \<longleftrightarrow>
     str_contains ''AppData'' e \<and> str_contains ''Local'' e \<and> str_contains ''Microsoft'' e
     \<and> str_contains ''WindowsApps'' e
     \<and> (case parent e of Some p \<Rightarrow> path_ends_with p ''WindowsApps'' | None \<Rightarrow> False)
     \<and> (case file_name e of Some f \<Rightarrow> prefix ''python3.'' (to_lowercase f) | None \<Rightarrow> False)"

definition get_shortest_executable ::
  "environment_kind option \<Rightarrow> path list option \<Rightarrow> path option" where
  "get_shortest_executable k exes =
     (case (if k = Some WindowsStore
            then (case exes of Some es \<Rightarrow> find is_store_executable es | None \<Rightarrow> None)
            else None) of
        Some e \<Rightarrow> Some e
      | None \<Rightarrow>
          (case exes of
             Some es \<Rightarrow> (case sort_key length es of [] \<Rightarrow> None | e # _ \<Rightarrow> Some e)
           | None \<Rightarrow> None))"

definition update_symlinks_and_exe :: "env_builder \<Rightarrow> path list option \<Rightarrow> env_builder" where
  "update_symlinks_and_exe b links =
     (let all = sort_dedup (unwrap_or (symlinks b) [] @ to_list (executable b) @ unwrap_or links []);
          b1 = b\<lparr>symlinks := (if all = [] then None else Some all)\<rparr>
      in case executable b of
           None \<Rightarrow> b1
         | Some e \<Rightarrow> b1\<lparr>executable := Some (unwrap_or (get_shortest_executable (kind b) (Some all)) e)\<rparr>)"

definition with_executable :: "path option \<Rightarrow> env_builder \<Rightarrow> env_builder" where
  "with_executable exe b =
     (let exe' = (case exe of
                    None \<Rightarrow> None
                  | Some e \<Rightarrow>
                      (case parent e of
                         None \<Rightarrow> Some e
                       | Some d \<Rightarrow>
                           (case file_name e of
                              None \<Rightarrow> Some e
                            | Some f \<Rightarrow> Some (path_join (norm_case d) f))));
          b1 = b\<lparr>executable := exe'\<rparr>
      in update_symlinks_and_exe b1 (symlinks b1))"

definition with_symlinks :: "path list option \<Rightarrow> env_builder \<Rightarrow> env_builder" where
  "with_symlinks links b = update_symlinks_and_exe b links"

definition with_prefix :: "path option \<Rightarrow> env_builder \<Rightarrow> env_builder" where
  "with_prefix p b = b\<lparr>env_prefix := map_option norm_case p\<rparr>"

definition with_project :: "path option \<Rightarrow> env_builder \<Rightarrow> env_builder" where
  "with_project p b = b\<lparr>project := map_option norm_case p\<rparr>"

definition with_display_name :: "string option \<Rightarrow> env_builder \<Rightarrow> env_builder" where
  "with_display_name n b = b\<lparr>display_name := n\<rparr>"

definition with_name :: "string option \<Rightarrow> env_builder \<Rightarrow> env_builder" where
  "with_name n b = b\<lparr>env_name := n\<rparr>"

definition with_version :: "string option \<Rightarrow> env_builder \<Rightarrow> env_builder" where
  "with_version v b = b\<lparr>version := v\<rparr>"

definition with_manager :: "env_manager option \<Rightarrow> env_builder \<Rightarrow> env_builder" where
  "with_manager m b = b\<lparr>manager := m\<rparr>"

definition with_arch :: "architecture option \<Rightarrow> env_builder \<Rightarrow> env_builder" where
  "with_arch a b = b\<lparr>arch := a\<rparr>"

definition with_error :: "string option \<Rightarrow> env_builder \<Rightarrow> env_builder" where
  "with_error e b = b\<lparr>env_error := e\<rparr>"

definition build :: "env_builder \<Rightarrow> python_environment" where
  "build b =
     (let all = sort_dedup (to_list (executable b) @ unwrap_or (symlinks b) [])
      in b\<lparr>symlinks := (if all = [] then None else Some all),
           executable := map_option (\<lambda>e. unwrap_or (get_shortest_executable (kind b) (Some all)) e)
                           (executable b)\<rparr>)"

text \<open>The key under which an environment is reported, in its Unix configuration.\<close>

definition get_environment_key :: "python_environment \<Rightarrow> path option" where
  "get_environment_key env =
     (case executable env of
        Some exe \<Rightarrow> Some exe
      | None \<Rightarrow>
          (case env_prefix env of
             Some p \<Rightarrow>
               if kind env = Some Conda then Some (path_join (path_join p ''bin'') ''python'')
               else Some p
           | None \<Rightarrow> None))"

lemmas builder_defs [env_defs] =
  builder_new_def env_default_def with_executable_def with_symlinks_def with_prefix_def
  with_project_def with_display_name_def with_name_def with_version_def with_manager_def
  with_arch_def with_error_def from_environment_def

section \<open>The orders agree with equality\<close>

lemma kind_debug_inject [simp]: "kind_debug a = kind_debug b \<longleftrightarrow> a = b"
  by (cases a; cases b) simp_all

lemma manager_debug_inject [simp]: "manager_debug a = manager_debug b \<longleftrightarrow> a = b"
  by (cases a; cases b) simp_all

lemma cmp_of_Equal [simp]: "cmp_of a b = Equal \<longleftrightarrow> a = b"
  by (auto simp: cmp_of_def)

lemma cmp_of_refl [simp]: "cmp_of a a = Equal"
  by simp

text \<open>\<open>Ordering::reverse\<close>.\<close>

fun reverse_ordering :: "ordering \<Rightarrow> ordering" where
  "reverse_ordering Less = Greater"
| "reverse_ordering Equal = Equal"
| "reverse_ordering Greater = Less"

lemma cmp_of_reverse: "cmp_of b a = reverse_ordering (cmp_of a b)"
  by (auto simp: cmp_of_def)

lemma cmp_option_Equal [simp]: "cmp_option a b = Equal \<longleftrightarrow> a = b"
  by (cases a; cases b) (auto simp: cmp_option_def)

lemma cmp_option_refl [simp]: "cmp_option a a = Equal"
  by simp

lemma cmp_option_reverse: "cmp_option b a = reverse_ordering (cmp_option a b)"
  by (cases a; cases b) (simp_all add: cmp_option_def cmp_of_reverse [symmetric])

definition env_manager_eq :: "env_manager \<Rightarrow> env_manager \<Rightarrow> bool" where
  "env_manager_eq a b \<longleftrightarrow>
     path_eq (mgr_executable a) (mgr_executable b) \<and> mgr_version a = mgr_version b
     \<and> mgr_tool a = mgr_tool b"

lemma env_manager_cmp_Equal: "env_manager_cmp a b = Equal \<longleftrightarrow> env_manager_eq a b"
  by (auto simp: env_manager_cmp_def env_manager_eq_def path_eq_def manager_type_cmp_def
      split: ordering.splits)

lemma env_manager_cmp_reverse: "env_manager_cmp b a = reverse_ordering (env_manager_cmp a b)"
  unfolding env_manager_cmp_def manager_type_cmp_def
  by (subst (1 4) cmp_of_reverse, subst cmp_option_reverse) (simp split: ordering.split)

section \<open>Equality and order of environments\<close>

text \<open>\<open>Debug\<close> of a string or path of ASCII text.\<close>

definition hex_digit :: "nat \<Rightarrow> char" where
  "hex_digit n = ''0123456789abcdef'' ! n"

definition debug_char :: "char \<Rightarrow> string" where
  "debug_char c =
     (if c = CHR 0x22 then [CHR 0x5C, CHR 0x22]
      else if c = CHR 0x5C then [CHR 0x5C, CHR 0x5C]
      else if c = CHR 0x0A then [CHR 0x5C, CHR ''n'']
      else if c = CHR 0x0D then [CHR 0x5C, CHR ''r'']
      else if c = CHR 0x09 then [CHR 0x5C, CHR ''t'']
      else if c = CHR 0x00 then [CHR 0x5C, CHR ''0'']
      else if of_char c < (32 :: nat) \<or> of_char c = (127 :: nat)
      then [CHR 0x5C] @ ''u{'' @ (if of_char c < (16 :: nat) then [] else [hex_digit (of_char c div 16)])
           @ [hex_digit (of_char c mod 16)] @ ''}''
      else [c])"

definition debug_text :: "string \<Rightarrow> string" where
  "debug_text s = [CHR 0x22] @ concat (map debug_char s) @ [CHR 0x22]"

text \<open>The text by which environments are ordered: executable and prefix.\<close>

definition env_sort_key :: "python_environment \<Rightarrow> string" where
  "env_sort_key e = debug_text (unwrap_or (executable e) []) @ ''=>'' @ debug_text (unwrap_or (env_prefix e) [])"

definition environment_cmp :: "python_environment \<Rightarrow> python_environment \<Rightarrow> ordering" where
  "environment_cmp a b = cmp_of (env_sort_key a) (env_sort_key b)"

definition same_path :: "path option \<Rightarrow> path option \<Rightarrow> bool" where
  "same_path a b \<longleftrightarrow> map_option components a = map_option components b"

definition environment_eq :: "python_environment \<Rightarrow> python_environment \<Rightarrow> bool" where
  "environment_eq a b \<longleftrightarrow>
     display_name a = display_name b \<and> env_name a = env_name b \<and> same_path (executable a) (executable b)
     \<and> kind a = kind b \<and> version a = version b \<and> same_path (env_prefix a) (env_prefix b)
     \<and> rel_option env_manager_eq (manager a) (manager b) \<and> same_path (project a) (project b)
     \<and> arch a = arch b
     \<and> map_option (map components) (symlinks a) = map_option (map components) (symlinks b)
     \<and> env_error a = env_error b"

lemma environment_eq_refl [simp]: "environment_eq a a"
  by (cases "manager a") (simp_all add: environment_eq_def same_path_def env_manager_eq_def)

section \<open>The shortest executable\<close>

lemma sort_key_length_hd:
  "es \<noteq> [] \<Longrightarrow> \<exists>e rest. sort_key length es = e # rest \<and> e \<in> set es \<and> (\<forall>x \<in> set es. length e \<le> length x)"
proof -
  assume es: "es \<noteq> []"
  obtain e rest where er: "sort_key length es = e # rest"
    using es by (metis list.exhaust set_empty set_sort)
  have "sorted (map length (e # rest))" using sorted_sort_key [of length es] er by simp
  moreover have "set (e # rest) = set es" using er set_sort by metis
  ultimately show ?thesis using er by auto
qed

lemma get_shortest_executable_Some:
  "es \<noteq> [] \<Longrightarrow> \<exists>e. get_shortest_executable k (Some es) = Some e \<and> e \<in> set es"
  using sort_key_length_hd [of es]
  by (auto simp: get_shortest_executable_def find_Some_iff split: option.splits)

lemma get_shortest_executable_empty [simp]: "get_shortest_executable k (Some []) = None"
  by (simp add: get_shortest_executable_def)

lemma get_shortest_executable_min:
  assumes "get_shortest_executable k (Some es) = Some e" and "k \<noteq> Some WindowsStore" and "x \<in> set es"
  shows "length e \<le> length x"
proof -
  from assms(3) have "es \<noteq> []" by auto
  from sort_key_length_hd [OF this] assms show ?thesis
    by (auto simp: get_shortest_executable_def)
qed

lemma get_shortest_executable_store:
  assumes "get_shortest_executable (Some WindowsStore) (Some es) = Some e"
    and "x \<in> set es" and "is_store_executable x"
  shows "is_store_executable e"
  using assms by (auto simp: get_shortest_executable_def find_None_iff find_Some_iff split: option.splits)

section \<open>Well-formed environments\<close>

text \<open>
  What a client may rely on: the symlink list is never empty, has strictly increasing
  components (so no path twice), and the executable is the member of it that
  \<open>get_shortest_executable\<close> prefers.
\<close>

definition env_wf :: "python_environment \<Rightarrow> bool" where
  "env_wf env \<longleftrightarrow>
     (case symlinks env of
        None \<Rightarrow> executable env = None
      | Some ls \<Rightarrow>
          ls \<noteq> [] \<and> sorted_wrt (<) (map components ls)
          \<and> (\<forall>e. executable env = Some e \<longrightarrow>
                 e \<in> set ls \<and> get_shortest_executable (kind env) (Some ls) = Some e))"

lemma env_wf_build: "env_wf (build b)"
proof -
  let ?all = "sort_dedup (to_list (executable b) @ unwrap_or (symlinks b) [])"
  show ?thesis
  proof (cases "?all = []")
    case True
    then show ?thesis by (cases "executable b") (simp_all add: build_def env_wf_def Let_def)
  next
    case False
    from get_shortest_executable_Some [OF False] obtain e where
      "get_shortest_executable (kind b) (Some ?all) = Some e" "e \<in> set ?all" by blast
    with False show ?thesis
      by (auto simp: build_def env_wf_def Let_def sort_dedup_sorted)
  qed
qed

lemma insort_member_dedup:
  assumes "sorted_wrt (<) (map f ls)" and "x \<in> set ls"
  shows "dedup_by (\<lambda>a b. f a = f b) (insort_key f x ls) = ls"
  using assms
proof (induction ls)
  case Nil
  then show ?case by simp
next
  case (Cons a ls)
  have d: "distinct (map f (a # ls))" using Cons.prems(1) by (metis strict_sorted_iff)
  show ?case
  proof (cases "x = a")
    case True
    have "insort_key f x (a # ls) = a # a # ls" using True by simp
    with dedup_by_id [OF d] show ?thesis by simp
  next
    case False
    with Cons.prems have lt: "f a < f x" and x: "x \<in> set ls" by auto
    then have ins: "insort_key f x (a # ls) = a # insort_key f x ls" by auto
    obtain y ys where y: "insort_key f x ls = y # ys" by (cases "insort_key f x ls") auto
    have "y \<in> set (insort_key f x ls)" using y by simp
    then have "y \<in> set (x # ls)" by (simp add: set_insort_key)
    with lt Cons.prems(1) have "f a \<noteq> f y" by auto
    with ins y Cons.IH Cons.prems x show ?thesis by simp
  qed
qed

lemma sort_dedup_insert_member:
  assumes "sorted_wrt (<) (map components ls)" and "x \<in> set ls"
  shows "sort_dedup (x # ls) = ls"
proof -
  have "sort_key components ls = ls"
    using assms(1) by (intro sort_key_id_if_sorted) (simp add: strict_sorted_iff)
  then show ?thesis
    using insort_member_dedup [OF assms]
    by (simp add: sort_dedup_def path_sort_def path_eq_lambda sort_key_def)
qed

lemma build_id: "env_wf env \<Longrightarrow> build (from_environment env) = env"
proof -
  assume wf: "env_wf env"
  show ?thesis
  proof (cases "symlinks env")
    case None
    with wf show ?thesis
      by (cases env) (simp add: env_wf_def build_def from_environment_def sort_dedup_def path_sort_def)
  next
    case (Some ls)
    with wf have ls: "ls \<noteq> []" "sorted_wrt (<) (map components ls)" by (simp_all add: env_wf_def)
    show ?thesis
    proof (cases "executable env")
      case None
      with Some ls show ?thesis
        by (cases env) (simp add: build_def from_environment_def sort_dedup_id)
    next
      case exe: (Some e)
      with wf Some have "e \<in> set ls" "get_shortest_executable (kind env) (Some ls) = Some e"
        by (simp_all add: env_wf_def)
      with Some exe ls show ?thesis
        by (cases env) (simp add: build_def from_environment_def sort_dedup_insert_member)
    qed
  qed
qed

section \<open>The builder loses no known executable\<close>

definition known_paths :: "python_environment \<Rightarrow> component list set" where
  "known_paths b = components ` (set (to_list (executable b)) \<union> set (unwrap_or (symlinks b) []))"

lemma known_paths_shortest:
  assumes "all \<noteq> []"
  shows "components (unwrap_or (get_shortest_executable k (Some all)) e) \<in> components ` set all"
  using get_shortest_executable_Some [OF assms, of k] by auto

lemma known_paths_update:
  "known_paths (update_symlinks_and_exe b links)
     = known_paths b \<union> components ` set (unwrap_or links [])"
proof -
  let ?all = "sort_dedup (unwrap_or (symlinks b) [] @ to_list (executable b) @ unwrap_or links [])"
  have all: "components ` set ?all = known_paths b \<union> components ` set (unwrap_or links [])"
    by (auto simp: components_sort_dedup known_paths_def)
  show ?thesis
  proof (cases "?all = []")
    case True
    then show ?thesis
      by (cases "executable b") (auto simp: update_symlinks_and_exe_def known_paths_def Let_def)
  next
    case False
    from known_paths_shortest [OF False, of "kind b"] False show ?thesis
      by (subst all [symmetric])
        (auto simp: update_symlinks_and_exe_def known_paths_def Let_def insert_absorb
          split: option.splits)
  qed
qed

lemma known_paths_build: "known_paths (build b) = known_paths b"
proof -
  let ?all = "sort_dedup (to_list (executable b) @ unwrap_or (symlinks b) [])"
  have all: "components ` set ?all = known_paths b"
    by (auto simp: components_sort_dedup known_paths_def)
  show ?thesis
  proof (cases "?all = []")
    case True
    then show ?thesis by (cases "executable b") (auto simp: build_def known_paths_def Let_def)
  next
    case False
    from known_paths_shortest [OF False, of "kind b"] False show ?thesis
      by (subst all [symmetric])
        (cases "executable b"; auto simp: build_def known_paths_def Let_def insert_absorb)
  qed
qed

section \<open>What a builder knows\<close>

lemma builder_new_frames [simp]:
  "kind (builder_new k) = k" "executable (builder_new k) = None" "symlinks (builder_new k) = None"
  "env_prefix (builder_new k) = None" "env_name (builder_new k) = None" "version (builder_new k) = None"
  "manager (builder_new k) = None" "project (builder_new k) = None" "display_name (builder_new k) = None"
  "arch (builder_new k) = None" "env_error (builder_new k) = None"
  by (simp_all add: builder_new_def env_default_def)

lemma norm_case_ident: "map_option norm_case p = p"
  by (cases p) (simp_all add: norm_case_def)

lemma setter_frames [simp]:
  "kind (with_name n b) = kind b" "executable (with_name n b) = executable b"
  "symlinks (with_name n b) = symlinks b" "env_prefix (with_name n b) = env_prefix b"
  "version (with_name n b) = version b" "manager (with_name n b) = manager b"
  "project (with_name n b) = project b" "display_name (with_name n b) = display_name b"
  "arch (with_name n b) = arch b" "env_error (with_name n b) = env_error b" "env_name (with_name n b) = n"
  "kind (with_version v b) = kind b" "executable (with_version v b) = executable b"
  "symlinks (with_version v b) = symlinks b" "env_prefix (with_version v b) = env_prefix b"
  "env_name (with_version v b) = env_name b" "manager (with_version v b) = manager b"
  "project (with_version v b) = project b" "display_name (with_version v b) = display_name b"
  "arch (with_version v b) = arch b" "env_error (with_version v b) = env_error b"
  "version (with_version v b) = v" "kind (with_prefix p b) = kind b"
  "executable (with_prefix p b) = executable b" "symlinks (with_prefix p b) = symlinks b"
  "env_name (with_prefix p b) = env_name b" "version (with_prefix p b) = version b"
  "manager (with_prefix p b) = manager b" "project (with_prefix p b) = project b"
  "display_name (with_prefix p b) = display_name b" "arch (with_prefix p b) = arch b"
  "env_error (with_prefix p b) = env_error b" "env_prefix (with_prefix p b) = p"
  "kind (with_project q b) = kind b" "executable (with_project q b) = executable b"
  "symlinks (with_project q b) = symlinks b" "env_prefix (with_project q b) = env_prefix b"
  "env_name (with_project q b) = env_name b" "version (with_project q b) = version b"
  "manager (with_project q b) = manager b" "display_name (with_project q b) = display_name b"
  "arch (with_project q b) = arch b" "env_error (with_project q b) = env_error b"
  "project (with_project q b) = q" "kind (with_display_name d b) = kind b"
  "executable (with_display_name d b) = executable b" "symlinks (with_display_name d b) = symlinks b"
  "env_prefix (with_display_name d b) = env_prefix b" "env_name (with_display_name d b) = env_name b"
  "version (with_display_name d b) = version b" "manager (with_display_name d b) = manager b"
  "project (with_display_name d b) = project b" "arch (with_display_name d b) = arch b"
  "env_error (with_display_name d b) = env_error b" "display_name (with_display_name d b) = d"
  "kind (with_manager m b) = kind b" "executable (with_manager m b) = executable b"
  "symlinks (with_manager m b) = symlinks b" "env_prefix (with_manager m b) = env_prefix b"
  "env_name (with_manager m b) = env_name b" "version (with_manager m b) = version b"
  "project (with_manager m b) = project b" "display_name (with_manager m b) = display_name b"
  "arch (with_manager m b) = arch b" "env_error (with_manager m b) = env_error b"
  "manager (with_manager m b) = m" "kind (with_arch a b) = kind b"
  "executable (with_arch a b) = executable b" "symlinks (with_arch a b) = symlinks b"
  "env_prefix (with_arch a b) = env_prefix b" "env_name (with_arch a b) = env_name b"
  "version (with_arch a b) = version b" "manager (with_arch a b) = manager b"
  "project (with_arch a b) = project b" "display_name (with_arch a b) = display_name b"
  "env_error (with_arch a b) = env_error b" "arch (with_arch a b) = a" "kind (with_error x b) = kind b"
  "executable (with_error x b) = executable b" "symlinks (with_error x b) = symlinks b"
  "env_prefix (with_error x b) = env_prefix b" "env_name (with_error x b) = env_name b"
  "version (with_error x b) = version b" "manager (with_error x b) = manager b"
  "project (with_error x b) = project b" "display_name (with_error x b) = display_name b"
  "arch (with_error x b) = arch b" "env_error (with_error x b) = x"
  by (simp_all add: env_defs norm_case_ident)

lemma update_frames [simp]:
  "kind (update_symlinks_and_exe b ls) = kind b" "env_prefix (update_symlinks_and_exe b ls) = env_prefix b"
  "env_name (update_symlinks_and_exe b ls) = env_name b"
  "version (update_symlinks_and_exe b ls) = version b" "manager (update_symlinks_and_exe b ls) = manager b"
  "project (update_symlinks_and_exe b ls) = project b"
  "display_name (update_symlinks_and_exe b ls) = display_name b"
  "arch (update_symlinks_and_exe b ls) = arch b" "env_error (update_symlinks_and_exe b ls) = env_error b"
  "executable (update_symlinks_and_exe b ls) = None \<longleftrightarrow> executable b = None"
  by (simp_all add: update_symlinks_and_exe_def Let_def split: option.split)

lemma build_frames [simp]:
  "kind (build b) = kind b" "env_prefix (build b) = env_prefix b" "env_name (build b) = env_name b"
  "version (build b) = version b" "manager (build b) = manager b" "project (build b) = project b"
  "display_name (build b) = display_name b" "arch (build b) = arch b" "env_error (build b) = env_error b"
  "executable (build b) = None \<longleftrightarrow> executable b = None"
  by (simp_all add: build_def Let_def)

lemma with_symlinks_frames [simp]:
  "kind (with_symlinks ls b) = kind b" "env_prefix (with_symlinks ls b) = env_prefix b"
  "env_name (with_symlinks ls b) = env_name b" "version (with_symlinks ls b) = version b"
  "manager (with_symlinks ls b) = manager b" "project (with_symlinks ls b) = project b"
  "display_name (with_symlinks ls b) = display_name b" "arch (with_symlinks ls b) = arch b"
  "env_error (with_symlinks ls b) = env_error b"
  "executable (with_symlinks ls b) = None \<longleftrightarrow> executable b = None"
  by (simp_all add: with_symlinks_def)

lemma with_executable_frames [simp]:
  "kind (with_executable x b) = kind b" "env_prefix (with_executable x b) = env_prefix b"
  "env_name (with_executable x b) = env_name b" "version (with_executable x b) = version b"
  "manager (with_executable x b) = manager b" "project (with_executable x b) = project b"
  "display_name (with_executable x b) = display_name b" "arch (with_executable x b) = arch b"
  "env_error (with_executable x b) = env_error b"
  "executable (with_executable x b) = None \<longleftrightarrow> x = None"
  by (auto simp: with_executable_def Let_def split: option.splits)

lemma known_paths_frames [simp]:
  "known_paths (with_name n b) = known_paths b" "known_paths (with_version v b) = known_paths b"
  "known_paths (with_prefix p b) = known_paths b" "known_paths (with_project q b) = known_paths b"
  "known_paths (with_display_name d b) = known_paths b" "known_paths (with_manager m b) = known_paths b"
  "known_paths (with_arch a b) = known_paths b" "known_paths (with_error x b) = known_paths b"
  by (simp_all add: known_paths_def)

lemma known_paths_with_symlinks [simp]:
  "known_paths (with_symlinks ls b) = known_paths b \<union> components ` set (unwrap_or ls [])"
  by (simp add: with_symlinks_def known_paths_update)

lemma known_paths_set: "known_paths (b\<lparr>executable := Some exe\<rparr>) = insert (components exe) (components ` set (unwrap_or (symlinks b) []))"
  by (simp add: known_paths_def)

lemma known_paths_executable [simp]: "components exe \<in> known_paths (with_executable (Some exe) b)"
  by (cases "parent exe"; cases "file_name exe")
     (simp_all add: with_executable_def known_paths_update known_paths_set norm_case_def components_parent_join)

section \<open>Properties\<close>

text \<open>C17: Building an environment normalises it and loses nothing: the links are sorted without
  repetitions and contain the executable, which is the preferred one among them, every path
  known before is still known, and building from the result changes nothing.\<close>

theorem build_normalises:
  "env_wf (build b) \<and> known_paths (build b) = known_paths b \<and> build (from_environment (build b)) = build b"
  by (simp add: env_wf_build known_paths_build build_id)

text \<open>The order on managers is consistent with their equality and antisymmetric: two managers
  compare as equal exactly when they are equal, and swapping the arguments reverses the result.\<close>

theorem env_manager_order:
  "(env_manager_cmp a b = Equal \<longleftrightarrow> env_manager_eq a b) \<and>
   env_manager_cmp b a = reverse_ordering (env_manager_cmp a b)"
  by (simp add: env_manager_cmp_Equal env_manager_cmp_reverse [of b a])

end
