(* ===== verification/Transition.thy ===== *)
theory Transition
  imports Pet_Prelude "HOL-Library.Multiset"
begin

text \<open>
  The contract every concurrent component of the server is checked against: a set of initial
  states, a step relation and an invariant that the steps keep (\<open>inv_system\<close>), and, where
  the component promises to finish its work, a well-founded relation that its own steps
  decrease together with the fact that unfinished work can always step (\<open>live_system\<close>).
  The component theories interpret these locales on their own step relations.

  The second part is the bookkeeping for threads kept in a list: how a sum over all threads
  changes when one thread moves.
\<close>

section \<open>Invariants and liveness\<close>

locale inv_system =
  fixes init :: "'s \<Rightarrow> bool" and step :: "'s \<Rightarrow> 's \<Rightarrow> bool" and inv :: "'s \<Rightarrow> bool"
  assumes inv_init: "init s \<Longrightarrow> inv s"
    and inv_step: "inv s \<Longrightarrow> step s t \<Longrightarrow> inv t"
begin

lemma inv_steps: "step\<^sup>*\<^sup>* s t \<Longrightarrow> inv s \<Longrightarrow> inv t"
  by (induction rule: rtranclp_induct) (auto intro: inv_step)

lemma inv_reachable: "init s \<Longrightarrow> step\<^sup>*\<^sup>* s t \<Longrightarrow> inv t"
  by (blast intro: inv_init inv_steps)

end

locale live_system = inv_system +
  fixes prog :: "'s \<Rightarrow> 's \<Rightarrow> bool" and finished :: "'s \<Rightarrow> bool" and rel :: "('s \<times> 's) set"
  assumes prog_step: "prog s t \<Longrightarrow> step s t"
    and wf_rel: "wf rel"
    and decreases: "inv s \<Longrightarrow> prog s t \<Longrightarrow> (t, s) \<in> rel"
    and progress: "inv s \<Longrightarrow> \<not> finished s \<Longrightarrow> \<exists>t. prog s t"
begin

lemma prog_steps: "prog\<^sup>*\<^sup>* s t \<Longrightarrow> step\<^sup>*\<^sup>* s t"
  by (induction rule: rtranclp_induct) (auto intro: prog_step rtranclp.rtrancl_into_rtrancl)

lemma finishes: "inv s \<Longrightarrow> \<exists>t. prog\<^sup>*\<^sup>* s t \<and> finished t"
proof (induction s rule: wf_induct_rule [OF wf_rel])
  case (1 s)
  show ?case
  proof (cases "finished s")
    case True
    then show ?thesis by blast
  next
    case False
    with progress 1 obtain u where u: "prog s u" by blast
    with 1 decreases have "(u, s) \<in> rel" "inv u" by (auto intro: inv_step prog_step)
    with 1 obtain t where "prog\<^sup>*\<^sup>* u t" "finished t" by blast
    with u show ?thesis by (meson converse_rtranclp_into_rtranclp)
  qed
qed

lemma no_infinite_run:
  assumes "inv (f 0)" shows "\<exists>n. \<not> prog (f n) (f (Suc n))"
proof (rule ccontr)
  assume "\<nexists>n. \<not> prog (f n) (f (Suc n))"
  then have run: "prog (f n) (f (Suc n))" for n by blast
  have "inv (f n)" for n
    by (induction n) (use assms run in \<open>auto intro: inv_step prog_step\<close>)
  then have "(f (Suc n), f n) \<in> rel" for n using run decreases by blast
  then show False using wf_rel wf_iff_no_infinite_down_chain by blast
qed

end

section \<open>Sums over the list of threads\<close>

text \<open>
  Moving thread \<open>i\<close> changes a sum over the threads in one summand; the rest is the same
  for every new value of that thread.
\<close>

lemma sum_list_all_zero:
  fixes f :: "'a \<Rightarrow> 'b::comm_monoid_add"
  shows "(\<And>t. t \<in> set ts \<Longrightarrow> f t = 0) \<Longrightarrow> sum_list (map f ts) = 0"
  by (induction ts) auto

lemma sum_list_at:
  fixes f :: "'a \<Rightarrow> 'b::comm_monoid_add"
  assumes "i < length ts"
  obtains R where "sum_list (map f ts) = f (ts ! i) + R"
    and "\<And>t. sum_list (map f (ts[i := t])) = f t + R"
proof
  let ?R = "sum_list (map f (take i ts)) + sum_list (map f (drop (Suc i) ts))"
  show "sum_list (map f ts) = f (ts ! i) + ?R"
    by (subst id_take_nth_drop [OF assms]) (simp add: ac_simps)
  show "sum_list (map f (ts[i := t])) = f t + ?R" for t
    using assms by (simp add: upd_conv_take_nth_drop ac_simps)
qed

text \<open>Replacing a thread keeps a member with a property, if the new thread has it whenever the
  old one had.\<close>

lemma bex_update:
  assumes "\<exists>t \<in> set ts. P t" "i < length ts" "P (ts ! i) \<Longrightarrow> P t'"
  shows "\<exists>t \<in> set (ts[i := t']). P t"
proof -
  from assms(1) obtain j where j: "j < length ts" "P (ts ! j)" by (auto simp: in_set_conv_nth)
  show ?thesis
  proof (cases "j = i")
    case True
    with assms j show ?thesis by (metis set_update_memI)
  next
    case False
    with j have "ts[i := t'] ! j = ts ! j" "j < length (ts[i := t'])" by simp_all
    with j show ?thesis by (metis nth_mem)
  qed
qed

lemma list_all_update:
  "list_all P ts \<Longrightarrow> P t' \<Longrightarrow> list_all P (ts[i := t'])"
  by (auto simp: list_all_iff dest!: subsetD [OF set_update_subset_insert])

end
