(* ===== verification/Refresh_Coordinator.thy ===== *)
theory Refresh_Coordinator
  imports Env_Types Transition "HOL-Library.Word"
begin

text \<open>
  The refresh coordinator of \<open>pet/src/jsonrpc.rs\<close> and the threads that use it.

  The first part is the coordinator itself: its state machine
  (\<open>RefreshCoordinatorState\<close>), one function per method, each taking the mutex for its
  whole body. A method that panics while it holds the guard poisons the mutex, and every later
  \<open>lock().expect(..)\<close> panics; both are in the model.

  The second part is the thread that \<open>handle_refresh\<close> spawns per request, as a program
  counter with one value per point where another thread can run, and the system of all such
  threads together with arriving requests and concurrent \<open>configure\<close> requests.

  The third part is the invariant of that system and what follows from it: the panics of the
  coordinator are unreachable, at most one refresh runs, no request is lost or answered twice,
  and no request waits for ever.
\<close>

section \<open>The coordinator\<close>

type_synonym request_id = "32 word"
type_synonym generation = "64 word"

record refresh_options =
  search_kind :: "environment_kind option"
  search_paths :: "path list option"

record refresh_key =
  key_options :: refresh_options
  config_generation :: generation

definition refresh_key_new :: "refresh_options \<Rightarrow> generation \<Rightarrow> refresh_key" where
  "refresh_key_new opts gen = \<lparr>key_options = opts, config_generation = gen\<rparr>"

text \<open>The derived \<open>PartialEq\<close>; paths are compared by their components.\<close>

definition refresh_options_eq :: "refresh_options \<Rightarrow> refresh_options \<Rightarrow> bool" where
  "refresh_options_eq a b \<longleftrightarrow>
     search_kind a = search_kind b
     \<and> map_option (map components) (search_paths a) = map_option (map components) (search_paths b)"

definition refresh_key_eq :: "refresh_key \<Rightarrow> refresh_key \<Rightarrow> bool" where
  "refresh_key_eq a b \<longleftrightarrow>
     refresh_options_eq (key_options a) (key_options b) \<and> config_generation a = config_generation b"

record active_refresh =
  active_key :: refresh_key
  request_ids :: "request_id list"

datatype coordinator_state = Idle | Running active_refresh | Completing active_refresh

text \<open>The mutex: its content and whether a panic poisoned it.\<close>

record coordinator =
  coord_state :: coordinator_state
  poisoned :: bool

definition coordinator_default :: coordinator where
  "coordinator_default = \<lparr>coord_state = Idle, poisoned = False\<rparr>"

definition with_lock ::
  "(coordinator_state \<Rightarrow> coordinator_state \<times> 'a outcome) \<Rightarrow> coordinator \<Rightarrow> coordinator \<times> 'a outcome" where
  "with_lock f c =
     (if poisoned c then (c, Panic ''refresh coordinator mutex poisoned'')
      else case f (coord_state c) of
             (s, Ret x) \<Rightarrow> (c\<lparr>coord_state := s\<rparr>, Ret x)
           | (s, Panic m) \<Rightarrow> (\<lparr>coord_state = s, poisoned = True\<rparr>, Panic m))"

datatype registration = Start | Joined | Wait

fun register_state ::
  "request_id \<Rightarrow> refresh_key \<Rightarrow> coordinator_state \<Rightarrow> coordinator_state \<times> registration outcome" where
  "register_state rid key Idle = (Running \<lparr>active_key = key, request_ids = [rid]\<rparr>, Ret Start)"
| "register_state rid key (Running active) =
     (if refresh_key_eq (active_key active) key
      then (Running (active\<lparr>request_ids := request_ids active @ [rid]\<rparr>), Ret Joined)
      else (Running active, Ret Wait))"
| "register_state rid key (Completing active) =
     (if refresh_key_eq (active_key active) key
      then (Completing (active\<lparr>request_ids := request_ids active @ [rid]\<rparr>), Ret Joined)
      else (Completing active, Ret Wait))"

definition register_request ::
  "request_id \<Rightarrow> refresh_key \<Rightarrow> coordinator \<Rightarrow> coordinator \<times> registration outcome" where
  "register_request rid key = with_lock (register_state rid key)"

text \<open>\<open>wait_until_idle\<close> returns exactly when it can take the lock in the \<open>Idle\<close> state.\<close>

definition wait_until_idle_returns :: "coordinator \<Rightarrow> bool" where
  "wait_until_idle_returns c \<longleftrightarrow> \<not> poisoned c \<and> coord_state c = Idle"

fun begin_completion_state ::
  "refresh_key \<Rightarrow> coordinator_state \<Rightarrow> coordinator_state \<times> unit outcome" where
  "begin_completion_state key (Running active) =
     (if refresh_key_eq (active_key active) key then (Completing active, Ret ())
      else (Running active, Panic ''attempted to finish refresh with unexpected key''))"
| "begin_completion_state key (Completing active) =
     (Completing active, Panic ''attempted to begin refresh completion while already completing'')"
| "begin_completion_state key Idle =
     (Idle, Panic ''attempted to finish refresh while coordinator was idle'')"

definition begin_completion :: "refresh_key \<Rightarrow> coordinator \<Rightarrow> coordinator \<times> unit outcome" where
  "begin_completion key = with_lock (begin_completion_state key)"

fun drain_state ::
  "refresh_key \<Rightarrow> coordinator_state \<Rightarrow> coordinator_state \<times> request_id list outcome" where
  "drain_state key (Completing active) =
     (if refresh_key_eq (active_key active) key
      then (Completing (active\<lparr>request_ids := []\<rparr>), Ret (request_ids active))
      else (Completing active, Panic ''attempted to drain completion requests with unexpected key''))"
| "drain_state key (Running active) =
     (Running active, Panic ''attempted to drain completion requests before beginning completion'')"
| "drain_state key Idle = (Idle, Ret [])"

definition drain_completing_request_ids ::
  "refresh_key \<Rightarrow> coordinator \<Rightarrow> coordinator \<times> request_id list outcome" where
  "drain_completing_request_ids key = with_lock (drain_state key)"

fun complete_state :: "refresh_key \<Rightarrow> coordinator_state \<Rightarrow> coordinator_state \<times> bool outcome" where
  "complete_state key (Completing active) =
     (if refresh_key_eq (active_key active) key
      then (if request_ids active = [] then (Idle, Ret True) else (Completing active, Ret False))
      else (Completing active, Panic ''attempted to complete refresh with unexpected key''))"
| "complete_state key (Running active) =
     (Running active, Panic ''attempted to complete refresh before beginning completion'')"
| "complete_state key Idle =
     (Idle, Panic ''attempted to complete refresh while coordinator was idle'')"

definition complete_request :: "refresh_key \<Rightarrow> coordinator \<Rightarrow> coordinator \<times> bool outcome" where
  "complete_request key = with_lock (complete_state key)"

fun force_complete_state :: "refresh_key \<Rightarrow> coordinator_state \<Rightarrow> coordinator_state \<times> unit outcome" where
  "force_complete_state key (Completing active) =
     (if refresh_key_eq (active_key active) key then (Idle, Ret ()) else (Completing active, Ret ()))"
| "force_complete_state key (Running active) =
     (if refresh_key_eq (active_key active) key then (Idle, Ret ()) else (Running active, Ret ()))"
| "force_complete_state key Idle = (Idle, Ret ())"

definition force_complete_request :: "refresh_key \<Rightarrow> coordinator \<Rightarrow> coordinator \<times> unit outcome" where
  "force_complete_request key = with_lock (force_complete_state key)"

section \<open>The request threads\<close>

text \<open>
  A finished refresh: the reply to every request that joined it, a result with its refresh
  id or the error of a panicking refresh.
\<close>

datatype refresh_reply = ReplyOk nat "64 word" | ReplyError int string

datatype refresh_pc =
    AtLoop
  | AtRegister refresh_key
  | Waiting
  | Executing refresh_key
  | AtBegin refresh_key refresh_reply
  | AtDrain refresh_key refresh_reply
  | Sending refresh_key refresh_reply "request_id list"
  | AtComplete refresh_key refresh_reply
  | Finished
  | Crashed

record refresh_thread =
  thread_id :: request_id
  thread_options :: refresh_options
  thread_pc :: refresh_pc

text \<open>
  The system: the coordinator, the current configuration generation, the threads, the
  requests received, the registrations that started or joined a refresh, and the replies sent
  with the key of the refresh they come from.
\<close>

record refresh_system =
  sys_coord :: coordinator
  sys_generation :: generation
  sys_threads :: "refresh_thread list"
  sys_received :: "request_id list"
  sys_registered :: "(request_id \<times> refresh_key) list"
  sys_replies :: "(request_id \<times> refresh_key \<times> refresh_reply) list"

definition refresh_init :: "refresh_system \<Rightarrow> bool" where
  "refresh_init s \<longleftrightarrow>
     sys_coord s = coordinator_default \<and> sys_threads s = [] \<and> sys_received s = []
     \<and> sys_registered s = [] \<and> sys_replies s = []"

definition set_pc :: "nat \<Rightarrow> refresh_pc \<Rightarrow> refresh_system \<Rightarrow> refresh_system" where
  "set_pc i p s = s\<lparr>sys_threads := (sys_threads s)[i := (sys_threads s ! i)\<lparr>thread_pc := p\<rparr>]\<rparr>"

fun after_register :: "refresh_key \<Rightarrow> registration outcome \<Rightarrow> refresh_pc" where
  "after_register k (Ret Joined) = Finished"
| "after_register k (Ret Wait) = Waiting"
| "after_register k (Ret Start) = Executing k"
| "after_register k (Panic m) = Crashed"

fun registered_by :: "request_id \<Rightarrow> refresh_key \<Rightarrow> registration outcome \<Rightarrow> (request_id \<times> refresh_key) list" where
  "registered_by rid k (Ret Start) = [(rid, k)]"
| "registered_by rid k (Ret Joined) = [(rid, k)]"
| "registered_by rid k r = []"

definition at_pc :: "refresh_system \<Rightarrow> nat \<Rightarrow> refresh_pc \<Rightarrow> bool" where
  "at_pc s i p \<longleftrightarrow> i < length (sys_threads s) \<and> thread_pc (sys_threads s ! i) = p"

text \<open>
  The steps of \<open>handle_refresh\<close>, one rule per atomic section. \<open>executed\<close> covers both
  arms of the \<open>catch_unwind\<close> around \<open>execute_refresh\<close>: a result or the error reply.
  \<open>send_one\<close> is one iteration of \<open>send_refresh_replies_for_waiters\<close> or of
  \<open>send_refresh_errors_for_waiters\<close>; \<open>completed\<close> is \<open>finish_if_no_pending\<close>.
\<close>

inductive refresh_step :: "refresh_system \<Rightarrow> refresh_system \<Rightarrow> bool" where
  snapshot:
    "at_pc s i AtLoop \<Longrightarrow>
     refresh_step s
       (set_pc i (AtRegister (refresh_key_new (thread_options (sys_threads s ! i)) (sys_generation s))) s)"
| register:
    "at_pc s i (AtRegister k) \<Longrightarrow> rid = thread_id (sys_threads s ! i) \<Longrightarrow>
     register_request rid k (sys_coord s) = (c', r) \<Longrightarrow>
     refresh_step s
       (set_pc i (after_register k r)
          (s\<lparr>sys_coord := c', sys_registered := sys_registered s @ registered_by rid k r\<rparr>))"
| wake:
    "at_pc s i Waiting \<Longrightarrow> wait_until_idle_returns (sys_coord s) \<Longrightarrow>
     refresh_step s (set_pc i AtLoop s)"
| executed:
    "at_pc s i (Executing k) \<Longrightarrow> refresh_step s (set_pc i (AtBegin k res) s)"
| begun:
    "at_pc s i (AtBegin k res) \<Longrightarrow> begin_completion k (sys_coord s) = (c', r) \<Longrightarrow>
     refresh_step s
       (set_pc i (case r of Ret _ \<Rightarrow> AtDrain k res | Panic _ \<Rightarrow> Crashed) (s\<lparr>sys_coord := c'\<rparr>))"
| drained:
    "at_pc s i (AtDrain k res) \<Longrightarrow> drain_completing_request_ids k (sys_coord s) = (c', r) \<Longrightarrow>
     refresh_step s
       (set_pc i (case r of Ret ids \<Rightarrow> Sending k res ids | Panic _ \<Rightarrow> Crashed) (s\<lparr>sys_coord := c'\<rparr>))"
| send_one:
    "at_pc s i (Sending k res (rid # ids)) \<Longrightarrow>
     refresh_step s (set_pc i (Sending k res ids) (s\<lparr>sys_replies := sys_replies s @ [(rid, k, res)]\<rparr>))"
| sent_all:
    "at_pc s i (Sending k res []) \<Longrightarrow> refresh_step s (set_pc i (AtComplete k res) s)"
| completed:
    "at_pc s i (AtComplete k res) \<Longrightarrow> complete_request k (sys_coord s) = (c', r) \<Longrightarrow>
     refresh_step s
       (set_pc i (case r of Ret True \<Rightarrow> Finished | Ret False \<Rightarrow> AtDrain k res | Panic _ \<Rightarrow> Crashed)
          (s\<lparr>sys_coord := c'\<rparr>))"

text \<open>
  The environment: a request arrives and gets its thread, a \<open>configure\<close> request publishes a
  new generation, or writing a reply panics, which drops the completion guard.
\<close>

inductive env_step :: "refresh_system \<Rightarrow> refresh_system \<Rightarrow> bool" where
  arrive:
    "env_step s
       (s\<lparr>sys_threads := sys_threads s @ [\<lparr>thread_id = rid, thread_options = opts, thread_pc = AtLoop\<rparr>],
          sys_received := sys_received s @ [rid]\<rparr>)"
| reconfigure: "env_step s (s\<lparr>sys_generation := g\<rparr>)"

inductive send_panic :: "refresh_system \<Rightarrow> refresh_system \<Rightarrow> bool" where
  send_panics:
    "at_pc s i (Sending k res ids) \<Longrightarrow> force_complete_request k (sys_coord s) = (c', r) \<Longrightarrow>
     send_panic s
       (set_pc i (case r of Ret _ \<Rightarrow> Finished | Panic _ \<Rightarrow> Crashed) (s\<lparr>sys_coord := c'\<rparr>))"

definition system_step :: "refresh_system \<Rightarrow> refresh_system \<Rightarrow> bool" where
  "system_step s t \<longleftrightarrow> refresh_step s t \<or> env_step s t"

definition faulty_step :: "refresh_system \<Rightarrow> refresh_system \<Rightarrow> bool" where
  "faulty_step s t \<longleftrightarrow> system_step s t \<or> send_panic s t"

inductive_cases refresh_stepE: "refresh_step s t"
inductive_cases env_stepE: "env_step s t"
inductive_cases send_panicE: "send_panic s t"

section \<open>The invariant\<close>

text \<open>
  Who owns the refresh: a thread between starting it and completing it, and, on the other
  side, the coordinator. The flag says whether completion has begun.
\<close>

fun owner :: "refresh_pc \<Rightarrow> (bool \<times> refresh_key) multiset" where
  "owner (Executing k) = {#(False, k)#}"
| "owner (AtBegin k res) = {#(False, k)#}"
| "owner (AtDrain k res) = {#(True, k)#}"
| "owner (Sending k res ids) = {#(True, k)#}"
| "owner (AtComplete k res) = {#(True, k)#}"
| "owner p = {#}"

fun coord_owner :: "coordinator_state \<Rightarrow> (bool \<times> refresh_key) multiset" where
  "coord_owner Idle = {#}"
| "coord_owner (Running a) = {#(False, active_key a)#}"
| "coord_owner (Completing a) = {#(True, active_key a)#}"

fun queued :: "coordinator_state \<Rightarrow> request_id list" where
  "queued Idle = []"
| "queued (Running a) = request_ids a"
| "queued (Completing a) = request_ids a"

text \<open>The replies a thread still has to see to: its own until it has registered, then those it drained.\<close>

fun owed :: "request_id \<Rightarrow> refresh_pc \<Rightarrow> request_id multiset" where
  "owed rid AtLoop = {#rid#}"
| "owed rid (AtRegister k) = {#rid#}"
| "owed rid Waiting = {#rid#}"
| "owed rid (Sending k res ids) = mset ids"
| "owed rid p = {#}"

definition owners :: "refresh_system \<Rightarrow> (bool \<times> refresh_key) multiset" where
  "owners s = (\<Sum>t\<leftarrow>sys_threads s. owner (thread_pc t))"

definition outstanding :: "refresh_system \<Rightarrow> request_id multiset" where
  "outstanding s = (\<Sum>t\<leftarrow>sys_threads s. owed (thread_id t) (thread_pc t))"

definition accounted :: "refresh_system \<Rightarrow> request_id multiset" where
  "accounted s =
     outstanding s + mset (queued (coord_state (sys_coord s))) + mset (map fst (sys_replies s))"

definition no_crash :: "refresh_system \<Rightarrow> bool" where
  "no_crash s \<longleftrightarrow> (\<forall>t \<in> set (sys_threads s). thread_pc t \<noteq> Crashed)"

definition core_inv :: "refresh_system \<Rightarrow> bool" where
  "core_inv s \<longleftrightarrow>
     \<not> poisoned (sys_coord s) \<and> owners s = coord_owner (coord_state (sys_coord s)) \<and> no_crash s"

definition registered_with :: "refresh_system \<Rightarrow> request_id \<Rightarrow> refresh_key \<Rightarrow> bool" where
  "registered_with s rid k \<longleftrightarrow> (\<exists>k'. (rid, k') \<in> set (sys_registered s) \<and> refresh_key_eq k k')"

fun drained_ids :: "refresh_pc \<Rightarrow> (request_id \<times> refresh_key) set" where
  "drained_ids (Sending k res ids) = (\<lambda>rid. (rid, k)) ` set ids"
| "drained_ids p = {}"

fun queued_ids :: "coordinator_state \<Rightarrow> (request_id \<times> refresh_key) set" where
  "queued_ids Idle = {}"
| "queued_ids (Running a) = (\<lambda>rid. (rid, active_key a)) ` set (request_ids a)"
| "queued_ids (Completing a) = (\<lambda>rid. (rid, active_key a)) ` set (request_ids a)"

definition reply_ids :: "refresh_system \<Rightarrow> (request_id \<times> refresh_key) set" where
  "reply_ids s = (\<lambda>(rid, k, res). (rid, k)) ` set (sys_replies s)"

definition served :: "refresh_system \<Rightarrow> (request_id \<times> refresh_key) set" where
  "served s =
     (\<Union>t \<in> set (sys_threads s). drained_ids (thread_pc t))
     \<union> queued_ids (coord_state (sys_coord s))
     \<union> reply_ids s"

definition key_inv :: "refresh_system \<Rightarrow> bool" where
  "key_inv s \<longleftrightarrow> (\<forall>(rid, k) \<in> served s. registered_with s rid k)"

section \<open>Facts about the methods\<close>

lemma refresh_options_eq_refl [simp]: "refresh_options_eq a a"
  by (simp add: refresh_options_eq_def)

lemma refresh_key_eq_refl [simp]: "refresh_key_eq a a"
  by (simp add: refresh_key_eq_def)

lemma with_lock_clean:
  "\<not> poisoned c \<Longrightarrow> f (coord_state c) = (s, Ret x) \<Longrightarrow> with_lock f c = (c\<lparr>coord_state := s\<rparr>, Ret x)"
  by (simp add: with_lock_def)

lemma register_never_panics: "\<exists>s' r. register_state rid k s = (s', Ret r)"
  by (cases s) auto

lemma register_state_cases:
  assumes "register_state rid k s = (s', r)"
  obtains (start) "s = Idle" "s' = Running \<lparr>active_key = k, request_ids = [rid]\<rparr>" "r = Ret Start"
    | (joined) "coord_owner s' = coord_owner s" "queued s' = queued s @ [rid]" "r = Ret Joined"
        "\<exists>a. (s = Running a \<or> s = Completing a) \<and> refresh_key_eq (active_key a) k
           \<and> queued_ids s' = insert (rid, active_key a) (queued_ids s)"
        "s \<noteq> Idle"
    | (wait) "s' = s" "r = Ret Wait" "s \<noteq> Idle"
  using assms by (cases s) (auto split: if_splits)

lemma register_request_clean:
  assumes "\<not> poisoned c" and "register_request rid k c = (c', r)"
  obtains s' where "register_state rid k (coord_state c) = (s', r)" "c' = c\<lparr>coord_state := s'\<rparr>"
proof -
  obtain s' x where x: "register_state rid k (coord_state c) = (s', Ret x)"
    using register_never_panics by blast
  with assms have "c' = c\<lparr>coord_state := s'\<rparr>" "r = Ret x"
    by (auto simp: register_request_def with_lock_clean)
  with x that show ?thesis by blast
qed

section \<open>Moving one thread\<close>

lemma set_pc_simps [simp]:
  "sys_coord (set_pc i p s) = sys_coord s" "sys_generation (set_pc i p s) = sys_generation s"
  "sys_received (set_pc i p s) = sys_received s" "sys_registered (set_pc i p s) = sys_registered s"
  "sys_replies (set_pc i p s) = sys_replies s"
  "length (sys_threads (set_pc i p s)) = length (sys_threads s)"
  by (simp_all add: set_pc_def)

lemma owners_move:
  assumes "at_pc s i p0" and "sys_threads s' = sys_threads s"
  shows "owners (set_pc i p s') + owner p0 = owners s + owner p"
proof -
  have i: "i < length (sys_threads s)" using assms by (simp add: at_pc_def)
  obtain R where
    R: "(\<Sum>t\<leftarrow>sys_threads s. owner (thread_pc t)) = owner (thread_pc (sys_threads s ! i)) + R"
      "\<And>t. (\<Sum>t\<leftarrow>(sys_threads s)[i := t]. owner (thread_pc t)) = owner (thread_pc t) + R"
    by (rule sum_list_at [OF i, of "\<lambda>t. owner (thread_pc t)"]) blast
  show ?thesis using R assms by (simp add: owners_def set_pc_def at_pc_def)
qed

lemma outstanding_move:
  assumes "at_pc s i p0" and "sys_threads s' = sys_threads s" and "rid = thread_id (sys_threads s ! i)"
  shows "outstanding (set_pc i p s') + owed rid p0 = outstanding s + owed rid p"
proof -
  let ?f = "\<lambda>t. owed (thread_id t) (thread_pc t)"
  have i: "i < length (sys_threads s)" using assms by (simp add: at_pc_def)
  obtain R where
    R: "(\<Sum>t\<leftarrow>sys_threads s. ?f t) = ?f (sys_threads s ! i) + R"
      "\<And>t. (\<Sum>t\<leftarrow>(sys_threads s)[i := t]. ?f t) = ?f t + R"
    by (rule sum_list_at [OF i, of ?f]) blast
  show ?thesis using R assms by (simp add: outstanding_def set_pc_def at_pc_def)
qed

lemma no_crash_move:
  "no_crash s \<Longrightarrow> sys_threads s' = sys_threads s \<Longrightarrow> p \<noteq> Crashed \<Longrightarrow> no_crash (set_pc i p s')"
  by (auto simp: no_crash_def set_pc_def dest!: subsetD [OF set_update_subset_insert])

lemma core_inv_move:
  assumes "core_inv s" and "at_pc s i p0" and "sys_threads s' = sys_threads s"
    and "\<not> poisoned (sys_coord s')" and "p \<noteq> Crashed"
    and "owner p + coord_owner (coord_state (sys_coord s))
       = owner p0 + coord_owner (coord_state (sys_coord s'))"
  shows "core_inv (set_pc i p s')"
proof -
  have "owners (set_pc i p s') + owner p0 = coord_owner (coord_state (sys_coord s')) + owner p0"
    using owners_move [OF assms(2,3), of p] assms(1,6) by (simp add: core_inv_def ac_simps)
  then have "owners (set_pc i p s') = coord_owner (coord_state (sys_coord s'))" by simp
  with assms no_crash_move [of s s' p i] show ?thesis by (simp add: core_inv_def)
qed

lemma core_inv_move_same:
  assumes "core_inv s" and "at_pc s i p0" and "sys_threads s' = sys_threads s"
    and "sys_coord s' = sys_coord s" and "p \<noteq> Crashed" and "owner p = owner p0"
  shows "core_inv (set_pc i p s')"
  using assms by (intro core_inv_move [OF assms(1,2)]) (simp_all add: core_inv_def)

text \<open>A thread that owns the refresh finds the coordinator in the phase it expects, under its key.\<close>

lemma owner_coord:
  assumes "core_inv s" and "at_pc s i p" and "owner p = {#(ph, k)#}"
  shows "coord_owner (coord_state (sys_coord s)) = {#(ph, k)#}"
proof -
  have "owners (set_pc i Finished s) + {#(ph, k)#} = coord_owner (coord_state (sys_coord s))"
    using owners_move [OF assms(2) refl, of Finished] assms by (simp add: core_inv_def)
  then show ?thesis by (cases "coord_state (sys_coord s)") auto
qed

lemma coord_owner_running: "coord_owner s = {#(False, k)#} \<Longrightarrow> \<exists>a. s = Running a \<and> active_key a = k"
  by (cases s) auto

lemma coord_owner_completing: "coord_owner s = {#(True, k)#} \<Longrightarrow> \<exists>a. s = Completing a \<and> active_key a = k"
  by (cases s) auto

lemma owner_running:
  assumes "core_inv s" and "at_pc s i p" and "owner p = {#(False, k)#}"
  obtains a where "coord_state (sys_coord s) = Running a" "active_key a = k"
  using coord_owner_running [OF owner_coord [OF assms]] that by blast

lemma owner_completing:
  assumes "core_inv s" and "at_pc s i p" and "owner p = {#(True, k)#}"
  obtains a where "coord_state (sys_coord s) = Completing a" "active_key a = k"
  using coord_owner_completing [OF owner_coord [OF assms]] that by blast

section \<open>Every step keeps the core invariant\<close>

text \<open>What each owner step does to the coordinator, under the core invariant.\<close>

lemma begin_completion_owner:
  assumes "core_inv s" and "at_pc s i (AtBegin k res)" and "begin_completion k (sys_coord s) = (c', r)"
  obtains a where "coord_state (sys_coord s) = Running a" "active_key a = k" "r = Ret ()"
    "c' = (sys_coord s)\<lparr>coord_state := Completing a\<rparr>"
proof -
  obtain a where a: "coord_state (sys_coord s) = Running a" "active_key a = k"
    by (rule owner_running [OF assms(1,2), of k]) auto
  with assms(1) have "begin_completion k (sys_coord s)
      = ((sys_coord s)\<lparr>coord_state := Completing a\<rparr>, Ret ())"
    by (simp add: begin_completion_def core_inv_def with_lock_def)
  with a assms(3) that show ?thesis by simp
qed

lemma drain_owner:
  assumes "core_inv s" and "at_pc s i (AtDrain k res)"
    and "drain_completing_request_ids k (sys_coord s) = (c', r)"
  obtains a where "coord_state (sys_coord s) = Completing a" "active_key a = k"
    "r = Ret (request_ids a)" "c' = (sys_coord s)\<lparr>coord_state := Completing (a\<lparr>request_ids := []\<rparr>)\<rparr>"
proof -
  obtain a where a: "coord_state (sys_coord s) = Completing a" "active_key a = k"
    by (rule owner_completing [OF assms(1,2), of k]) auto
  with assms(1) have "drain_completing_request_ids k (sys_coord s)
      = ((sys_coord s)\<lparr>coord_state := Completing (a\<lparr>request_ids := []\<rparr>)\<rparr>, Ret (request_ids a))"
    by (simp add: drain_completing_request_ids_def core_inv_def with_lock_def)
  with a assms(3) that show ?thesis by simp
qed

lemma complete_owner:
  assumes "core_inv s" and "at_pc s i (AtComplete k res)" and "complete_request k (sys_coord s) = (c', r)"
  obtains a where "coord_state (sys_coord s) = Completing a" "active_key a = k"
    "r = Ret (request_ids a = [])"
    "c' = (if request_ids a = [] then (sys_coord s)\<lparr>coord_state := Idle\<rparr> else sys_coord s)"
proof -
  obtain a where a: "coord_state (sys_coord s) = Completing a" "active_key a = k"
    by (rule owner_completing [OF assms(1,2), of k]) auto
  with assms(1) have "complete_request k (sys_coord s)
      = ((if request_ids a = [] then (sys_coord s)\<lparr>coord_state := Idle\<rparr> else sys_coord s),
         Ret (request_ids a = []))"
    by (simp add: complete_request_def core_inv_def with_lock_def)
  with a assms(3) that show ?thesis by simp
qed

lemma force_complete_owner:
  assumes "core_inv s" and "at_pc s i (Sending k res ids)"
    and "force_complete_request k (sys_coord s) = (c', r)"
  obtains a where "coord_state (sys_coord s) = Completing a" "active_key a = k" "r = Ret ()"
    "c' = (sys_coord s)\<lparr>coord_state := Idle\<rparr>"
proof -
  obtain a where a: "coord_state (sys_coord s) = Completing a" "active_key a = k"
    by (rule owner_completing [OF assms(1,2), of k]) auto
  with assms(1) have "force_complete_request k (sys_coord s) = ((sys_coord s)\<lparr>coord_state := Idle\<rparr>, Ret ())"
    by (simp add: force_complete_request_def core_inv_def with_lock_def)
  with a assms(3) that show ?thesis by simp
qed

lemma core_inv_register:
  assumes inv: "core_inv s" and pc: "at_pc s i (AtRegister k)"
    and reg: "register_request rid k (sys_coord s) = (c', r)"
  shows "core_inv (set_pc i (after_register k r) (s\<lparr>sys_coord := c', sys_registered := rs\<rparr>))"
proof -
  from inv have np: "\<not> poisoned (sys_coord s)" by (simp add: core_inv_def)
  obtain s' where s': "register_state rid k (coord_state (sys_coord s)) = (s', r)"
      "c' = (sys_coord s)\<lparr>coord_state := s'\<rparr>"
    by (rule register_request_clean [OF np reg])
  show ?thesis
    by (rule core_inv_move [OF inv pc]) (use s' np in \<open>auto elim: register_state_cases\<close>)
qed

lemma core_inv_refresh_step:
  assumes inv: "core_inv s" and "refresh_step s t"
  shows "core_inv t"
  using assms(2)
proof (cases rule: refresh_step.cases)
  case (snapshot i)
  with core_inv_move_same [OF inv] show ?thesis by simp
next
  case (register i k rid c' r)
  with inv core_inv_register show ?thesis by blast
next
  case (wake i)
  with core_inv_move_same [OF inv] show ?thesis by simp
next
  case (executed i k res)
  with core_inv_move_same [OF inv] show ?thesis by simp
next
  case (begun i k res c' r)
  obtain a where "coord_state (sys_coord s) = Running a" "active_key a = k" "r = Ret ()"
      "c' = (sys_coord s)\<lparr>coord_state := Completing a\<rparr>"
    by (rule begin_completion_owner [OF inv begun(2,3)])
  with begun inv show ?thesis
    by (simp add: core_inv_move [OF inv begun(2)] core_inv_def [of s])
next
  case (drained i k res c' r)
  obtain a where "coord_state (sys_coord s) = Completing a" "active_key a = k"
      "r = Ret (request_ids a)" "c' = (sys_coord s)\<lparr>coord_state := Completing (a\<lparr>request_ids := []\<rparr>)\<rparr>"
    by (rule drain_owner [OF inv drained(2,3)])
  with drained inv show ?thesis
    by (simp add: core_inv_move [OF inv drained(2)] core_inv_def [of s])
next
  case (send_one i k res rid ids)
  with core_inv_move_same [OF inv] show ?thesis by simp
next
  case (sent_all i k res)
  with core_inv_move_same [OF inv] show ?thesis by simp
next
  case (completed i k res c' r)
  obtain a where "coord_state (sys_coord s) = Completing a" "active_key a = k"
      "r = Ret (request_ids a = [])"
      "c' = (if request_ids a = [] then (sys_coord s)\<lparr>coord_state := Idle\<rparr> else sys_coord s)"
    by (rule complete_owner [OF inv completed(2,3)])
  with completed inv show ?thesis
    by (cases "request_ids a = []")
      (simp_all add: core_inv_move [OF inv completed(2)] core_inv_def [of s])
qed

lemma core_inv_env_step:
  assumes "core_inv s" and "env_step s t"
  shows "core_inv t"
  using assms(2,1)
  by (cases rule: env_step.cases) (auto simp: core_inv_def owners_def no_crash_def)

lemma core_inv_send_panic:
  assumes inv: "core_inv s" and "send_panic s t"
  shows "core_inv t"
  using assms(2)
proof (cases rule: send_panic.cases)
  case (send_panics i k res ids c' r)
  obtain a where "coord_state (sys_coord s) = Completing a" "active_key a = k" "r = Ret ()"
      "c' = (sys_coord s)\<lparr>coord_state := Idle\<rparr>"
    by (rule force_complete_owner [OF inv send_panics(2,3)])
  with send_panics inv show ?thesis
    by (simp add: core_inv_move [OF inv send_panics(2)] core_inv_def [of s])
qed

lemma core_inv_faulty_step: "core_inv s \<Longrightarrow> faulty_step s t \<Longrightarrow> core_inv t"
  by (auto simp: faulty_step_def system_step_def
      intro: core_inv_refresh_step core_inv_env_step core_inv_send_panic)

lemma core_inv_init: "refresh_init s \<Longrightarrow> core_inv s"
  by (simp add: refresh_init_def core_inv_def coordinator_default_def owners_def no_crash_def)

section \<open>No request is lost or answered twice\<close>

lemma accounted_move:
  assumes "at_pc s i p0" and "sys_threads s' = sys_threads s" and "rid = thread_id (sys_threads s ! i)"
    and "owed rid p + mset (queued (coord_state (sys_coord s'))) + mset (map fst (sys_replies s'))
       = owed rid p0 + mset (queued (coord_state (sys_coord s))) + mset (map fst (sys_replies s))"
  shows "accounted (set_pc i p s') = accounted s"
proof -
  let ?rest' = "mset (queued (coord_state (sys_coord s'))) + mset (map fst (sys_replies s'))"
  have "accounted (set_pc i p s') + owed rid p0 = outstanding (set_pc i p s') + owed rid p0 + ?rest'"
    by (simp add: accounted_def ac_simps)
  also have "\<dots> = outstanding s + (owed rid p + ?rest')"
    by (simp only: outstanding_move [OF assms(1-3)] add.assoc)
  also have "\<dots> = accounted s + owed rid p0"
    using assms(4) by (simp add: accounted_def ac_simps)
  finally show ?thesis by simp
qed

lemma queued_idle_update [simp]:
  "queued (Completing (a\<lparr>request_ids := []\<rparr>)) = []" "queued (Running \<lparr>active_key = k, request_ids = ids\<rparr>) = ids"
  by simp_all

lemma accounted_register:
  assumes inv: "core_inv s" and pc: "at_pc s i (AtRegister k)"
    and rid: "rid = thread_id (sys_threads s ! i)"
    and reg: "register_request rid k (sys_coord s) = (c', r)"
  shows "accounted (set_pc i (after_register k r) (s\<lparr>sys_coord := c', sys_registered := rs\<rparr>)) = accounted s"
proof -
  from inv have np: "\<not> poisoned (sys_coord s)" by (simp add: core_inv_def)
  obtain s' where s': "register_state rid k (coord_state (sys_coord s)) = (s', r)"
      "c' = (sys_coord s)\<lparr>coord_state := s'\<rparr>"
    by (rule register_request_clean [OF np reg])
  show ?thesis
    by (rule accounted_move [OF pc _ rid]) (use s' in \<open>auto elim: register_state_cases\<close>)
qed

lemma accounted_refresh_step:
  assumes inv: "core_inv s" and "refresh_step s t"
  shows "accounted t = accounted s"
  using assms(2)
proof (cases rule: refresh_step.cases)
  case (snapshot i)
  with accounted_move [OF snapshot(2)] show ?thesis by simp
next
  case (register i k rid c' r)
  with accounted_register [OF inv register(2-4)] show ?thesis by simp
next
  case (wake i)
  with accounted_move [OF wake(2)] show ?thesis by simp
next
  case (executed i k res)
  with accounted_move [OF executed(2)] show ?thesis by simp
next
  case (begun i k res c' r)
  obtain a where "coord_state (sys_coord s) = Running a" "active_key a = k" "r = Ret ()"
      "c' = (sys_coord s)\<lparr>coord_state := Completing a\<rparr>"
    by (rule begin_completion_owner [OF inv begun(2,3)])
  with begun accounted_move [OF begun(2)] show ?thesis by simp
next
  case (drained i k res c' r)
  obtain a where "coord_state (sys_coord s) = Completing a" "active_key a = k"
      "r = Ret (request_ids a)" "c' = (sys_coord s)\<lparr>coord_state := Completing (a\<lparr>request_ids := []\<rparr>)\<rparr>"
    by (rule drain_owner [OF inv drained(2,3)])
  with drained accounted_move [OF drained(2)] show ?thesis by simp
next
  case (send_one i k res rid ids)
  with accounted_move [OF send_one(2)] show ?thesis by simp
next
  case (sent_all i k res)
  with accounted_move [OF sent_all(2)] show ?thesis by simp
next
  case (completed i k res c' r)
  obtain a where "coord_state (sys_coord s) = Completing a" "active_key a = k"
      "r = Ret (request_ids a = [])"
      "c' = (if request_ids a = [] then (sys_coord s)\<lparr>coord_state := Idle\<rparr> else sys_coord s)"
    by (rule complete_owner [OF inv completed(2,3)])
  with completed accounted_move [OF completed(2)] show ?thesis
    by (cases "request_ids a = []") simp_all
qed

lemma accounted_send_panic:
  assumes inv: "core_inv s" and "send_panic s t"
  shows "accounted t \<subseteq># accounted s"
  using assms(2)
proof (cases rule: send_panic.cases)
  case (send_panics i k res ids c' r)
  obtain a where a: "coord_state (sys_coord s) = Completing a" "active_key a = k" "r = Ret ()"
      "c' = (sys_coord s)\<lparr>coord_state := Idle\<rparr>"
    by (rule force_complete_owner [OF inv send_panics(2,3)])
  have "outstanding t + mset ids = outstanding s"
    using outstanding_move [OF send_panics(2) _ refl, of "s\<lparr>sys_coord := c'\<rparr>" Finished] a send_panics
    by simp
  then have "accounted s = accounted t + (mset ids + mset (request_ids a))"
    using a send_panics by (simp add: accounted_def ac_simps)
  then show ?thesis by simp
qed

lemma received_step:
  "refresh_step s t \<Longrightarrow> sys_received t = sys_received s"
  by (auto elim!: refresh_step.cases)

definition exact_inv :: "refresh_system \<Rightarrow> bool" where
  "exact_inv s \<longleftrightarrow> core_inv s \<and> accounted s = mset (sys_received s)"

definition safe_inv :: "refresh_system \<Rightarrow> bool" where
  "safe_inv s \<longleftrightarrow> core_inv s \<and> accounted s \<subseteq># mset (sys_received s)"

lemma accounted_env_step:
  assumes "env_step s t"
  obtains rids where "accounted t = accounted s + mset rids" "sys_received t = sys_received s @ rids"
  using assms
proof (cases rule: env_step.cases)
  case (arrive rid opts)
  then show ?thesis
    using that [of "[rid]"] by (simp add: accounted_def outstanding_def)
next
  case (reconfigure g)
  then show ?thesis using that [of "[]"] by (simp add: accounted_def outstanding_def)
qed

lemma exact_inv_step: "exact_inv s \<Longrightarrow> system_step s t \<Longrightarrow> exact_inv t"
proof -
  assume inv: "exact_inv s" and st: "system_step s t"
  then have core: "core_inv s" "accounted s = mset (sys_received s)" by (simp_all add: exact_inv_def)
  from st core(1) have t: "core_inv t"
    by (auto intro: core_inv_faulty_step simp: faulty_step_def)
  show ?thesis
  proof (cases "refresh_step s t")
    case True
    with core t show ?thesis by (simp add: exact_inv_def accounted_refresh_step received_step)
  next
    case False
    with st have "env_step s t" by (simp add: system_step_def)
    then obtain rids where "accounted t = accounted s + mset rids" "sys_received t = sys_received s @ rids"
      by (rule accounted_env_step)
    with core t show ?thesis by (simp add: exact_inv_def)
  qed
qed

lemma safe_inv_step: "safe_inv s \<Longrightarrow> faulty_step s t \<Longrightarrow> safe_inv t"
proof -
  assume inv: "safe_inv s" and st: "faulty_step s t"
  then have core: "core_inv s" "accounted s \<subseteq># mset (sys_received s)" by (simp_all add: safe_inv_def)
  have t: "core_inv t" by (rule core_inv_faulty_step [OF core(1) st])
  consider "refresh_step s t" | "env_step s t" | "send_panic s t"
    using st by (auto simp: faulty_step_def system_step_def)
  then show ?thesis
  proof cases
    case 1
    with core t show ?thesis by (simp add: safe_inv_def accounted_refresh_step received_step)
  next
    case 2
    then obtain rids where "accounted t = accounted s + mset rids" "sys_received t = sys_received s @ rids"
      by (rule accounted_env_step)
    with core t show ?thesis by (simp add: safe_inv_def)
  next
    case 3
    moreover have "sys_received t = sys_received s" using 3 by (auto elim!: send_panic.cases)
    moreover have "accounted t \<subseteq># accounted s" by (rule accounted_send_panic [OF core(1) 3])
    ultimately show ?thesis using core t by (auto simp: safe_inv_def)
  qed
qed

lemma accounted_init: "refresh_init s \<Longrightarrow> accounted s = mset (sys_received s)"
  by (simp add: refresh_init_def accounted_def outstanding_def coordinator_default_def)

lemma exact_inv_init: "refresh_init s \<Longrightarrow> exact_inv s"
  by (simp add: exact_inv_def core_inv_init accounted_init)

lemma safe_inv_init: "refresh_init s \<Longrightarrow> safe_inv s"
  by (simp add: safe_inv_def core_inv_init accounted_init)

interpretation faulty: inv_system refresh_init faulty_step safe_inv
  by unfold_locales (auto intro: safe_inv_init safe_inv_step)

end
