(* ===== verification/Refresh_Liveness.thy ===== *)
theory Refresh_Liveness
  imports Refresh_Coordinator
begin

text \<open>
  Termination and progress of the refresh threads: the threads of
  \<open>handle_refresh\<close> that have been spawned finish, whatever the interleaving, and when they
  have finished every request has its reply.

  The measure is lexicographic: threads that have not yet started or joined a refresh; the work
  left to the owner of the running refresh; the distance of each waiting thread from its next
  blocking point, which is a different point while a refresh runs and while none does.
\<close>

section \<open>The measure\<close>

fun unregistered :: "refresh_pc \<Rightarrow> nat" where
  "unregistered AtLoop = 1"
| "unregistered (AtRegister k) = 1"
| "unregistered Waiting = 1"
| "unregistered p = 0"

definition redo :: "nat \<Rightarrow> nat" where
  "redo q = (if q = 0 then 0 else q + 4)"

fun own_rank :: "nat \<Rightarrow> refresh_pc \<Rightarrow> nat" where
  "own_rank q (Executing k) = q + 6"
| "own_rank q (AtBegin k res) = q + 5"
| "own_rank q (AtDrain k res) = q + 3"
| "own_rank q (Sending k res ids) = 2 + length ids + redo q"
| "own_rank q (AtComplete k res) = 1 + redo q"
| "own_rank q p = 0"

fun wait_rank :: "bool \<Rightarrow> refresh_pc \<Rightarrow> nat" where
  "wait_rank idle AtLoop = (if idle then 1 else 2)"
| "wait_rank idle (AtRegister k) = (if idle then 0 else 1)"
| "wait_rank idle Waiting = (if idle then 2 else 0)"
| "wait_rank idle p = 0"

abbreviation queue_length :: "refresh_system \<Rightarrow> nat" where
  "queue_length s \<equiv> length (queued (coord_state (sys_coord s)))"

abbreviation idle :: "refresh_system \<Rightarrow> bool" where
  "idle s \<equiv> coord_state (sys_coord s) = Idle"

definition pending_threads :: "refresh_system \<Rightarrow> nat" where
  "pending_threads s = (\<Sum>t\<leftarrow>sys_threads s. unregistered (thread_pc t))"

definition owner_work :: "refresh_system \<Rightarrow> nat" where
  "owner_work s = (\<Sum>t\<leftarrow>sys_threads s. own_rank (queue_length s) (thread_pc t))"

definition wait_work :: "refresh_system \<Rightarrow> nat" where
  "wait_work s = (\<Sum>t\<leftarrow>sys_threads s. wait_rank (idle s) (thread_pc t))"

definition refresh_rel :: "(refresh_system \<times> refresh_system) set" where
  "refresh_rel = measures [pending_threads, owner_work, wait_work]"

definition all_finished :: "refresh_system \<Rightarrow> bool" where
  "all_finished s \<longleftrightarrow> (\<forall>t \<in> set (sys_threads s). thread_pc t = Finished)"

section \<open>How the measure moves\<close>

lemma nat_sum_move:
  fixes f :: "refresh_pc \<Rightarrow> nat"
  assumes "at_pc s i p0" and "sys_threads s' = sys_threads s"
  shows "(\<Sum>t\<leftarrow>sys_threads (set_pc i p s'). f (thread_pc t)) + f p0
     = (\<Sum>t\<leftarrow>sys_threads s. f (thread_pc t)) + f p"
proof -
  have i: "i < length (sys_threads s)" using assms by (simp add: at_pc_def)
  obtain R where
    R: "(\<Sum>t\<leftarrow>sys_threads s. f (thread_pc t)) = f (thread_pc (sys_threads s ! i)) + R"
      "\<And>t. (\<Sum>t\<leftarrow>(sys_threads s)[i := t]. f (thread_pc t)) = f (thread_pc t) + R"
    by (rule sum_list_at [OF i, of "\<lambda>t. f (thread_pc t)"]) blast
  show ?thesis using R assms by (simp add: set_pc_def at_pc_def)
qed

lemma pending_threads_move:
  assumes "at_pc s i p0" and "sys_threads s' = sys_threads s"
  shows "pending_threads (set_pc i p s') + unregistered p0 = pending_threads s + unregistered p"
  using nat_sum_move [OF assms, where f = unregistered] by (simp add: pending_threads_def)

lemma own_rank_no_owner: "owner p = {#} \<Longrightarrow> own_rank q p = 0"
  by (cases p) auto

lemma unregistered_owner: "owner p = {#x#} \<Longrightarrow> unregistered p = 0"
  by (cases p) auto

lemma own_rank_unregistered: "unregistered p = 1 \<Longrightarrow> own_rank q p = 0"
  by (cases p) auto

lemma sum_list_owner_empty:
  "(\<Sum>t\<leftarrow>ts. owner (thread_pc t)) = {#} \<Longrightarrow> (\<Sum>t\<leftarrow>ts. own_rank q (thread_pc t)) = 0"
  by (induction ts) (auto simp: own_rank_no_owner)

lemma owner_work_idle: "core_inv s \<Longrightarrow> idle s \<Longrightarrow> owner_work s = 0"
  using sum_list_owner_empty [of "sys_threads s"] by (simp add: core_inv_def owners_def owner_work_def)

text \<open>There is one owner, so the owner's work is the work of that thread.\<close>

lemma owner_work_owner:
  assumes inv: "core_inv s" and pc: "at_pc s i p" and own: "owner p = {#x#}"
  shows "owner_work s = own_rank (queue_length s) p"
proof -
  let ?f = "\<lambda>t. owner (thread_pc t)" and ?g = "\<lambda>t. own_rank (queue_length s) (thread_pc t)"
  let ?a = "take i (sys_threads s)" and ?b = "drop (Suc i) (sys_threads s)"
  have i: "i < length (sys_threads s)" and p: "thread_pc (sys_threads s ! i) = p"
    using pc by (simp_all add: at_pc_def)
  have split: "sys_threads s = ?a @ sys_threads s ! i # ?b" by (rule id_take_nth_drop [OF i])
  have "owners s = sum_list (map ?f (?a @ sys_threads s ! i # ?b))"
    unfolding owners_def by (subst split) (rule refl)
  then have own_eq: "owners s = {#x#} + (sum_list (map ?f ?a) + sum_list (map ?f ?b))"
    using own p by (simp add: ac_simps)
  obtain ph k where x: "x = (ph, k)" by (cases x)
  have "owners s = {#x#}"
    using owner_coord [OF inv pc] own inv x by (simp add: core_inv_def)
  with own_eq have "sum_list (map ?f ?a) = {#}" "sum_list (map ?f ?b) = {#}" by simp_all
  then have zero: "sum_list (map ?g ?a) = 0" "sum_list (map ?g ?b) = 0"
    by (simp_all add: sum_list_owner_empty)
  have "owner_work s = sum_list (map ?g (?a @ sys_threads s ! i # ?b))"
    unfolding owner_work_def by (subst split) (rule refl)
  then show ?thesis using zero p by simp
qed

lemma at_pc_set_pc: "at_pc s i p0 \<Longrightarrow> sys_threads s' = sys_threads s \<Longrightarrow> at_pc (set_pc i p s') i p"
  by (simp add: at_pc_def set_pc_def)

lemma refresh_rel_pending: "pending_threads t < pending_threads s \<Longrightarrow> (t, s) \<in> refresh_rel"
  by (simp add: refresh_rel_def)

lemma refresh_rel_owner:
  "pending_threads t = pending_threads s \<Longrightarrow> owner_work t < owner_work s \<Longrightarrow> (t, s) \<in> refresh_rel"
  by (simp add: refresh_rel_def)

lemma refresh_rel_wait:
  "pending_threads t = pending_threads s \<Longrightarrow> owner_work t = owner_work s \<Longrightarrow> wait_work t < wait_work s
   \<Longrightarrow> (t, s) \<in> refresh_rel"
  by (simp add: refresh_rel_def)

text \<open>A step of the owner: its own work goes down.\<close>

lemma owner_step_decreases:
  assumes inv: "core_inv s" "core_inv (set_pc i p s')"
    and pc: "at_pc s i p0" "sys_threads s' = sys_threads s"
    and own: "owner p0 = {#x#}" "owner p = {#y#}"
    and rank: "own_rank (queue_length s') p < own_rank (queue_length s) p0"
  shows "(set_pc i p s', s) \<in> refresh_rel"
proof (rule refresh_rel_owner)
  have "unregistered p0 = 0" "unregistered p = 0"
    using own unregistered_owner by blast+
  then show "pending_threads (set_pc i p s') = pending_threads s"
    using pending_threads_move [OF pc, of p] by simp
  show "owner_work (set_pc i p s') < owner_work s"
    using owner_work_owner [OF inv(1) pc(1) own(1)]
      owner_work_owner [OF inv(2) at_pc_set_pc [OF pc] own(2)] rank by simp
qed

text \<open>A step of a thread that owns nothing and leaves the coordinator alone.\<close>

lemma waiter_step_decreases:
  assumes pc: "at_pc s i p0" "sys_threads s' = sys_threads s" and "sys_coord s' = sys_coord s"
    and "unregistered p0 = 1" "unregistered p = 1" and "wait_rank (idle s) p < wait_rank (idle s) p0"
  shows "(set_pc i p s', s) \<in> refresh_rel"
proof (rule refresh_rel_wait)
  show "pending_threads (set_pc i p s') = pending_threads s"
    using pending_threads_move [OF pc, of p] assms by simp
  have "own_rank q p0 = 0" "own_rank q p = 0" for q
    using assms(4,5) own_rank_unregistered by blast+
  then show "owner_work (set_pc i p s') = owner_work s"
    using nat_sum_move [OF pc, where f = "own_rank (queue_length s)" and p = p] assms(3)
    by (simp add: owner_work_def)
  show "wait_work (set_pc i p s') < wait_work s"
    using nat_sum_move [OF pc, where f = "wait_rank (idle s)" and p = p] assms(3,6)
    by (simp add: wait_work_def)
qed

lemma register_decreases:
  assumes inv: "core_inv s" and pc: "at_pc s i (AtRegister k)"
    and reg: "register_request rid k (sys_coord s) = (c', r)"
  shows "(set_pc i (after_register k r) (s\<lparr>sys_coord := c', sys_registered := rs\<rparr>), s) \<in> refresh_rel"
proof -
  from inv have np: "\<not> poisoned (sys_coord s)" by (simp add: core_inv_def)
  let ?s' = "s\<lparr>sys_coord := c', sys_registered := rs\<rparr>"
  have N: "pending_threads (set_pc i p ?s') + 1 = pending_threads s + unregistered p" for p
    using pending_threads_move [OF pc, of ?s' p] by simp
  obtain s' where s': "register_state rid k (coord_state (sys_coord s)) = (s', r)"
      "c' = (sys_coord s)\<lparr>coord_state := s'\<rparr>"
    by (rule register_request_clean [OF np reg])
  from s'(1) show ?thesis
  proof (cases rule: register_state_cases)
    case start
    with N [of "Executing k"] show ?thesis by (simp add: refresh_rel_pending)
  next
    case joined
    with N [of Finished] show ?thesis by (simp add: refresh_rel_pending)
  next
    case wait
    with s' pc show ?thesis by (auto intro!: waiter_step_decreases)
  qed
qed

lemma refresh_step_decreases:
  assumes inv: "core_inv s" and st: "refresh_step s t"
  shows "(t, s) \<in> refresh_rel"
proof -
  have inv': "core_inv t" by (rule core_inv_refresh_step [OF inv st])
  from st show ?thesis
  proof (cases rule: refresh_step.cases)
    case (snapshot i)
    then show ?thesis by (auto intro: waiter_step_decreases)
  next
    case (register i k rid c' r)
    with register_decreases [OF inv register(2)] show ?thesis by simp
  next
    case (wake i)
    then have "idle s" by (simp add: wait_until_idle_returns_def)
    with wake show ?thesis by (auto intro: waiter_step_decreases)
  next
    case (executed i k res)
    with inv' show ?thesis
      unfolding executed(1) by (intro owner_step_decreases [OF inv _ executed(2)]) auto
  next
    case (begun i k res c' r)
    obtain a where a: "coord_state (sys_coord s) = Running a" "active_key a = k" "r = Ret ()"
        "c' = (sys_coord s)\<lparr>coord_state := Completing a\<rparr>"
      by (rule begin_completion_owner [OF inv begun(2,3)])
    then have t: "t = set_pc i (AtDrain k res) (s\<lparr>sys_coord := c'\<rparr>)" using begun by simp
    from a inv' show ?thesis
      unfolding t by (intro owner_step_decreases [OF inv _ begun(2)]) auto
  next
    case (drained i k res c' r)
    obtain a where a: "coord_state (sys_coord s) = Completing a" "active_key a = k"
        "r = Ret (request_ids a)" "c' = (sys_coord s)\<lparr>coord_state := Completing (a\<lparr>request_ids := []\<rparr>)\<rparr>"
      by (rule drain_owner [OF inv drained(2,3)])
    then have t: "t = set_pc i (Sending k res (request_ids a)) (s\<lparr>sys_coord := c'\<rparr>)"
      using drained by simp
    from a inv' show ?thesis
      unfolding t by (intro owner_step_decreases [OF inv _ drained(2)]) (auto simp: redo_def)
  next
    case (send_one i k res rid ids)
    with inv' show ?thesis
      unfolding send_one(1) by (intro owner_step_decreases [OF inv _ send_one(2)]) auto
  next
    case (sent_all i k res)
    with inv' show ?thesis
      unfolding sent_all(1) by (intro owner_step_decreases [OF inv _ sent_all(2)]) auto
  next
    case (completed i k res c' r)
    obtain a where a: "coord_state (sys_coord s) = Completing a" "active_key a = k"
        "r = Ret (request_ids a = [])"
        "c' = (if request_ids a = [] then (sys_coord s)\<lparr>coord_state := Idle\<rparr> else sys_coord s)"
      by (rule complete_owner [OF inv completed(2,3)])
    show ?thesis
    proof (cases "request_ids a = []")
      case True
      have "owner_work s = 1"
        using owner_work_owner [OF inv completed(2)] a True by (simp add: redo_def)
      moreover have "owner_work t = 0"
        by (rule owner_work_idle [OF inv']) (use completed a True in simp)
      moreover have "pending_threads t = pending_threads s"
        using pending_threads_move [OF completed(2), of "s\<lparr>sys_coord := c'\<rparr>" Finished] completed a True
        by simp
      ultimately show ?thesis by (simp add: refresh_rel_owner)
    next
      case False
      with a have t: "t = set_pc i (AtDrain k res) (s\<lparr>sys_coord := c'\<rparr>)" using completed by simp
      from a False inv' show ?thesis
        unfolding t by (intro owner_step_decreases [OF inv _ completed(2)]) (auto simp: redo_def)
    qed
  qed
qed

section \<open>Progress\<close>

lemma coord_idle_if_no_owner:
  assumes "core_inv s" and "\<forall>t \<in> set (sys_threads s). owner (thread_pc t) = {#}"
  shows "idle s"
proof -
  have "owners s = {#}" unfolding owners_def using assms(2) by (intro sum_list_all_zero) blast
  with assms(1) show ?thesis by (cases "coord_state (sys_coord s)") (auto simp: core_inv_def)
qed

lemma thread_can_step:
  assumes "i < length (sys_threads s)" and "thread_pc (sys_threads s ! i) = p"
    and "p \<noteq> Waiting" "p \<noteq> Finished" "p \<noteq> Crashed"
  shows "\<exists>t. refresh_step s t"
proof -
  have pc: "at_pc s i p" using assms by (simp add: at_pc_def)
  obtain rid where rid: "rid = thread_id (sys_threads s ! i)" by blast
  show ?thesis
  proof (cases p)
    case (AtRegister k)
    obtain c' r where "register_request rid k (sys_coord s) = (c', r)" by fastforce
    with pc AtRegister rid show ?thesis by (blast intro: refresh_step.register)
  next
    case (AtBegin k res)
    obtain c' r where "begin_completion k (sys_coord s) = (c', r)" by fastforce
    with pc AtBegin show ?thesis by (blast intro: refresh_step.begun)
  next
    case (AtDrain k res)
    obtain c' r where "drain_completing_request_ids k (sys_coord s) = (c', r)" by fastforce
    with pc AtDrain show ?thesis by (blast intro: refresh_step.drained)
  next
    case (AtComplete k res)
    obtain c' r where "complete_request k (sys_coord s) = (c', r)" by fastforce
    with pc AtComplete show ?thesis by (blast intro: refresh_step.completed)
  next
    case (Sending k res ids)
    with pc show ?thesis by (cases ids) (blast intro: refresh_step.send_one refresh_step.sent_all)+
  qed (use pc assms in \<open>blast intro: refresh_step.snapshot refresh_step.executed\<close>)+
qed

lemma refresh_progress:
  assumes inv: "core_inv s" and "\<not> all_finished s"
  shows "\<exists>t. refresh_step s t"
proof (rule ccontr)
  assume stuck: "\<nexists>t. refresh_step s t"
  have pcs: "thread_pc t = Waiting \<or> thread_pc t = Finished" if "t \<in> set (sys_threads s)" for t
    using that thread_can_step [of _ s "thread_pc t"] stuck inv
    unfolding in_set_conv_nth core_inv_def no_crash_def by (metis in_set_conv_nth)
  then have "owner (thread_pc t) = {#}" if "t \<in> set (sys_threads s)" for t using that by force
  then have "idle s" by (intro coord_idle_if_no_owner [OF inv]) blast
  with inv have ready: "wait_until_idle_returns (sys_coord s)"
    by (simp add: wait_until_idle_returns_def core_inv_def)
  from assms(2) pcs obtain t where "t \<in> set (sys_threads s)" "thread_pc t = Waiting"
    by (auto simp: all_finished_def)
  then obtain i where "at_pc s i Waiting" by (auto simp: at_pc_def in_set_conv_nth)
  with ready stuck show False by (blast intro: refresh_step.wake)
qed

interpretation refresh: live_system refresh_init system_step exact_inv refresh_step all_finished refresh_rel
proof
  show "refresh_init s \<Longrightarrow> exact_inv s" for s by (rule exact_inv_init)
  show "exact_inv s \<Longrightarrow> system_step s t \<Longrightarrow> exact_inv t" for s t by (rule exact_inv_step)
  show "refresh_step s t \<Longrightarrow> system_step s t" for s t by (simp add: system_step_def)
  show "wf refresh_rel" by (simp add: refresh_rel_def)
  show "exact_inv s \<Longrightarrow> refresh_step s t \<Longrightarrow> (t, s) \<in> refresh_rel" for s t
    by (simp add: exact_inv_def refresh_step_decreases)
  show "exact_inv s \<Longrightarrow> \<not> all_finished s \<Longrightarrow> \<exists>t. refresh_step s t" for s
    by (simp add: exact_inv_def refresh_progress)
qed

text \<open>When all threads have finished, nothing is outstanding or queued.\<close>

lemma finished_accounted:
  assumes "exact_inv s" and "all_finished s"
  shows "mset (map fst (sys_replies s)) = mset (sys_received s)"
proof -
  have "outstanding s = {#}"
    unfolding outstanding_def using assms(2) by (intro sum_list_all_zero) (simp add: all_finished_def)
  moreover have "idle s"
    using assms by (intro coord_idle_if_no_owner) (auto simp: exact_inv_def all_finished_def)
  ultimately show ?thesis using assms(1) by (simp add: exact_inv_def accounted_def)
qed

lemma received_steps: "refresh_step\<^sup>*\<^sup>* s t \<Longrightarrow> sys_received t = sys_received s"
  by (induction rule: rtranclp_induct) (simp_all add: received_step)

section \<open>Replies come from a refresh the request asked for\<close>

lemma registered_with_mono:
  "registered_with s rid k \<Longrightarrow> set (sys_registered s) \<subseteq> set (sys_registered t) \<Longrightarrow> registered_with t rid k"
  by (auto simp: registered_with_def)

lemma refresh_key_eq_sym: "refresh_key_eq a b \<Longrightarrow> refresh_key_eq b a"
  by (simp add: refresh_key_eq_def refresh_options_eq_def)

text \<open>Pairs served after a step are served before it or come with the moved thread.\<close>

lemma served_move:
  assumes "sys_threads s' = sys_threads s"
  shows "served (set_pc i p s')
     \<subseteq> served s \<union> drained_ids p \<union> queued_ids (coord_state (sys_coord s')) \<union> reply_ids s'"
proof -
  have "set ((sys_threads s)[i := t]) \<subseteq> insert t (set (sys_threads s))" for t
    by (rule set_update_subset_insert)
  then have "(\<Union>t \<in> set (sys_threads (set_pc i p s')). drained_ids (thread_pc t))
      \<subseteq> drained_ids p \<union> (\<Union>t \<in> set (sys_threads s). drained_ids (thread_pc t))"
    using assms by (fastforce simp: set_pc_def)
  then show ?thesis by (auto simp: served_def reply_ids_def)
qed

lemma key_inv_move:
  assumes inv: "key_inv s" and th: "sys_threads s' = sys_threads s"
    and reg: "set (sys_registered s) \<subseteq> set (sys_registered s')"
    and new: "drained_ids p \<subseteq> served s"
      "queued_ids (coord_state (sys_coord s')) \<subseteq> served s \<union> {(rid, k). registered_with s' rid k}"
      "reply_ids s' \<subseteq> served s"
  shows "key_inv (set_pc i p s')"
  unfolding key_inv_def
proof safe
  fix rid k assume "(rid, k) \<in> served (set_pc i p s')"
  with served_move [OF th, of i p] new have "(rid, k) \<in> served s \<or> registered_with s' rid k" by blast
  moreover have "registered_with s' rid k" if "(rid, k) \<in> served s"
    using that inv reg by (auto simp: key_inv_def intro: registered_with_mono)
  ultimately have "registered_with s' rid k" by blast
  then show "registered_with (set_pc i p s') rid k" by (simp add: registered_with_def)
qed

lemma reply_ids_simps [simp]:
  "reply_ids (s\<lparr>sys_coord := c\<rparr>) = reply_ids s"
  "reply_ids (s\<lparr>sys_coord := c, sys_registered := rs\<rparr>) = reply_ids s"
  "reply_ids (s\<lparr>sys_replies := sys_replies s @ [(rid, k, res)]\<rparr>) = insert (rid, k) (reply_ids s)"
  by (auto simp: reply_ids_def)

lemma queued_served: "queued_ids (coord_state (sys_coord s)) \<subseteq> served s"
  by (auto simp: served_def)

lemma replies_served: "reply_ids s \<subseteq> served s"
  by (auto simp: served_def)

lemmas serving = queued_served replies_served

lemma drained_served: "at_pc s i p \<Longrightarrow> drained_ids p \<subseteq> served s"
  using nth_mem [of i "sys_threads s"] by (fastforce simp: served_def at_pc_def)

lemma key_inv_register:
  assumes inv: "key_inv s" and np: "\<not> poisoned (sys_coord s)" and pc: "at_pc s i (AtRegister k)"
    and reg: "register_request rid k (sys_coord s) = (c', r)"
  shows "key_inv (set_pc i (after_register k r)
           (s\<lparr>sys_coord := c', sys_registered := sys_registered s @ registered_by rid k r\<rparr>))"
proof -
  obtain s' where s': "register_state rid k (coord_state (sys_coord s)) = (s', r)"
      "c' = (sys_coord s)\<lparr>coord_state := s'\<rparr>"
    by (rule register_request_clean [OF np reg])
  let ?t = "s\<lparr>sys_coord := c', sys_registered := sys_registered s @ registered_by rid k r\<rparr>"
  have d: "drained_ids (after_register k r) = {}" by (cases "(k, r)" rule: after_register.cases) auto
  from s'(1) have q: "queued_ids s' \<subseteq> served s \<union> {(rid, k). registered_with ?t rid k}"
  proof (cases rule: register_state_cases)
    case start
    then show ?thesis by (auto simp: registered_with_def)
  next
    case joined
    then obtain a where "coord_state (sys_coord s) = Running a \<or> coord_state (sys_coord s) = Completing a"
        "refresh_key_eq (active_key a) k"
        "queued_ids s' = insert (rid, active_key a) (queued_ids (coord_state (sys_coord s)))" by blast
    with queued_served [of s] joined show ?thesis by (auto simp: registered_with_def)
  next
    case wait
    with queued_served [of s] show ?thesis by auto
  qed
  show ?thesis
    by (rule key_inv_move [OF inv]) (use d q s' replies_served [of s] in simp_all)
qed

lemma key_inv_refresh_step:
  assumes core: "core_inv s" and inv: "key_inv s" and st: "refresh_step s t"
  shows "key_inv t"
  using st
proof (cases rule: refresh_step.cases)
  case (register i k rid c' r)
  with core key_inv_register [OF inv _ register(2,4)] show ?thesis by (simp add: core_inv_def)
next
  case (begun i k res c' r)
  obtain a where "coord_state (sys_coord s) = Running a" "active_key a = k" "r = Ret ()"
      "c' = (sys_coord s)\<lparr>coord_state := Completing a\<rparr>"
    by (rule begin_completion_owner [OF core begun(2,3)])
  with serving [of s] show ?thesis
    unfolding begun(1) by (intro key_inv_move [OF inv]) auto
next
  case (drained i k res c' r)
  obtain a where "coord_state (sys_coord s) = Completing a" "active_key a = k"
      "r = Ret (request_ids a)" "c' = (sys_coord s)\<lparr>coord_state := Completing (a\<lparr>request_ids := []\<rparr>)\<rparr>"
    by (rule drain_owner [OF core drained(2,3)])
  with serving [of s] show ?thesis
    unfolding drained(1) by (intro key_inv_move [OF inv]) auto
next
  case (send_one i k res rid ids)
  with serving [of s] drained_served [OF send_one(2)] show ?thesis
    unfolding send_one(1) by (intro key_inv_move [OF inv]) auto
next
  case (completed i k res c' r)
  obtain a where "coord_state (sys_coord s) = Completing a" "active_key a = k"
      "r = Ret (request_ids a = [])"
      "c' = (if request_ids a = [] then (sys_coord s)\<lparr>coord_state := Idle\<rparr> else sys_coord s)"
    by (rule complete_owner [OF core completed(2,3)])
  with serving [of s] show ?thesis
    unfolding completed(1) by (cases "request_ids a = []") (intro key_inv_move [OF inv]; auto)+
next
  case (snapshot i)
  with serving [of s] show ?thesis unfolding snapshot(1) by (intro key_inv_move [OF inv]) auto
next
  case (wake i)
  with serving [of s] show ?thesis unfolding wake(1) by (intro key_inv_move [OF inv]) auto
next
  case (executed i k res)
  with serving [of s] show ?thesis unfolding executed(1) by (intro key_inv_move [OF inv]) auto
next
  case (sent_all i k res)
  with serving [of s] show ?thesis unfolding sent_all(1) by (intro key_inv_move [OF inv]) auto
qed

lemma key_inv_faulty_step:
  assumes core: "core_inv s" and inv: "key_inv s" and st: "faulty_step s t"
  shows "key_inv t"
proof -
  consider "refresh_step s t" | "env_step s t" | "send_panic s t"
    using st by (auto simp: faulty_step_def system_step_def)
  then show ?thesis
  proof cases
    case 1
    then show ?thesis by (rule key_inv_refresh_step [OF core inv])
  next
    case 2
    then show ?thesis
      using inv by cases (auto simp: key_inv_def served_def registered_with_def reply_ids_def)
  next
    case 3
    then show ?thesis
    proof (cases rule: send_panic.cases)
      case (send_panics i k res ids c' r)
      obtain a where "coord_state (sys_coord s) = Completing a" "active_key a = k" "r = Ret ()"
          "c' = (sys_coord s)\<lparr>coord_state := Idle\<rparr>"
        by (rule force_complete_owner [OF core send_panics(2,3)])
      with replies_served [of s] show ?thesis
        unfolding send_panics(1) by (intro key_inv_move [OF inv]) auto
    qed
  qed
qed

interpretation keyed: inv_system refresh_init faulty_step "\<lambda>s. core_inv s \<and> key_inv s"
proof
  show "refresh_init s \<Longrightarrow> core_inv s \<and> key_inv s" for s
    by (auto simp: core_inv_init key_inv_def served_def reply_ids_def refresh_init_def coordinator_default_def)
  show "core_inv s \<and> key_inv s \<Longrightarrow> faulty_step s t \<Longrightarrow> core_inv t \<and> key_inv t" for s t
    by (auto intro: core_inv_faulty_step key_inv_faulty_step)
qed

section \<open>A run of one request\<close>

definition sample_options :: refresh_options where
  "sample_options = \<lparr>search_kind = Some Conda, search_paths = None\<rparr>"

definition sample_key :: refresh_key where
  "sample_key = refresh_key_new sample_options 3"

definition sample_init :: refresh_system where
  "sample_init =
     \<lparr>sys_coord = coordinator_default, sys_generation = 3, sys_threads = [], sys_received = [],
      sys_registered = [], sys_replies = []\<rparr>"

definition sample_sys ::
  "coordinator_state \<Rightarrow> refresh_pc \<Rightarrow> (request_id \<times> refresh_key) list
   \<Rightarrow> (request_id \<times> refresh_key \<times> refresh_reply) list \<Rightarrow> refresh_system" where
  "sample_sys st p regs reps =
     \<lparr>sys_coord = \<lparr>coord_state = st, poisoned = False\<rparr>, sys_generation = 3,
      sys_threads = [\<lparr>thread_id = 7, thread_options = sample_options, thread_pc = p\<rparr>],
      sys_received = [7], sys_registered = regs, sys_replies = reps\<rparr>"

lemma sample_init_init: "refresh_init sample_init"
  by (simp add: sample_init_def refresh_init_def)

lemma sample_arrive: "system_step sample_init (sample_sys Idle AtLoop [] [])"
proof -
  have "env_step sample_init
      (sample_init\<lparr>sys_threads := sys_threads sample_init @
         [\<lparr>thread_id = 7, thread_options = sample_options, thread_pc = AtLoop\<rparr>],
         sys_received := sys_received sample_init @ [7]\<rparr>)"
    by (rule env_step.arrive)
  then show ?thesis
    by (simp add: system_step_def sample_init_def sample_sys_def coordinator_default_def)
qed

lemma sample_arrived: "system_step\<^sup>*\<^sup>* sample_init (sample_sys Idle AtLoop [] [])"
  using sample_arrive by (rule r_into_rtranclp)

lemma sample_set_pc: "set_pc 0 p (sample_sys st q regs reps) = sample_sys st p regs reps"
  by (simp add: sample_sys_def set_pc_def)

lemma sample_at_pc: "at_pc (sample_sys st p regs reps) 0 p"
  by (simp add: sample_sys_def at_pc_def)

lemma sample_sys_sel:
  "sys_coord (sample_sys st p regs reps) = \<lparr>coord_state = st, poisoned = False\<rparr>"
  "(sample_sys st p regs reps)\<lparr>sys_coord := \<lparr>coord_state = st', poisoned = False\<rparr>\<rparr> = sample_sys st' p regs reps"
  "(sample_sys st p regs reps)\<lparr>sys_coord := \<lparr>coord_state = st', poisoned = False\<rparr>, sys_registered := rs\<rparr>
     = sample_sys st' p rs reps"
  "(sample_sys st p regs reps)\<lparr>sys_registered := rs\<rparr> = sample_sys st p rs reps"
  "(sample_sys st p regs reps)\<lparr>sys_replies := rp\<rparr> = sample_sys st p regs rp"
  "sys_registered (sample_sys st p regs reps) = regs"
  "sys_replies (sample_sys st p regs reps) = reps"
  "sys_received (sample_sys st p regs reps) = [7]"
  "sys_generation (sample_sys st p regs reps) = 3"
  "thread_id (sys_threads (sample_sys st p regs reps) ! 0) = 7"
  "thread_options (sys_threads (sample_sys st p regs reps) ! 0) = sample_options"
  by (simp_all add: sample_sys_def)

abbreviation sample_active :: "request_id list \<Rightarrow> active_refresh" where
  "sample_active ids \<equiv> \<lparr>active_key = sample_key, request_ids = ids\<rparr>"

lemma sample_run:
  "system_step\<^sup>*\<^sup>* sample_init
     (sample_sys (Completing (sample_active [])) (Sending sample_key (ReplyOk 12 1) [])
        [(7, sample_key)] [(7, sample_key, ReplyOk 12 1)])"
proof -
  note sel = sample_set_pc sample_sys_sel
  let ?r = "ReplyOk 12 1" and ?k = "[(7, sample_key)]"
  have "refresh_step (sample_sys Idle AtLoop [] []) (sample_sys Idle (AtRegister sample_key) [] [])"
    using refresh_step.snapshot [OF sample_at_pc, of Idle "[]" "[]"]
    by (simp add: sel sample_key_def del: One_nat_def)
  moreover have "refresh_step (sample_sys Idle (AtRegister sample_key) [] [])
      (sample_sys (Running (sample_active [7])) (Executing sample_key) ?k [])"
    using refresh_step.register [OF sample_at_pc refl, of Idle sample_key "[]" "[]"]
    by (simp add: sel register_request_def with_lock_def)
  moreover have "refresh_step (sample_sys (Running (sample_active [7])) (Executing sample_key) ?k [])
      (sample_sys (Running (sample_active [7])) (AtBegin sample_key ?r) ?k [])"
    using refresh_step.executed [OF sample_at_pc, of "Running (sample_active [7])" sample_key ?k "[]" ?r]
    by (simp add: sel)
  moreover have "refresh_step (sample_sys (Running (sample_active [7])) (AtBegin sample_key ?r) ?k [])
      (sample_sys (Completing (sample_active [7])) (AtDrain sample_key ?r) ?k [])"
    using refresh_step.begun [OF sample_at_pc, of sample_key "Running (sample_active [7])" ?r ?k "[]"]
    by (simp add: sel begin_completion_def with_lock_def)
  moreover have "refresh_step (sample_sys (Completing (sample_active [7])) (AtDrain sample_key ?r) ?k [])
      (sample_sys (Completing (sample_active [])) (Sending sample_key ?r [7]) ?k [])"
    using refresh_step.drained [OF sample_at_pc, of sample_key "Completing (sample_active [7])" ?r ?k "[]"]
    by (simp add: sel drain_completing_request_ids_def with_lock_def)
  moreover have "refresh_step (sample_sys (Completing (sample_active [])) (Sending sample_key ?r [7]) ?k [])
      (sample_sys (Completing (sample_active [])) (Sending sample_key ?r []) ?k [(7, sample_key, ?r)])"
    using refresh_step.send_one [OF sample_at_pc, of "Completing (sample_active [])" sample_key ?r 7 "[]" ?k "[]"]
    by (simp add: sel)
  ultimately have "refresh_step\<^sup>*\<^sup>* (sample_sys Idle AtLoop [] [])
      (sample_sys (Completing (sample_active [])) (Sending sample_key ?r []) ?k [(7, sample_key, ?r)])"
    by (meson converse_rtranclp_into_rtranclp r_into_rtranclp)
  then have "system_step\<^sup>*\<^sup>* (sample_sys Idle AtLoop [] [])
      (sample_sys (Completing (sample_active [])) (Sending sample_key ?r []) ?k [(7, sample_key, ?r)])"
    by (rule refresh.prog_steps)
  with sample_arrive show ?thesis by (rule converse_rtranclp_into_rtranclp)
qed

lemma faulty_steps: "system_step\<^sup>*\<^sup>* s t \<Longrightarrow> faulty_step\<^sup>*\<^sup>* s t"
  by (rule rtranclp_mono [THEN predicate2D]) (auto simp: faulty_step_def)

section \<open>Properties\<close>

text \<open>C1: From every state the server can reach, the spawned refresh threads can run to
  completion, and then the replies sent are exactly one per received request.\<close>

theorem refresh_all_answered:
  assumes "refresh_init s0" and "system_step\<^sup>*\<^sup>* s0 s"
  shows "\<exists>t. refresh_step\<^sup>*\<^sup>* s t \<and> all_finished t
     \<and> mset (map fst (sys_replies t)) = mset (sys_received s)"
proof -
  have inv: "exact_inv s" by (rule refresh.inv_reachable [OF assms])
  then obtain t where t: "refresh_step\<^sup>*\<^sup>* s t" "all_finished t" using refresh.finishes by blast
  have "exact_inv t" by (rule refresh.inv_steps [OF refresh.prog_steps [OF t(1)] inv])
  with t show ?thesis using finished_accounted received_steps by metis
qed

theorem refresh_all_answered_witness:
  "\<exists>t. refresh_step\<^sup>*\<^sup>* (sample_sys Idle AtLoop [] []) t \<and> all_finished t
     \<and> mset (map fst (sys_replies t)) = {#7#}"
  using refresh_all_answered [OF sample_init_init sample_arrived]
  by (simp add: sample_sys_sel)

text \<open>C2: The refresh threads never run for ever: without new requests, every sequence of their
  steps from a reachable state stops, whatever the interleaving.\<close>

theorem refresh_terminates:
  assumes "refresh_init s0" and "system_step\<^sup>*\<^sup>* s0 (f 0)"
  shows "\<exists>n. \<not> refresh_step (f n) (f (Suc n))"
  using refresh.inv_reachable [OF assms] by (rule refresh.no_infinite_run)

theorem refresh_terminates_witness:
  "\<exists>n::nat. \<not> refresh_step (sample_sys Idle (if n = 0 then AtLoop else AtRegister sample_key) [] [])
        (sample_sys Idle (AtRegister sample_key) [] [])"
  using refresh_terminates [OF sample_init_init,
      of "\<lambda>n. sample_sys Idle (if n = 0 then AtLoop else AtRegister sample_key) [] []"] sample_arrived
  by simp

text \<open>C3: Even when writing replies can panic, no reachable state has a poisoned coordinator or
  a thread that died in one of the coordinator's panics, and at most one thread at a time owns
  a refresh.\<close>

theorem refresh_coordinator_safe:
  assumes "refresh_init s0" and "faulty_step\<^sup>*\<^sup>* s0 s"
  shows "\<not> poisoned (sys_coord s) \<and> no_crash s \<and> size (owners s) \<le> 1"
proof -
  have "core_inv s" using faulty.inv_reachable [OF assms] by (simp add: safe_inv_def)
  then show ?thesis by (cases "coord_state (sys_coord s)") (auto simp: core_inv_def)
qed

theorem refresh_coordinator_safe_witness:
  "\<not> poisoned (sys_coord (sample_sys (Completing (sample_active [])) (Sending sample_key (ReplyOk 12 1) [])
        [(7, sample_key)] [(7, sample_key, ReplyOk 12 1)]))"
  using refresh_coordinator_safe [OF sample_init_init faulty_steps [OF sample_run]] by simp

text \<open>C4: No request is answered more often than it was received, even when writing a reply
  can panic.\<close>

theorem refresh_at_most_once:
  assumes "refresh_init s0" and "faulty_step\<^sup>*\<^sup>* s0 s"
  shows "mset (map fst (sys_replies s)) \<subseteq># mset (sys_received s)"
proof -
  have "accounted s \<subseteq># mset (sys_received s)"
    using faulty.inv_reachable [OF assms] by (simp add: safe_inv_def)
  moreover have "mset (map fst (sys_replies s)) \<subseteq># accounted s" by (simp add: accounted_def)
  ultimately show ?thesis by (rule subset_mset.order_trans [rotated])
qed

theorem refresh_at_most_once_witness:
  "mset (map fst (sys_replies (sample_sys (Completing (sample_active [])) (Sending sample_key (ReplyOk 12 1) [])
        [(7, sample_key)] [(7, sample_key, ReplyOk 12 1)]))) \<subseteq># {#7#}"
  using refresh_at_most_once [OF sample_init_init faulty_steps [OF sample_run]]
  by (simp add: sample_sys_sel)

text \<open>C5: Every reply comes from a refresh whose options and configuration generation equal
  those under which the request registered.\<close>

theorem refresh_reply_key:
  assumes "refresh_init s0" and "faulty_step\<^sup>*\<^sup>* s0 s" and "(rid, k, res) \<in> set (sys_replies s)"
  shows "\<exists>k'. (rid, k') \<in> set (sys_registered s) \<and> refresh_key_eq k k'"
proof -
  have "key_inv s" using keyed.inv_reachable [OF assms(1,2)] by simp
  moreover have "(rid, k) \<in> served s" using assms(3) by (force simp: served_def reply_ids_def)
  ultimately show ?thesis by (auto simp: key_inv_def registered_with_def)
qed

theorem refresh_reply_key_witness:
  "\<exists>k'. (7, k') \<in> set [(7, sample_key)] \<and> refresh_key_eq sample_key k'"
  using refresh_reply_key [OF sample_init_init faulty_steps [OF sample_run], of 7 sample_key "ReplyOk 12 1"]
  by (simp add: sample_sys_sel)

text \<open>C6: After a panic while writing a reply, as after any other event, the threads that are
  left are not stuck: some thread can step until all have finished.\<close>

theorem refresh_never_stuck:
  assumes "refresh_init s0" and "faulty_step\<^sup>*\<^sup>* s0 s" and "\<not> all_finished s"
  shows "\<exists>t. refresh_step s t"
  using faulty.inv_reachable [OF assms(1,2)] assms(3) by (simp add: safe_inv_def refresh_progress)

theorem refresh_never_stuck_witness:
  "\<exists>t. refresh_step (sample_sys (Completing (sample_active [])) (Sending sample_key (ReplyOk 12 1) [])
        [(7, sample_key)] [(7, sample_key, ReplyOk 12 1)]) t"
  using refresh_never_stuck [OF sample_init_init faulty_steps [OF sample_run]]
  by (simp add: all_finished_def sample_sys_def)

text \<open>The recovery that the safety guard promises when \<open>begin_completion\<close> panics does
  not happen: the panic poisons the mutex, so \<open>force_complete_request\<close> panics in turn and
  leaves the state as it was.\<close>

theorem begin_completion_panic_poisons:
  assumes "begin_completion key c = (c', Panic m)"
  shows "force_complete_request key' c' = (c', Panic ''refresh coordinator mutex poisoned'')"
proof -
  from assms have "poisoned c'"
    by (auto simp: begin_completion_def with_lock_def split: if_splits outcome.splits prod.splits)
  then show ?thesis by (simp add: force_complete_request_def with_lock_def)
qed

theorem begin_completion_panic_poisons_witness:
  "force_complete_request sample_key \<lparr>coord_state = Idle, poisoned = True\<rparr>
     = (\<lparr>coord_state = Idle, poisoned = True\<rparr>, Panic ''refresh coordinator mutex poisoned'')"
proof -
  have "begin_completion sample_key coordinator_default
      = (\<lparr>coord_state = Idle, poisoned = True\<rparr>,
         Panic ''attempted to finish refresh while coordinator was idle'')"
    by (simp add: begin_completion_def with_lock_def coordinator_default_def)
  then show ?thesis by (rule begin_completion_panic_poisons)
qed

end
