(* ===== verification/Glob.thy ===== *)
theory Glob
  imports Unix_Path
begin

text \<open>
  Glob patterns, \<open>pet-fs/src/glob.rs\<close>: brace expansion with its limit and the expansion of
  patterns to paths. Matching a pattern against the file system is the \<open>glob\<close> crate and an
  argument of the definitions that use it: for a pattern it returns \<open>None\<close> on a
  \<open>PatternError\<close> and otherwise the entries, \<open>None\<close> for an unreadable one.
\<close>

section \<open>The code\<close>

type_synonym glob_matcher = "string \<Rightarrow> path option list option"

definition is_glob_char :: "char \<Rightarrow> bool" where
  "is_glob_char c \<longleftrightarrow> c \<in> set ''*?[]''"

definition max_brace_expansions :: nat where
  "max_brace_expansions = 1024"

text \<open>
  The first opening brace and the first closing brace after it: the text before, between and
  after them.
\<close>

definition brace_group :: "string \<Rightarrow> (string \<times> string \<times> string) option" where
  "brace_group p =
     (case str_find ''{'' p of
        None \<Rightarrow> None
      | Some open_at \<Rightarrow>
          (case str_find ''}'' (drop open_at p) of
             None \<Rightarrow> None
           | Some close_off \<Rightarrow>
               Some (take open_at p, take (close_off - 1) (drop (open_at + 1) p),
                     drop (open_at + close_off + 1) p)))"

lemma brace_group_SomeD:
  assumes "brace_group p = Some (pre, alts, suf)"
  shows "p = pre @ CHR ''{'' # alts @ CHR ''}'' # suf \<and> CHR ''{'' \<notin> set pre \<and> CHR ''}'' \<notin> set alts"
proof -
  from assms obtain i j where
    i: "str_find ''{'' p = Some i" and j: "str_find ''}'' (drop i p) = Some j"
    and r: "pre = take i p" "alts = take (j - 1) (drop (i + 1) p)" "suf = drop (i + j + 1) p"
    by (auto simp: brace_group_def split: option.splits)
  from i obtain us vs where p: "p = us @ CHR ''{'' # vs" "CHR ''{'' \<notin> set us" "i = length us"
    by (rule str_find_charE)
  from j p have "str_find ''}'' (CHR ''{'' # vs) = Some j" by simp
  then obtain ws xs where v: "CHR ''{'' # vs = ws @ CHR ''}'' # xs" "CHR ''}'' \<notin> set ws" "j = length ws"
    by (rule str_find_charE)
  then obtain ws' where "ws = CHR ''{'' # ws'" by (cases ws) auto
  with v p r show ?thesis by auto
qed

lemma brace_group_eq [simp]:
  assumes "CHR ''{'' \<notin> set pre" "CHR ''}'' \<notin> set alts"
  shows "brace_group (pre @ CHR ''{'' # alts @ CHR ''}'' # suf) = Some (pre, alts, suf)"
proof -
  have "str_find ''}'' ((CHR ''{'' # alts) @ CHR ''}'' # suf) = Some (length (CHR ''{'' # alts))"
    by (rule str_find_char) (use assms in auto)
  with assms show ?thesis by (simp add: brace_group_def)
qed

lemma brace_group_no_open [simp]: "CHR ''{'' \<notin> set p \<Longrightarrow> brace_group p = None"
  by (simp add: brace_group_def str_find_char_None [THEN iffD2])

text \<open>The loop of \<open>has_brace_pattern\<close> goes on after a group that has no comma.\<close>

function has_brace_pattern :: "string \<Rightarrow> bool" where
  "has_brace_pattern p =
     (case brace_group p of
        None \<Rightarrow> False
      | Some (pre, alts, suf) \<Rightarrow> CHR '','' \<in> set alts \<or> has_brace_pattern suf)"
  by auto
termination
  by (relation "measure length") (auto dest!: brace_group_SomeD)

declare has_brace_pattern.simps [simp del]

definition is_glob_pattern :: "string \<Rightarrow> bool" where
  "is_glob_pattern p \<longleftrightarrow> list_ex is_glob_char p \<or> has_brace_pattern p"

function expand_braces_inner :: "string \<Rightarrow> string list \<Rightarrow> string list" where
  "expand_braces_inner p results =
     (if max_brace_expansions \<le> length results then results
      else case brace_group p of
             None \<Rightarrow> results @ [p]
           | Some (pre, alts, suf) \<Rightarrow>
               fold (\<lambda>alt acc. if max_brace_expansions \<le> length acc then acc
                               else expand_braces_inner (pre @ alt @ suf) acc)
                 (split_on (CHR '','') alts) results)"
  by auto

text \<open>Each round removes a closing brace.\<close>

lemma brace_group_closes:
  assumes "brace_group p = Some (pre, alts, suf)" "alt \<in> set (split_on (CHR '','') alts)"
  shows "count_list (pre @ alt @ suf) (CHR ''}'') < count_list p (CHR ''}'')"
proof -
  from assms(1) have p: "p = pre @ CHR ''{'' # alts @ CHR ''}'' # suf" "CHR ''}'' \<notin> set alts"
    by (auto dest: brace_group_SomeD)
  have "count_list alt (CHR ''}'') = 0" using p split_on_part_subset [OF assms(2)] by (auto simp: count_list_0_iff)
  with p show ?thesis by simp
qed

termination expand_braces_inner
  by (relation "measure (\<lambda>(p, _). count_list p (CHR ''}''))") (auto dest: brace_group_closes)

declare expand_braces_inner.simps [simp del]

definition expand_braces :: "string \<Rightarrow> string list" where
  "expand_braces p = expand_braces_inner p []"

definition glob_segments :: "string \<Rightarrow> string list" where
  "glob_segments p = concat (map (split_on (CHR 0x5C)) (split_on (CHR ''/'') p))"

definition is_recursive_glob_pattern :: "string \<Rightarrow> bool" where
  "is_recursive_glob_pattern p \<longleftrightarrow>
     list_ex (\<lambda>q. list_ex (\<lambda>seg. seg = ''**'') (glob_segments q)) (expand_braces p)"

definition glob_results :: "path option list option \<Rightarrow> path list" where
  "glob_results r = (case r of None \<Rightarrow> [] | Some es \<Rightarrow> List.map_filter id es)"

definition expand_glob_pattern :: "glob_matcher \<Rightarrow> string \<Rightarrow> path list" where
  "expand_glob_pattern glob p =
     (if \<not> is_glob_pattern p then [p]
      else concat (map (\<lambda>q. if \<not> list_ex is_glob_char q then [q] else glob_results (glob q))
                       (expand_braces p)))"

definition expand_glob_patterns :: "glob_matcher \<Rightarrow> path list \<Rightarrow> path list" where
  "expand_glob_patterns glob ps = concat (map (expand_glob_pattern glob) ps)"

section \<open>Brace expansion without the limit\<close>

function brace_words :: "string \<Rightarrow> string list" where
  "brace_words p =
     (case brace_group p of
        None \<Rightarrow> [p]
      | Some (pre, alts, suf) \<Rightarrow>
          concat (map (\<lambda>alt. brace_words (pre @ alt @ suf)) (split_on (CHR '','') alts)))"
  by auto
termination
  by (relation "measure (\<lambda>p. count_list p (CHR ''}''))") (auto dest: brace_group_closes)

declare brace_words.simps [simp del]

lemma fold_capped:
  assumes "\<And>x acc. x \<in> set xs \<Longrightarrow> length acc \<le> m \<Longrightarrow> f x acc = take m (acc @ g x)"
    and "length acc \<le> m"
  shows "fold (\<lambda>x acc. if m \<le> length acc then acc else f x acc) xs acc = take m (acc @ concat (map g xs))"
  using assms
proof (induction xs arbitrary: acc)
  case Nil
  then show ?case by simp
next
  case (Cons x xs)
  show ?case
  proof (cases "length acc = m")
    case True
    have "fold (\<lambda>x acc. if m \<le> length acc then acc else f x acc) xs acc = acc"
      using True by (induction xs) auto
    with True show ?thesis by simp
  next
    case False
    with Cons.prems have len: "length acc < m" and fx: "f x acc = take m (acc @ g x)" by auto
    have "fold (\<lambda>x acc. if m \<le> length acc then acc else f x acc) xs (f x acc) =
        take m (take m (acc @ g x) @ concat (map g xs))"
      unfolding fx by (rule Cons.IH) (use Cons.prems in auto)
    also have "\<dots> = take m (acc @ concat (map g (x # xs)))"
      using len by (cases "m \<le> length (acc @ g x)") (auto simp: min_def)
    finally show ?thesis using len by simp
  qed
qed

lemma expand_braces_inner_words:
  "length acc \<le> max_brace_expansions \<Longrightarrow>
   expand_braces_inner p acc = take max_brace_expansions (acc @ brace_words p)"
proof (induction p arbitrary: acc rule: brace_words.induct)
  case (1 p)
  show ?case
  proof (cases "brace_group p")
    case None
    with 1 show ?thesis
      by (auto simp: expand_braces_inner.simps [of p] brace_words.simps [of p])
  next
    case (Some g)
    obtain pre alts suf where g: "g = (pre, alts, suf)" by (cases g)
    have "fold (\<lambda>alt acc. if max_brace_expansions \<le> length acc then acc
                          else expand_braces_inner (pre @ alt @ suf) acc)
            (split_on (CHR '','') alts) acc =
        take max_brace_expansions
          (acc @ concat (map (\<lambda>alt. brace_words (pre @ alt @ suf)) (split_on (CHR '','') alts)))"
      by (rule fold_capped) (use 1 Some g in auto)
    with Some g 1(2) show ?thesis
      by (auto simp: expand_braces_inner.simps [of p] brace_words.simps [of p])
  qed
qed

lemma expand_braces_words: "expand_braces p = take max_brace_expansions (brace_words p)"
  by (simp add: expand_braces_def expand_braces_inner_words)

lemma brace_words_ne: "brace_words p \<noteq> []"
proof (induction p rule: brace_words.induct)
  case (1 p)
  show ?case
  proof (cases "brace_group p")
    case (Some g)
    obtain pre alts suf where g: "g = (pre, alts, suf)" by (cases g)
    obtain a as where as: "split_on (CHR '','') alts = a # as"
      by (cases "split_on (CHR '','') alts") auto
    with 1 Some g have "brace_words (pre @ a @ suf) \<noteq> []" by auto
    with Some g as show ?thesis by (simp add: brace_words.simps [of p])
  qed (simp add: brace_words.simps [of p])
qed

lemma brace_words_complete: "q \<in> set (brace_words p) \<Longrightarrow> brace_group q = None"
proof (induction p rule: brace_words.induct)
  case (1 p)
  then show ?case
    by (cases "brace_group p") (auto simp: brace_words.simps [of p])
qed

section \<open>What a pattern of literals and groups expands to\<close>

datatype brace_piece = Lit string | Group "string list"

fun piece_text :: "brace_piece \<Rightarrow> string" where
  "piece_text (Lit s) = s"
| "piece_text (Group as) = CHR ''{'' # join_with (CHR '','') as @ ''}''"

fun piece_ok :: "brace_piece \<Rightarrow> bool" where
  "piece_ok (Lit s) \<longleftrightarrow> CHR ''{'' \<notin> set s"
| "piece_ok (Group as) \<longleftrightarrow>
     as \<noteq> [] \<and> list_all (\<lambda>a. CHR ''{'' \<notin> set a \<and> CHR ''}'' \<notin> set a \<and> CHR '','' \<notin> set a) as"

definition pattern_text :: "brace_piece list \<Rightarrow> string" where
  "pattern_text ps = concat (map piece_text ps)"

text \<open>All choices of one alternative per group, the leftmost group varying slowest.\<close>

fun choices :: "brace_piece list \<Rightarrow> string list" where
  "choices [] = [[]]"
| "choices (Lit s # ps) = map ((@) s) (choices ps)"
| "choices (Group as # ps) = concat (map (\<lambda>a. map ((@) a) (choices ps)) as)"

lemma set_join_with_subset:
  "x \<in> set (join_with c ss) \<Longrightarrow> x = c \<or> (\<exists>s \<in> set ss. x \<in> set s)"
  by (induction c ss rule: join_with.induct) auto

lemma brace_words_pieces:
  "list_all piece_ok ps \<Longrightarrow> CHR ''{'' \<notin> set pre \<Longrightarrow>
   brace_words (pre @ pattern_text ps) = map ((@) pre) (choices ps)"
proof (induction ps arbitrary: pre)
  case Nil
  then show ?case by (simp add: pattern_text_def brace_words.simps [of pre])
next
  case (Cons q ps)
  show ?case
  proof (cases q)
    case (Lit s)
    with Cons.prems Cons.IH [of "pre @ s"] show ?thesis by (simp add: pattern_text_def)
  next
    case (Group as)
    with Cons.prems have ok: "as \<noteq> []" "\<And>a. a \<in> set as \<Longrightarrow> CHR '','' \<notin> set a"
      "\<And>a. a \<in> set as \<Longrightarrow> CHR ''{'' \<notin> set a" "CHR ''}'' \<notin> set (join_with (CHR '','') as)"
      by (auto simp: list_all_iff dest: set_join_with_subset)
    have "brace_words (pre @ pattern_text (q # ps)) =
        concat (map (\<lambda>a. brace_words (pre @ a @ pattern_text ps)) as)"
      using Group ok Cons.prems
      by (simp add: pattern_text_def brace_words.simps [of "pre @ CHR ''{'' # _"] split_join)
    also have "\<dots> = concat (map (\<lambda>a. map (\<lambda>w. pre @ a @ w) (choices ps)) as)"
      using Cons.IH [of "pre @ _"] Cons.prems ok by (intro arg_cong [of _ _ concat] map_cong) auto
    finally show ?thesis using Group by (simp add: map_concat comp_def)
  qed
qed

text \<open>C7: Brace expansion is the product of the alternatives: a pattern made of literal pieces
  and brace groups expands to the choices of one alternative per group, in order with the
  leftmost group varying slowest, cut off after 1024 patterns.\<close>

theorem expand_braces_choices:
  assumes "list_all piece_ok ps"
  shows "expand_braces (pattern_text ps) = take 1024 (choices ps)"
  using brace_words_pieces [OF assms, of "[]"]
  by (simp add: expand_braces_words max_brace_expansions_def map_idI)

theorem expand_braces_choices_witness:
  "expand_braces ''{a,b}/py{,.exe}'' = [''a/py'', ''a/py.exe'', ''b/py'', ''b/py.exe'']"
  using expand_braces_choices [of "[Group [''a'', ''b''], Lit ''/py'', Group [[], ''.exe'']]"]
  by (simp add: pattern_text_def)

text \<open>C8: On every pattern brace expansion returns between one and 1024 patterns, none of which
  still has a complete brace group, and a pattern that has none is returned as it is.\<close>

theorem expand_braces_total:
  "expand_braces p \<noteq> [] \<and> length (expand_braces p) \<le> 1024 \<and>
   (\<forall>q. q \<in> set (expand_braces p) \<longrightarrow> brace_group q = None) \<and>
   (brace_group p = None \<longrightarrow> expand_braces p = [p])"
proof (intro conjI allI impI)
  show "expand_braces p \<noteq> []"
    using brace_words_ne [of p] by (simp add: expand_braces_words max_brace_expansions_def)
  show "length (expand_braces p) \<le> 1024"
    by (simp add: expand_braces_words max_brace_expansions_def)
  show "brace_group q = None" if "q \<in> set (expand_braces p)" for q
    using that unfolding expand_braces_words by (blast intro: brace_words_complete dest: in_set_takeD)
  show "expand_braces p = [p]" if "brace_group p = None"
    using that by (simp add: expand_braces_words max_brace_expansions_def brace_words.simps [of p])
qed

theorem expand_braces_total_witness:
  "brace_group ''a}b{c'' = None \<and> expand_braces ''a}b{c'' = [''a}b{c''] \<and>
   brace_group ''x'' = None"
  using expand_braces_total [of "''a}b{c''"] by (simp add: brace_group_def)

end
