(* ===== verification/Configure.thy ===== *)
theory Configure
  imports Refresh_Coordinator Glob
begin

text \<open>
  The \<open>configure\<close> request of \<open>pet/src/jsonrpc.rs\<close>: the configuration state with its
  generation, \<open>apply_configure_options\<close> with its three phases (prepare, configure the
  locators, publish) and its rollback, and the configuration a refresh derives from it
  (\<open>build_refresh_config\<close>, \<open>canonicalize_refresh_options\<close>).

  What a locator does in \<open>configure\<close> is a parameter \<open>cfg\<close> of the request, with
  panics as results; the locale \<open>configurable\<close> states what the request relies on. The
  locators of the program that keep configured inputs are modelled below and interpret it.
\<close>

section \<open>Configuration\<close>

record configuration =
  workspace_directories :: "path list option"
  executables :: "path list option"
  conda_executable :: "path option"
  pipenv_executable :: "path option"
  poetry_executable :: "path option"
  environment_directories :: "path list option"
  cache_directory :: "path option"

definition configuration_default :: configuration where
  "configuration_default =
     \<lparr>workspace_directories = None, executables = None, conda_executable = None,
      pipenv_executable = None, poetry_executable = None, environment_directories = None,
      cache_directory = None\<rparr>"

record configuration_state =
  generation :: generation
  config :: configuration

record configure_options =
  opt_conda_executable :: "path option"
  opt_pipenv_executable :: "path option"
  opt_poetry_executable :: "path option"
  opt_cache_directory :: "path option"

text \<open>\<open>MISSING_ENVS_AVAILABLE\<close> and \<open>MISSING_ENVS_COMPLETED\<close>.\<close>

definition missing_envs_available :: "64 word" where
  "missing_envs_available = - 1"

definition missing_envs_completed :: "64 word" where
  "missing_envs_completed = - 2"

section \<open>Locks\<close>

text \<open>A value behind a \<open>Mutex\<close> or \<open>RwLock\<close>; a lock whose holder panicked is poisoned.\<close>

record 'a lock =
  guarded :: 'a
  lock_poisoned :: bool

definition new_lock :: "'a \<Rightarrow> 'a lock" where
  "new_lock v = \<lparr>guarded = v, lock_poisoned = False\<rparr>"

definition update_lock :: "string \<Rightarrow> ('a \<Rightarrow> 'a) \<Rightarrow> 'a lock \<Rightarrow> 'a lock \<times> unit outcome" where
  "update_lock msg f l =
     (if lock_poisoned l then (l, Panic msg) else (l\<lparr>guarded := f (guarded l)\<rparr>, Ret ()))"

section \<open>The interpreter cache directory\<close>

text \<open>\<open>CacheImpl::set_cache_directory\<close>: the first directory stays.\<close>

definition set_cache_directory :: "path \<Rightarrow> path option lock \<Rightarrow> path option lock \<times> unit outcome" where
  "set_cache_directory d =
     update_lock ''cache_dir mutex poisoned''
       (\<lambda>v. case v of Some old \<Rightarrow> Some old | None \<Rightarrow> Some d)"

section \<open>Applying the options\<close>

record 'l server =
  srv_state :: configuration_state
  srv_locators :: "'l list"
  srv_missing :: "64 word"
  srv_cache :: "path option lock"

text \<open>The two error messages, with the generation and the panic message they show.\<close>

datatype configure_error =
    LocatorConfigurationFailed generation string
  | CacheDirectoryConfigurationFailed generation string

datatype configure_result = ConfigureOk | ConfigureErr configure_error | ProcessAbort

definition next_configuration ::
  "configuration \<Rightarrow> configure_options \<Rightarrow> path list option \<Rightarrow> path list option \<Rightarrow> configuration" where
  "next_configuration prev opts ws envs =
     (let c = prev\<lparr>workspace_directories := ws, conda_executable := opt_conda_executable opts,
                   environment_directories := envs, pipenv_executable := opt_pipenv_executable opts,
                   poetry_executable := opt_poetry_executable opts\<rparr>
      in case opt_cache_directory opts of
           Some d \<Rightarrow> c\<lparr>cache_directory := Some d\<rparr>
         | None \<Rightarrow> c)"

text \<open>
  The loop over the locators: it stops at the first panic and reports how many locators were
  configured before it.
\<close>

fun configure_loop ::
  "('l \<Rightarrow> configuration \<Rightarrow> 'l \<times> unit outcome) \<Rightarrow> configuration \<Rightarrow> 'l list
   \<Rightarrow> 'l list \<times> (nat \<times> string) option" where
  "configure_loop cfg c [] = ([], None)"
| "configure_loop cfg c (l # ls) =
     (case cfg l c of
        (l', Panic m) \<Rightarrow> (l' # ls, Some (0, m))
      | (l', Ret _) \<Rightarrow>
          (case configure_loop cfg c ls of
             (ls', r) \<Rightarrow> (l' # ls', map_option (\<lambda>(n, m). (Suc n, m)) r)))"

definition rollback_locator_config ::
  "('l \<Rightarrow> configuration \<Rightarrow> 'l \<times> unit outcome) \<Rightarrow> configuration \<Rightarrow> nat \<Rightarrow> 'l list \<Rightarrow> 'l list \<times> bool" where
  "rollback_locator_config cfg prev cnt ls =
     (case configure_loop cfg prev (take cnt ls) of
        (ls', r) \<Rightarrow> (ls' @ drop cnt ls, r \<noteq> None))"

definition failed_configure ::
  "('l \<Rightarrow> configuration \<Rightarrow> 'l \<times> unit outcome) \<Rightarrow> nat \<Rightarrow> configure_error \<Rightarrow> 'l list \<Rightarrow> 'l server
   \<Rightarrow> 'l server \<times> configure_result" where
  "failed_configure cfg cnt msg ls s =
     (case rollback_locator_config cfg (config (srv_state s)) cnt ls of
        (ls', True) \<Rightarrow> (s\<lparr>srv_locators := ls'\<rparr>, ProcessAbort)
      | (ls', False) \<Rightarrow> (s\<lparr>srv_locators := ls'\<rparr>, ConfigureErr msg))"

definition apply_configure_options ::
  "('l \<Rightarrow> configuration \<Rightarrow> 'l \<times> unit outcome) \<Rightarrow> configure_options \<Rightarrow> path list option
   \<Rightarrow> path list option \<Rightarrow> 'l server \<Rightarrow> 'l server \<times> configure_result" where
  "apply_configure_options cfg opts ws envs s =
     (let nxt = next_configuration (config (srv_state s)) opts ws envs;
          gen = generation (srv_state s) + 1
      in case configure_loop cfg nxt (srv_locators s) of
           (ls, Some (n, m)) \<Rightarrow> failed_configure cfg (n + 1) (LocatorConfigurationFailed gen m) ls s
         | (ls, None) \<Rightarrow>
             (case (case opt_cache_directory opts of
                      Some d \<Rightarrow> set_cache_directory d (srv_cache s)
                    | None \<Rightarrow> (srv_cache s, Ret ())) of
                (cc, Panic m) \<Rightarrow> failed_configure cfg (length (srv_locators s)) (CacheDirectoryConfigurationFailed gen m) ls
                    (s\<lparr>srv_cache := cc\<rparr>)
              | (cc, Ret _) \<Rightarrow>
                  (s\<lparr>srv_state := \<lparr>generation = gen, config = nxt\<rparr>, srv_locators := ls,
                     srv_missing := missing_envs_available, srv_cache := cc\<rparr>, ConfigureOk)))"

section \<open>The configuration of a refresh\<close>

datatype search_scope = ScopeGlobal environment_kind | ScopeWorkspace

definition build_refresh_config ::
  "file_system \<Rightarrow> refresh_options \<Rightarrow> configuration \<Rightarrow> configuration \<times> search_scope option" where
  "build_refresh_config fs opts c =
     (case search_paths opts of
        Some ps \<Rightarrow>
          (c\<lparr>workspace_directories := Some (filter (is_dir fs) ps),
             executables := Some (filter (is_file fs) ps)\<rparr>, Some ScopeWorkspace)
      | None \<Rightarrow>
          (case search_kind opts of
             Some k \<Rightarrow> (c, Some (ScopeGlobal k))
           | None \<Rightarrow> (c, None)))"

definition canonicalize_refresh_options :: "glob_matcher \<Rightarrow> refresh_options \<Rightarrow> refresh_options" where
  "canonicalize_refresh_options glob opts =
     (case search_paths opts of
        Some ps \<Rightarrow>
          opts\<lparr>search_paths := Some (sort_dedup (map norm_case (expand_glob_patterns glob ps)))\<rparr>
      | None \<Rightarrow> opts)"

section \<open>The request\<close>

definition expand_configure_directory_patterns ::
  "glob_matcher \<Rightarrow> file_system \<Rightarrow> path list \<Rightarrow> path list" where
  "expand_configure_directory_patterns glob fs ps =
     filter (is_dir fs) (concat (map (expand_glob_pattern glob) ps))"

definition recursive_environment_patterns :: "path list \<Rightarrow> path list" where
  "recursive_environment_patterns ps = filter is_recursive_glob_pattern ps"

datatype configure_reply = ReplyNull | ReplyError int configure_error | NoReply

text \<open>The thread of \<open>handle_configure\<close>, for options that parse.\<close>

definition handle_configure ::
  "glob_matcher \<Rightarrow> file_system \<Rightarrow> ('l \<Rightarrow> configuration \<Rightarrow> 'l \<times> unit outcome) \<Rightarrow> configure_options
   \<Rightarrow> path list option \<Rightarrow> path list option \<Rightarrow> 'l server \<Rightarrow> 'l server \<times> configure_reply" where
  "handle_configure glob fs cfg opts ws_patterns env_patterns s =
     (case apply_configure_options cfg opts
             (map_option (expand_configure_directory_patterns glob fs) ws_patterns)
             (map_option (expand_configure_directory_patterns glob fs) env_patterns) s of
        (s', ConfigureOk) \<Rightarrow> (s', ReplyNull)
      | (s', ConfigureErr e) \<Rightarrow> (s', ReplyError (- 4) e)
      | (s', ProcessAbort) \<Rightarrow> (s', NoReply))"

section \<open>What the locators keep of a configuration\<close>

text \<open>A parsed Hatch workspace: its virtual directories and the names of its environments with
  the prefixes \<open>name.\<close> (\<open>EnvNameMatcher\<close>).\<close>

record workspace_entry =
  virtual_dirs :: "path list"
  matcher :: "(string \<times> string) list"

record hatch_state =
  hatch_generation :: "64 word"
  hatch_workspaces :: "path list"
  hatch_parsed :: "component list \<rightharpoonup> workspace_entry"

datatype configured_locator =
    CondaConfigured "path option lock"
  | UvConfigured "path list lock"
  | PoetryConfigured "path list lock" "path option lock"
  | PipEnvConfigured "path option lock"
  | HatchConfigured "hatch_state lock"
  | NoConfiguration locator_kind

definition hatch_configure :: "configuration \<Rightarrow> hatch_state \<Rightarrow> hatch_state" where
  "hatch_configure c h =
     h\<lparr>hatch_generation := hatch_generation h + 1,
       hatch_workspaces := unwrap_or (workspace_directories c) [], hatch_parsed := Map.empty\<rparr>"

text \<open>
  Poetry takes its second lock while it holds the first: when the second is poisoned, the
  panic poisons the first as well, after the workspaces were replaced.
\<close>

definition poetry_configure ::
  "configuration \<Rightarrow> path list lock \<Rightarrow> path option lock
   \<Rightarrow> (path list lock \<times> path option lock) \<times> unit outcome" where
  "poetry_configure c ws e =
     (case update_lock ''workspace_directories PoisonError''
             (\<lambda>_. unwrap_or (workspace_directories c) []) ws of
        (ws', Panic m) \<Rightarrow> ((ws', e), Panic m)
      | (ws', Ret _) \<Rightarrow>
          (case update_lock ''poetry_executable PoisonError'' (\<lambda>_. poetry_executable c) e of
             (e', Panic m) \<Rightarrow> ((ws'\<lparr>lock_poisoned := True\<rparr>, e'), Panic m)
           | (e', Ret _) \<Rightarrow> ((ws', e'), Ret ())))"

definition conda_configure :: "configuration \<Rightarrow> path option lock \<Rightarrow> path option lock \<times> unit outcome" where
  "conda_configure c e = update_lock ''conda_executable PoisonError'' (\<lambda>_. conda_executable c) e"

definition uv_configure :: "configuration \<Rightarrow> path list lock \<Rightarrow> path list lock \<times> unit outcome" where
  "uv_configure c ws =
     update_lock ''workspace_directories mutex poisoned''
       (\<lambda>_. case workspace_directories c of Some ds \<Rightarrow> [] @ ds | None \<Rightarrow> []) ws"

definition pipenv_configure :: "configuration \<Rightarrow> path option lock \<Rightarrow> path option lock \<times> unit outcome" where
  "pipenv_configure c e = update_lock ''pipenv_executable PoisonError'' (\<lambda>_. pipenv_executable c) e"

text \<open>The \<open>configure\<close> method of each locator; the default method does nothing.\<close>

fun locator_configure ::
  "configured_locator \<Rightarrow> configuration \<Rightarrow> configured_locator \<times> unit outcome" where
  "locator_configure (CondaConfigured e) c = apfst CondaConfigured (conda_configure c e)"
| "locator_configure (UvConfigured ws) c = apfst UvConfigured (uv_configure c ws)"
| "locator_configure (PoetryConfigured ws e) c =
     apfst (\<lambda>(ws', e'). PoetryConfigured ws' e') (poetry_configure c ws e)"
| "locator_configure (PipEnvConfigured e) c = apfst PipEnvConfigured (pipenv_configure c e)"
| "locator_configure (HatchConfigured h) c =
     apfst HatchConfigured (update_lock ''hatch state mutex poisoned'' (hatch_configure c) h)"
| "locator_configure (NoConfiguration k) c = (NoConfiguration k, Ret ())"

section \<open>The contract of a configurable locator\<close>

text \<open>
  A successful \<open>configure\<close> leaves the locator in agreement with the configuration, whatever it
  held before. From that alone a request keeps every locator in agreement with the published
  configuration.
\<close>

locale configurable =
  fixes cfg :: "'l \<Rightarrow> configuration \<Rightarrow> 'l \<times> unit outcome"
    and agrees :: "configuration \<Rightarrow> 'l \<Rightarrow> bool"
  assumes configure_agrees: "cfg l c = (l', Ret u) \<Longrightarrow> agrees c l'"
begin

lemma configure_loop_length: "length (fst (configure_loop cfg c ls)) = length ls"
  by (induction ls) (auto split: prod.splits outcome.splits)

lemma configure_loop_ok:
  "configure_loop cfg c ls = (ls', None) \<Longrightarrow> list_all (agrees c) ls'"
proof (induction ls arbitrary: ls')
  case (Cons l ls)
  then show ?case
    by (auto split: prod.splits outcome.splits intro: configure_agrees)
qed simp

lemma configure_loop_failed:
  "configure_loop cfg c ls = (ls', Some (n, m)) \<Longrightarrow>
   n < length ls \<and> drop (Suc n) ls' = drop (Suc n) ls \<and> length ls' = length ls"
proof (induction ls arbitrary: ls' n)
  case (Cons l ls)
  then show ?case by (fastforce split: prod.splits outcome.splits)
qed simp

lemma rollback_agrees:
  assumes "rollback_locator_config cfg prev cnt ls = (ls', False)"
    and "list_all (agrees prev) (drop cnt ls)"
  shows "list_all (agrees prev) ls'"
proof -
  obtain ls1 r where loop: "configure_loop cfg prev (take cnt ls) = (ls1, r)" by fastforce
  with assms(1) have "r = None" "ls' = ls1 @ drop cnt ls"
    by (cases r; auto simp: rollback_locator_config_def)+
  with loop assms(2) configure_loop_ok show ?thesis by auto
qed

lemma failed_configure_agrees:
  assumes "failed_configure cfg cnt e ls s = (s', r)" "r \<noteq> ProcessAbort"
    and "list_all (agrees (config (srv_state s))) (drop cnt ls)"
  shows "list_all (agrees (config (srv_state s))) (srv_locators s') \<and> r = ConfigureErr e \<and>
         srv_state s' = srv_state s \<and> srv_missing s' = srv_missing s \<and> srv_cache s' = srv_cache s"
  using assms by (auto simp: failed_configure_def split: prod.splits bool.splits dest: rollback_agrees)

lemma apply_configure_cases:
  assumes "apply_configure_options cfg opts ws envs s = (s', r)" "r \<noteq> ProcessAbort"
    and "list_all (agrees (config (srv_state s))) (srv_locators s)"
  shows "list_all (agrees (config (srv_state s'))) (srv_locators s') \<and>
    (case r of
       ConfigureOk \<Rightarrow>
         srv_state s' = \<lparr>generation = generation (srv_state s) + 1,
           config = next_configuration (config (srv_state s)) opts ws envs\<rparr> \<and>
         srv_missing s' = missing_envs_available
     | _ \<Rightarrow> srv_state s' = srv_state s \<and> srv_missing s' = srv_missing s \<and>
           guarded (srv_cache s') = guarded (srv_cache s))"
proof -
  define nxt where "nxt = next_configuration (config (srv_state s)) opts ws envs"
  obtain ls f where loop: "configure_loop cfg nxt (srv_locators s) = (ls, f)" by fastforce
  show ?thesis
  proof (cases f)
    case (Some nm)
    then obtain n m where nm: "f = Some (n, m)" by (cases nm) auto
    have "list_all (agrees (config (srv_state s))) (drop (n + 1) ls)"
      using configure_loop_failed [OF loop [unfolded nm]] assms(3)
      by (auto simp: list_all_iff dest: in_set_dropD)
    with nm loop assms(1,2) show ?thesis
      by (auto simp: apply_configure_options_def nxt_def Let_def dest!: failed_configure_agrees)
  next
    case None
    obtain cc o' where cc: "(case opt_cache_directory opts of
        Some d \<Rightarrow> set_cache_directory d (srv_cache s) | None \<Rightarrow> (srv_cache s, Ret ())) = (cc, o')"
      by fastforce
    have len: "length ls = length (srv_locators s)"
      using configure_loop_length [of nxt "srv_locators s"] loop by simp
    have same: "guarded cc = guarded (srv_cache s)" if "o' = Panic m" for m
      using cc that by (auto simp: set_cache_directory_def update_lock_def split: option.splits if_splits)
    from None loop cc len assms(1,2) configure_loop_ok [of nxt "srv_locators s" ls] same show ?thesis
      by (auto simp: apply_configure_options_def nxt_def Let_def split: outcome.splits
          dest!: failed_configure_agrees)
  qed
qed

end

text \<open>
  A locator is healthy when none of its locks is poisoned: then \<open>configure\<close> returns, otherwise
  it panics, now and at every later call.
\<close>

locale lock_configurable = configurable +
  fixes healthy :: "'a \<Rightarrow> bool"
  assumes configure_healthy: "healthy l \<Longrightarrow> \<exists>l'. cfg l c = (l', Ret ()) \<and> healthy l'"
    and configure_unhealthy: "\<not> healthy l \<Longrightarrow> \<exists>l' m. cfg l c = (l', Panic m) \<and> \<not> healthy l'"
begin

lemma configure_loop_healthy:
  "list_all healthy ls \<Longrightarrow> \<exists>ls'. configure_loop cfg c ls = (ls', None) \<and> list_all healthy ls'"
proof (induction ls)
  case (Cons l ls)
  then obtain l' ls' where "cfg l c = (l', Ret ())" "healthy l'"
    "configure_loop cfg c ls = (ls', None)" "list_all healthy ls'"
    using configure_healthy by fastforce
  then show ?case by simp
qed simp

lemma configure_loop_unhealthy:
  "\<not> list_all healthy ls \<Longrightarrow>
   \<exists>ls' n m. configure_loop cfg c ls = (ls', Some (n, m)) \<and> \<not> list_all healthy (take (Suc n) ls')"
proof (induction ls)
  case (Cons l ls)
  show ?case
  proof (cases "healthy l")
    case True
    with Cons obtain ls' n m where "configure_loop cfg c ls = (ls', Some (n, m))"
      "\<not> list_all healthy (take (Suc n) ls')" by auto
    moreover obtain l' where "cfg l c = (l', Ret ())" "healthy l'"
      using True configure_healthy by blast
    ultimately show ?thesis by simp
  next
    case False
    then obtain l' m where "cfg l c = (l', Panic m)" "\<not> healthy l'"
      using configure_unhealthy by blast
    then show ?thesis by simp
  qed
qed simp

lemma failed_configure_unhealthy:
  "\<not> list_all healthy (take cnt ls) \<Longrightarrow> snd (failed_configure cfg cnt e ls s) = ProcessAbort"
  using configure_loop_unhealthy [of "take cnt ls" "config (srv_state s)"]
  by (auto simp: failed_configure_def rollback_locator_config_def)

lemma failed_configure_healthy:
  assumes "list_all healthy (take cnt ls)"
  shows "snd (failed_configure cfg cnt e ls s) = ConfigureErr e"
  using configure_loop_healthy [OF assms, of "config (srv_state s)"]
  by (auto simp: failed_configure_def rollback_locator_config_def)

lemma apply_configure_result:
  "snd (apply_configure_options cfg opts ws envs s) =
     (if \<not> list_all healthy (srv_locators s) then ProcessAbort
      else if opt_cache_directory opts \<noteq> None \<and> lock_poisoned (srv_cache s)
      then ConfigureErr (CacheDirectoryConfigurationFailed (generation (srv_state s) + 1)
             ''cache_dir mutex poisoned'')
      else ConfigureOk)"
proof (cases "list_all healthy (srv_locators s)")
  case True
  define nxt where "nxt = next_configuration (config (srv_state s)) opts ws envs"
  from configure_loop_healthy [OF True, of nxt] obtain ls' where
    loop: "configure_loop cfg nxt (srv_locators s) = (ls', None)" "list_all healthy ls'" by blast
  then have "list_all healthy (take n ls')" for n
    by (auto simp: list_all_iff dest: in_set_takeD)
  with True loop show ?thesis
    by (auto simp: apply_configure_options_def nxt_def Let_def set_cache_directory_def update_lock_def
        failed_configure_healthy split: option.splits)
next
  case False
  define nxt where "nxt = next_configuration (config (srv_state s)) opts ws envs"
  from configure_loop_unhealthy [OF False, of nxt] show ?thesis
    using False
    by (auto simp: apply_configure_options_def nxt_def Let_def intro: failed_configure_unhealthy)
qed

end

section \<open>The locators of the program keep the contract\<close>

fun agrees_with :: "configuration \<Rightarrow> configured_locator \<Rightarrow> bool" where
  "agrees_with c (CondaConfigured e) \<longleftrightarrow> guarded e = conda_executable c"
| "agrees_with c (UvConfigured ws) \<longleftrightarrow> guarded ws = unwrap_or (workspace_directories c) []"
| "agrees_with c (PoetryConfigured ws e) \<longleftrightarrow>
     guarded ws = unwrap_or (workspace_directories c) [] \<and> guarded e = poetry_executable c"
| "agrees_with c (PipEnvConfigured e) \<longleftrightarrow> guarded e = pipenv_executable c"
| "agrees_with c (HatchConfigured h) \<longleftrightarrow>
     hatch_workspaces (guarded h) = unwrap_or (workspace_directories c) []"
| "agrees_with c (NoConfiguration k) \<longleftrightarrow> True"

fun locator_healthy :: "configured_locator \<Rightarrow> bool" where
  "locator_healthy (CondaConfigured e) \<longleftrightarrow> \<not> lock_poisoned e"
| "locator_healthy (UvConfigured ws) \<longleftrightarrow> \<not> lock_poisoned ws"
| "locator_healthy (PoetryConfigured ws e) \<longleftrightarrow> \<not> lock_poisoned ws \<and> \<not> lock_poisoned e"
| "locator_healthy (PipEnvConfigured e) \<longleftrightarrow> \<not> lock_poisoned e"
| "locator_healthy (HatchConfigured h) \<longleftrightarrow> \<not> lock_poisoned h"
| "locator_healthy (NoConfiguration k) \<longleftrightarrow> True"

lemmas configure_defs =
  update_lock_def poetry_configure_def hatch_configure_def conda_configure_def uv_configure_def
  pipenv_configure_def

interpretation locs: lock_configurable locator_configure agrees_with locator_healthy
proof unfold_locales
  show "agrees_with c l'" if "locator_configure l c = (l', Ret u)" for l c l' u
    using that
    by (cases l) (auto simp: configure_defs
        split: if_splits option.splits outcome.splits prod.splits)
  show "\<exists>l'. locator_configure l c = (l', Ret ()) \<and> locator_healthy l'" if "locator_healthy l" for l c
    using that by (cases l) (auto simp: configure_defs)
  show "\<exists>l' m. locator_configure l c = (l', Panic m) \<and> \<not> locator_healthy l'"
    if "\<not> locator_healthy l" for l c
    using that by (cases l) (auto simp: configure_defs)
qed

section \<open>Properties\<close>


definition sample_server :: "bool \<Rightarrow> configured_locator server" where
  "sample_server broken_cache =
     \<lparr>srv_state = \<lparr>generation = 3, config = configuration_default\<rparr>,
      srv_locators = [CondaConfigured (new_lock None), PoetryConfigured (new_lock []) (new_lock None),
                      HatchConfigured (new_lock \<lparr>hatch_generation = 0, hatch_workspaces = [],
                                                 hatch_parsed = Map.empty\<rparr>)],
      srv_missing = missing_envs_completed,
      srv_cache = \<lparr>guarded = None, lock_poisoned = broken_cache\<rparr>\<rparr>"

definition sample_configure_options :: configure_options where
  "sample_configure_options = \<lparr>opt_conda_executable = Some ''/c'', opt_pipenv_executable = None,
     opt_poetry_executable = Some ''/p'', opt_cache_directory = Some ''/cache''\<rparr>"

lemmas sample_defs =
  sample_server_def sample_configure_options_def configuration_default_def apply_configure_options_def
  next_configuration_def set_cache_directory_def configure_defs new_lock_def failed_configure_def rollback_locator_config_def


text \<open>Which result a configure request has: a poisoned lock in any locator aborts the process,
  because the rollback configures the failing locator again; a poisoned cache-directory mutex
  gives an error when a cache directory is requested; otherwise the request succeeds.\<close>

theorem configure_outcome:
  "snd (apply_configure_options locator_configure opts ws envs s) =
     (if \<not> list_all locator_healthy (srv_locators s) then ProcessAbort
      else if opt_cache_directory opts \<noteq> None \<and> lock_poisoned (srv_cache s)
      then ConfigureErr (CacheDirectoryConfigurationFailed (generation (srv_state s) + 1)
             ''cache_dir mutex poisoned'')
      else ConfigureOk)"
  by (rule locs.apply_configure_result)

text \<open>The cache directory in use never changes once it is set, but the published configuration
  records the directory of the latest request: after a successful request with another
  directory the two differ.\<close>

theorem configure_cache_directory:
  assumes "apply_configure_options locator_configure opts ws envs s = (s', ConfigureOk)"
    and "guarded (srv_cache s) = Some used" and "opt_cache_directory opts = Some requested"
  shows "guarded (srv_cache s') = Some used \<and> cache_directory (config (srv_state s')) = Some requested"
  using assms
  by (auto simp: apply_configure_options_def failed_configure_def set_cache_directory_def
      update_lock_def next_configuration_def Let_def split: prod.splits option.splits if_splits bool.splits)

definition reconfigured_cache :: "configured_locator server" where
  "reconfigured_cache = (sample_server False)\<lparr>srv_cache := new_lock (Some ''/old'')\<rparr>"

theorem configure_cache_directory_witness:
  "let s' = fst (apply_configure_options locator_configure sample_configure_options None None reconfigured_cache)
   in guarded (srv_cache s') = Some ''/old'' \<and> cache_directory (config (srv_state s')) = Some ''/cache''"
proof -
  let ?r = "apply_configure_options locator_configure sample_configure_options None None reconfigured_cache"
  have "snd ?r = ConfigureOk" by (simp add: sample_defs reconfigured_cache_def)
  then have "?r = (fst ?r, ConfigureOk)" by (metis prod.collapse)
  then show ?thesis unfolding Let_def
    by (rule configure_cache_directory) (simp_all add: sample_defs reconfigured_cache_def)
qed

lemma sort_dedup_components_eq:
  "map components (sort_dedup ps) = map components (sort_dedup qs) \<longleftrightarrow>
   components ` set ps = components ` set qs"
  using sort_dedup_sorted [of ps] sort_dedup_sorted [of qs]
  by (metis components_sort_dedup list.set_map strict_sorted_equal)

text \<open>Two refresh requests for search paths have equal options, and hence can share a refresh,
  exactly when they search for the same kind and their expanded paths are the same as sets:
  neither the order nor repetitions nor the spelling of a path matter.\<close>

theorem canonicalize_refresh_options_eq:
  "refresh_options_eq
     (canonicalize_refresh_options glob \<lparr>search_kind = k, search_paths = Some ps\<rparr>)
     (canonicalize_refresh_options glob \<lparr>search_kind = k', search_paths = Some qs\<rparr>) \<longleftrightarrow>
   k = k' \<and> components ` norm_case ` set (expand_glob_patterns glob ps) =
             components ` norm_case ` set (expand_glob_patterns glob qs)"
  by (simp add: refresh_options_eq_def canonicalize_refresh_options_def sort_dedup_components_eq)

end
