(* ===== verification/Missing_Envs.thy ===== *)
theory Missing_Envs
  imports Configure Transition
begin

text \<open>
  Reporting of missing environments after a refresh, \<open>pet/src/jsonrpc.rs\<close>: the atomic
  \<open>MISSING_ENVS_REPORTING_STATE\<close> with its compare-and-exchange protocol
  (\<open>try_begin_missing_env_reporting_with_state\<close>,
  \<open>release_missing_env_reporting_if_stale_with_state\<close>,
  \<open>complete_missing_env_reporting_with_state\<close>) and the thread of
  \<open>report_refresh_follow_up\<close>. Every atomic access and every read of the configuration
  generation is a step of its own; the steps of the threads and of configure requests that
  publish interleave in every order.
\<close>

section \<open>The protocol\<close>

datatype missing_pc =
    BeginLoad | BeginCas "64 word" | BeginConfirm
  | ReleaseCheck | ReleaseCas
  | FollowFirst | FollowConda | FollowSecond | FollowPoetry | FollowThird | FollowComplete
  | FollowDone

datatype missing_search = CondaSearch | PoetrySearch

text \<open>Strong compare-and-exchange.\<close>

definition compare_exchange :: "64 word \<Rightarrow> 64 word \<Rightarrow> 64 word \<Rightarrow> 64 word \<times> bool" where
  "compare_exchange cur expected new = (if cur = expected then (new, True) else (cur, False))"

text \<open>
  \<open>try_begin_missing_env_reporting_with_state\<close>: load, compare-and-exchange (back to the load
  when it fails) and the check of the generation. The arguments are the refresh generation, the
  value of the atomic and the published generation; the results are the next position and the
  new value.
\<close>

fun try_begin_step ::
  "missing_pc \<Rightarrow> generation \<Rightarrow> 64 word \<Rightarrow> generation \<Rightarrow> (missing_pc \<times> 64 word) option" where
  "try_begin_step BeginLoad g st cur =
     Some (if st = missing_envs_completed then (FollowDone, st)
           else if st \<noteq> missing_envs_available \<and> st \<ge> g then (FollowDone, st)
           else (BeginCas st, st))"
| "try_begin_step (BeginCas v) g st cur =
     (case compare_exchange st v g of
        (st', True) \<Rightarrow> Some (BeginConfirm, st')
      | (st', False) \<Rightarrow> Some (BeginLoad, st'))"
| "try_begin_step BeginConfirm g st cur = Some (if cur = g then FollowFirst else ReleaseCheck, st)"
| "try_begin_step _ g st cur = None"

fun release_step ::
  "missing_pc \<Rightarrow> generation \<Rightarrow> 64 word \<Rightarrow> generation \<Rightarrow> (missing_pc \<times> 64 word) option" where
  "release_step ReleaseCheck g st cur = Some (if cur \<noteq> g then ReleaseCas else FollowDone, st)"
| "release_step ReleaseCas g st cur =
     Some (FollowDone, fst (compare_exchange st g missing_envs_available))"
| "release_step _ g st cur = None"

definition complete_missing_env_reporting :: "generation \<Rightarrow> 64 word \<Rightarrow> 64 word" where
  "complete_missing_env_reporting g st = fst (compare_exchange st g missing_envs_completed)"

text \<open>The thread of \<open>report_refresh_follow_up\<close>; a search it starts is its third result.\<close>

fun follow_up_step ::
  "missing_pc \<Rightarrow> generation \<Rightarrow> 64 word \<Rightarrow> generation
   \<Rightarrow> (missing_pc \<times> 64 word \<times> missing_search list) option" where
  "follow_up_step FollowFirst g st cur = Some (if cur \<noteq> g then ReleaseCheck else FollowConda, st, [])"
| "follow_up_step FollowConda g st cur = Some (FollowSecond, st, [CondaSearch])"
| "follow_up_step FollowSecond g st cur = Some (if cur \<noteq> g then ReleaseCheck else FollowPoetry, st, [])"
| "follow_up_step FollowPoetry g st cur = Some (FollowThird, st, [PoetrySearch])"
| "follow_up_step FollowThird g st cur = Some (if cur = g then FollowComplete else ReleaseCheck, st, [])"
| "follow_up_step FollowComplete g st cur =
     Some (FollowDone, complete_missing_env_reporting g st, [])"
| "follow_up_step FollowDone g st cur = None"
| "follow_up_step pc g st cur =
     (case try_begin_step pc g st cur of
        Some (pc', st') \<Rightarrow> Some (pc', st', [])
      | None \<Rightarrow> map_option (\<lambda>(pc', st'). (pc', st', [])) (release_step pc g st cur))"

section \<open>The system\<close>

text \<open>
  A thread knows the generation of its refresh; \<open>mt_won\<close> records that
  \<open>try_begin_missing_env_reporting\<close> returned true.
\<close>

record missing_thread =
  mt_generation :: generation
  mt_pc :: missing_pc
  mt_won :: bool

record missing_system =
  ms_state :: "64 word"
  ms_generation :: generation
  ms_threads :: "missing_thread list"
  ms_searches :: "(generation \<times> missing_search) list"

definition missing_init :: missing_system where
  "missing_init = \<lparr>ms_state = missing_envs_available, ms_generation = 0, ms_threads = [], ms_searches = []\<rparr>"

definition missing_thread_step :: "nat \<Rightarrow> missing_system \<Rightarrow> missing_system option" where
  "missing_thread_step i s =
     (if i < length (ms_threads s) then
        let t = ms_threads s ! i
        in case follow_up_step (mt_pc t) (mt_generation t) (ms_state s) (ms_generation s) of
             None \<Rightarrow> None
           | Some (pc', st', found) \<Rightarrow>
               Some (s\<lparr>ms_state := st',
                       ms_threads := (ms_threads s)[i := t\<lparr>mt_pc := pc', mt_won := mt_won t \<or> pc' = FollowFirst\<rparr>],
                       ms_searches := ms_searches s @ map (Pair (mt_generation t)) found\<rparr>)
      else None)"

text \<open>
  Publishing a configuration resets the atomic under the write lock. The generation stays below
  the two reserved values: fewer than \<open>2 ^ 64 - 2\<close> configure requests succeed.
\<close>

inductive missing_sys_step :: "missing_system \<Rightarrow> missing_system \<Rightarrow> bool" where
  thread: "missing_thread_step i s = Some s' \<Longrightarrow> missing_sys_step s s'"
| publish: "ms_generation s < missing_envs_completed - 1 \<Longrightarrow>
    missing_sys_step s (s\<lparr>ms_generation := ms_generation s + 1, ms_state := missing_envs_available\<rparr>)"
| spawn: "g \<le> ms_generation s \<Longrightarrow>
    missing_sys_step s (s\<lparr>ms_threads := ms_threads s @ [\<lparr>mt_generation = g, mt_pc = BeginLoad, mt_won = False\<rparr>]\<rparr>)"

section \<open>Invariants\<close>

definition holds_claim :: "missing_thread \<Rightarrow> bool" where
  "holds_claim t \<longleftrightarrow> mt_pc t = BeginConfirm \<or> mt_won t"

fun searched :: "missing_search \<Rightarrow> missing_pc \<Rightarrow> bool" where
  "searched CondaSearch pc \<longleftrightarrow> pc \<notin> {FollowFirst, FollowConda}"
| "searched PoetrySearch pc \<longleftrightarrow> pc \<notin> {FollowFirst, FollowConda, FollowSecond, FollowPoetry}"

fun pc_ok :: "generation \<Rightarrow> missing_thread \<Rightarrow> bool" where
  "pc_ok cur t \<longleftrightarrow> mt_generation t \<le> cur \<and>
     (case mt_pc t of
        BeginLoad \<Rightarrow> \<not> mt_won t
      | BeginCas v \<Rightarrow> \<not> mt_won t \<and> v \<noteq> missing_envs_completed \<and>
                      (v = missing_envs_available \<or> v < mt_generation t)
      | BeginConfirm \<Rightarrow> \<not> mt_won t
      | ReleaseCheck \<Rightarrow> True
      | ReleaseCas \<Rightarrow> mt_generation t < cur
      | FollowDone \<Rightarrow> True
      | _ \<Rightarrow> mt_won t)"

definition unique_by :: "(missing_thread \<Rightarrow> bool) \<Rightarrow> missing_thread list \<Rightarrow> bool" where
  "unique_by P ts \<longleftrightarrow>
     (\<forall>i < length ts. \<forall>j < length ts.
        P (ts ! i) \<and> P (ts ! j) \<and> mt_generation (ts ! i) = mt_generation (ts ! j) \<longrightarrow> i = j)"

definition claim_seen :: "64 word \<Rightarrow> generation \<Rightarrow> missing_thread \<Rightarrow> bool" where
  "claim_seen st cur t \<longleftrightarrow>
     (holds_claim t \<and> mt_generation t = cur \<longrightarrow> st = cur \<or> st = missing_envs_completed)"

definition search_done :: "missing_thread list \<Rightarrow> generation \<times> missing_search \<Rightarrow> bool" where
  "search_done ts gx \<longleftrightarrow>
     (\<exists>t \<in> set ts. mt_generation t = fst gx \<and> mt_won t \<and> searched (snd gx) (mt_pc t))"

definition missing_inv :: "missing_system \<Rightarrow> bool" where
  "missing_inv s \<longleftrightarrow>
     ms_generation s < missing_envs_completed \<and>
     list_all (pc_ok (ms_generation s)) (ms_threads s) \<and>
     list_all (claim_seen (ms_state s) (ms_generation s)) (ms_threads s) \<and>
     unique_by (\<lambda>t. holds_claim t \<and> mt_generation t = ms_generation s) (ms_threads s) \<and>
     unique_by mt_won (ms_threads s) \<and>
     distinct (ms_searches s) \<and>
     list_all (search_done (ms_threads s)) (ms_searches s)"

lemma unique_byD:
  "unique_by P ts \<Longrightarrow> i < length ts \<Longrightarrow> j < length ts \<Longrightarrow> P (ts ! i) \<Longrightarrow> P (ts ! j) \<Longrightarrow>
   mt_generation (ts ! i) = mt_generation (ts ! j) \<Longrightarrow> i = j"
  by (simp add: unique_by_def)

lemma unique_by_update:
  assumes "unique_by P ts" "i < length ts" "mt_generation t' = mt_generation (ts ! i)"
    and "P t' \<Longrightarrow> \<not> P (ts ! i) \<Longrightarrow>
         \<forall>j < length ts. j \<noteq> i \<longrightarrow> mt_generation (ts ! j) = mt_generation t' \<longrightarrow> \<not> P (ts ! j)"
  shows "unique_by P (ts[i := t'])"
proof -
  have other: "b = i" if "b < length ts" "P t'" "P (ts ! b)" "mt_generation (ts ! b) = mt_generation t'" for b
  proof (cases "P (ts ! i)")
    case True
    with assms(2,3) that show ?thesis by (intro unique_byD [OF assms(1)]) simp_all
  next
    case False
    with assms(4) that show ?thesis by blast
  qed
  show ?thesis
    unfolding unique_by_def
  proof (intro allI impI)
    fix a b
    assume len: "a < length (ts[i := t'])" "b < length (ts[i := t'])"
      and P: "P (ts[i := t'] ! a) \<and> P (ts[i := t'] ! b) \<and>
        mt_generation (ts[i := t'] ! a) = mt_generation (ts[i := t'] ! b)"
    consider "a = i" "b = i" | "a = i" "b \<noteq> i" | "a \<noteq> i" "b = i" | "a \<noteq> i" "b \<noteq> i" by blast
    then show "a = b"
    proof cases
      case 2
      with len P assms(2) have "b = i" by (intro other) auto
      with 2 show ?thesis by simp
    next
      case 3
      with len P assms(2) have "a = i" by (intro other) auto
      with 3 show ?thesis by simp
    next
      case 4
      with len P show ?thesis by (intro unique_byD [OF assms(1)]) auto
    qed simp
  qed
qed

lemma unique_by_snoc:
  "unique_by P ts \<Longrightarrow> \<not> P t \<Longrightarrow> unique_by P (ts @ [t])"
  by (auto simp: unique_by_def nth_append)

lemma search_done_update:
  assumes "search_done ts gx" "i < length ts" "mt_generation t' = mt_generation (ts ! i)"
    and "mt_won (ts ! i) \<Longrightarrow> searched (snd gx) (mt_pc (ts ! i)) \<Longrightarrow>
         mt_won t' \<and> searched (snd gx) (mt_pc t')"
  shows "search_done (ts[i := t']) gx"
  using assms unfolding search_done_def by (intro bex_update) auto

lemma reserved_values [simp]:
  "missing_envs_completed \<noteq> missing_envs_available" "missing_envs_available \<noteq> missing_envs_completed"
  "g < missing_envs_completed \<Longrightarrow> g \<noteq> missing_envs_available"
  "\<not> missing_envs_available < missing_envs_completed"
  by (auto simp: missing_envs_completed_def missing_envs_available_def)

lemma searched_mono:
  assumes "follow_up_step pc g st cur = Some (pc', st', found)" "pc_ok cur t" "mt_pc t = pc" "mt_won t"
    and "searched x pc"
  shows "searched x pc'"
  using assms by (cases pc; cases x) (auto simp: compare_exchange_def split: if_splits)

lemma pc_ok_step:
  assumes "follow_up_step (mt_pc t) (mt_generation t) st cur = Some (pc', st', found)" "pc_ok cur t"
  shows "pc_ok cur (t\<lparr>mt_pc := pc', mt_won := mt_won t \<or> pc' = FollowFirst\<rparr>)"
  using assms by (cases "mt_pc t") (auto simp: compare_exchange_def not_le split: if_splits)

text \<open>A thread comes to hold a claim only by winning the exchange, and then no thread of the
  current generation held one.\<close>

lemma new_claim:
  assumes "follow_up_step (mt_pc t) (mt_generation t) st cur = Some (pc', st', found)" "pc_ok cur t"
    and "cur < missing_envs_completed"
    and "holds_claim (t\<lparr>mt_pc := pc', mt_won := mt_won t \<or> pc' = FollowFirst\<rparr>)" "\<not> holds_claim t"
  shows "st' = mt_generation t \<and> st \<noteq> cur \<and> st \<noteq> missing_envs_completed"
  using assms
  by (cases "mt_pc t") (auto simp: compare_exchange_def holds_claim_def split: if_splits)

text \<open>How a step may change the atomic while a thread of the current generation holds a claim.\<close>

lemma claim_state_step:
  assumes "follow_up_step (mt_pc t) (mt_generation t) st cur = Some (pc', st', found)" "pc_ok cur t"
    and "cur < missing_envs_completed" "st = cur \<or> st = missing_envs_completed"
  shows "st' = cur \<or> st' = missing_envs_completed"
  using assms
  by (cases "mt_pc t")
    (auto simp: compare_exchange_def complete_missing_env_reporting_def split: if_splits)

lemma new_win:
  assumes "follow_up_step pc g st cur = Some (FollowFirst, st', found)"
  shows "pc = BeginConfirm \<and> cur = g"
  using assms by (cases pc) (auto simp: compare_exchange_def split: if_splits)

lemma new_search:
  assumes "follow_up_step (mt_pc t) g st cur = Some (pc', st', found)" "pc_ok cur t"
  shows "found = [] \<or> (\<exists>x. found = [x] \<and> mt_won t \<and> \<not> searched x (mt_pc t) \<and> searched x pc')"
  using assms by (cases "mt_pc t") (auto simp: compare_exchange_def split: if_splits)

lemma missing_thread_inv:
  assumes inv: "missing_inv s" and step: "missing_thread_step i s = Some s'"
  shows "missing_inv s'"
proof -
  define ts t where "ts = ms_threads s" and "t = ms_threads s ! i"
  let ?cur = "ms_generation s" and ?st = "ms_state s"
  from step obtain pc' st' found where i: "i < length ts"
    and f: "follow_up_step (mt_pc t) (mt_generation t) ?st ?cur = Some (pc', st', found)"
    and s': "s' = s\<lparr>ms_state := st',
        ms_threads := ts[i := t\<lparr>mt_pc := pc', mt_won := mt_won t \<or> pc' = FollowFirst\<rparr>],
        ms_searches := ms_searches s @ map (Pair (mt_generation t)) found\<rparr>"
    by (auto simp: missing_thread_step_def ts_def t_def Let_def split: if_splits option.splits)
  define t' where "t' = t\<lparr>mt_pc := pc', mt_won := mt_won t \<or> pc' = FollowFirst\<rparr>"
  have gen': "mt_generation t' = mt_generation (ts ! i)" by (simp add: t'_def t_def ts_def)
  from inv have cur: "?cur < missing_envs_completed" and ok: "list_all (pc_ok ?cur) ts"
    and seen: "list_all (claim_seen ?st ?cur) ts"
    and u1: "unique_by (\<lambda>t. holds_claim t \<and> mt_generation t = ?cur) ts" and u2: "unique_by mt_won ts"
    and d: "distinct (ms_searches s)" and sd: "list_all (search_done ts) (ms_searches s)"
    by (simp_all add: missing_inv_def ts_def)
  have okt: "pc_ok ?cur t" and ti: "ts ! i = t" using ok i by (auto simp: list_all_length t_def ts_def)
  note new = new_claim [OF f okt cur, folded t'_def] and keep = claim_state_step [OF f okt cur]
  have no_claim: "\<not> (holds_claim (ts ! j) \<and> mt_generation (ts ! j) = ?cur)"
    if "j < length ts" "holds_claim t'" "\<not> holds_claim t" for j
    using seen that new by (auto simp: list_all_length claim_seen_def)
  have "claim_seen st' ?cur t'"
    using seen i new keep ti by (auto simp: claim_seen_def list_all_length t'_def)
  moreover have "list_all (claim_seen st' ?cur) ts"
    using seen keep by (auto simp: claim_seen_def list_all_iff)
  ultimately have "list_all (claim_seen st' ?cur) (ts[i := t'])" by (simp add: list_all_update)
  moreover have "list_all (pc_ok ?cur) (ts[i := t'])"
    using ok pc_ok_step [OF f okt] by (simp add: list_all_update t'_def)
  moreover have "unique_by (\<lambda>t. holds_claim t \<and> mt_generation t = ?cur) (ts[i := t'])"
    by (rule unique_by_update [OF u1 i gen']) (use no_claim ti gen' in auto)
  moreover have "unique_by mt_won (ts[i := t'])"
  proof (rule unique_by_update [OF u2 i gen'])
    assume "mt_won t'" "\<not> mt_won (ts ! i)"
    then have "pc' = FollowFirst" using ti by (simp add: t'_def)
    with f have "mt_pc t = BeginConfirm" "mt_generation t = ?cur" by (auto dest: new_win)
    then show "\<forall>j<length ts. j \<noteq> i \<longrightarrow> mt_generation (ts ! j) = mt_generation t' \<longrightarrow> \<not> mt_won (ts ! j)"
      using unique_byD [OF u1 _ i] ti by (auto simp: holds_claim_def t'_def)
  qed
  moreover have "list_all (search_done (ts[i := t'])) (ms_searches s)"
    using sd searched_mono [OF f okt refl] ti
    by (auto simp: list_all_iff t'_def intro!: search_done_update [OF _ i])
  moreover have "distinct (ms_searches s @ map (Pair (mt_generation t)) found) \<and>
      list_all (search_done (ts[i := t'])) (map (Pair (mt_generation t)) found)"
  proof (cases "found = []")
    case False
    with new_search [OF f okt] obtain x where x: "found = [x]" "mt_won t" "\<not> searched x (mt_pc t)" "searched x pc'"
      by blast
    have "(mt_generation t, x) \<notin> set (ms_searches s)"
    proof
      assume "(mt_generation t, x) \<in> set (ms_searches s)"
      with sd obtain j where "j < length ts" "mt_generation (ts ! j) = mt_generation t" "mt_won (ts ! j)"
        "searched x (mt_pc (ts ! j))"
        by (fastforce simp: list_all_iff search_done_def in_set_conv_nth [of _ ts])
      with unique_byD [OF u2 _ i] x ti show False by metis
    qed
    with x d i show ?thesis by (auto simp: search_done_def t'_def set_update_memI intro!: bexI [of _ t'])
  qed (use d in simp)
  ultimately show ?thesis using cur by (simp add: missing_inv_def s' t'_def)
qed

lemma generation_inc:
  assumes "g < missing_envs_completed - 1"
  shows "g < g + 1" and "g + 1 < missing_envs_completed"
proof -
  have u: "unat g < 18446744073709551613"
    using assms by (simp add: word_less_nat_alt missing_envs_completed_def)
  then have "unat (g + 1) = unat g + 1" by (simp add: unat_word_ariths)
  with u show "g < g + 1" "g + 1 < missing_envs_completed"
    by (simp_all add: word_less_nat_alt missing_envs_completed_def)
qed

lemma missing_publish_inv:
  assumes "missing_inv s" "ms_generation s < missing_envs_completed - 1"
  shows "missing_inv (s\<lparr>ms_generation := ms_generation s + 1, ms_state := missing_envs_available\<rparr>)"
proof -
  let ?g = "ms_generation s"
  note lt = generation_inc(1) [OF assms(2)] and b = generation_inc(2) [OF assms(2)]
  have "pc_ok (?g + 1) t \<and> mt_generation t \<noteq> ?g + 1" if "pc_ok ?g t" for t
    using that lt by (cases "mt_pc t") auto
  moreover from assms(1) have ok: "list_all (pc_ok ?g) (ms_threads s)" by (simp add: missing_inv_def)
  ultimately have "list_all (pc_ok (?g + 1)) (ms_threads s)"
    "list_all (claim_seen missing_envs_available (?g + 1)) (ms_threads s)"
    "unique_by (\<lambda>t. holds_claim t \<and> mt_generation t = ?g + 1) (ms_threads s)"
    by (simp_all add: list_all_length claim_seen_def unique_by_def del: pc_ok.simps)
  with assms(1) b show ?thesis by (simp add: missing_inv_def)
qed

lemma missing_spawn_inv:
  assumes "missing_inv s" "g \<le> ms_generation s"
  shows "missing_inv (s\<lparr>ms_threads := ms_threads s @
           [\<lparr>mt_generation = g, mt_pc = BeginLoad, mt_won = False\<rparr>]\<rparr>)"
  using assms
  by (auto simp: missing_inv_def claim_seen_def holds_claim_def list_all_iff search_done_def
      intro!: unique_by_snoc)

lemma missing_zero: "0 < missing_envs_completed"
  by (simp add: missing_envs_completed_def word_less_nat_alt)

interpretation missing: inv_system "\<lambda>s. s = missing_init" missing_sys_step missing_inv
proof unfold_locales
  show "missing_inv s" if "s = missing_init" for s
    using that by (simp add: missing_init_def missing_inv_def unique_by_def missing_zero)
  show "missing_inv t" if "missing_inv s" "missing_sys_step s t" for s t
    using that(2,1)
    by cases (auto intro: missing_thread_inv missing_publish_inv missing_spawn_inv)
qed

section \<open>Schedules\<close>

text \<open>A schedule is a list of choices: a step of a thread, a publication, a new follow-up.\<close>

datatype missing_event = StepThread nat | Publish | Spawn generation

fun missing_event_step :: "missing_event \<Rightarrow> missing_system \<Rightarrow> missing_system option" where
  "missing_event_step (StepThread i) s = missing_thread_step i s"
| "missing_event_step Publish s =
     (if ms_generation s < missing_envs_completed - 1
      then Some (s\<lparr>ms_generation := ms_generation s + 1, ms_state := missing_envs_available\<rparr>) else None)"
| "missing_event_step (Spawn g) s =
     (if g \<le> ms_generation s
      then Some (s\<lparr>ms_threads := ms_threads s @ [\<lparr>mt_generation = g, mt_pc = BeginLoad, mt_won = False\<rparr>]\<rparr>)
      else None)"

fun missing_run :: "missing_event list \<Rightarrow> missing_system \<Rightarrow> missing_system option" where
  "missing_run [] s = Some s"
| "missing_run (e # es) s =
     (case missing_event_step e s of Some s' \<Rightarrow> missing_run es s' | None \<Rightarrow> None)"

lemma missing_event_sys_step: "missing_event_step e s = Some s' \<Longrightarrow> missing_sys_step s s'"
  by (cases e) (auto intro: missing_sys_step.intros split: if_splits)

lemma missing_run_reachable: "missing_run es s = Some s' \<Longrightarrow> missing_sys_step\<^sup>*\<^sup>* s s'"
proof (induction es arbitrary: s)
  case (Cons e es)
  then show ?case
    by (auto split: option.splits intro: converse_rtranclp_into_rtranclp dest!: missing_event_sys_step)
qed simp

lemmas missing_run_defs =
  missing_thread_step_def missing_init_def compare_exchange_def complete_missing_env_reporting_def
  missing_envs_completed_def missing_envs_available_def

section \<open>Properties\<close>

text \<open>C11: However refresh follow-ups and configure requests interleave, the search for missing
  environments of each tool is started at most once per configuration generation, and at most
  one follow-up of a generation is let through.\<close>

theorem missing_search_once:
  assumes "missing_sys_step\<^sup>*\<^sup>* missing_init s"
  shows "distinct (ms_searches s) \<and> unique_by mt_won (ms_threads s)"
  using missing.inv_reachable [OF refl assms] by (simp add: missing_inv_def)

definition two_follow_ups :: "missing_event list" where
  "two_follow_ups = [Spawn 0, Spawn 0, StepThread 0, StepThread 1, StepThread 0, StepThread 1,
     StepThread 1, StepThread 0, StepThread 0, StepThread 0]"

theorem missing_search_once_witness:
  "case missing_run two_follow_ups missing_init of
     Some s \<Rightarrow> distinct (ms_searches s) \<and> unique_by mt_won (ms_threads s) \<and>
               ms_searches s = [(0, CondaSearch)]
   | None \<Rightarrow> False"
proof -
  obtain s where s: "missing_run two_follow_ups missing_init = Some s" "ms_searches s = [(0, CondaSearch)]"
    by (simp add: two_follow_ups_def missing_run_defs)
  with missing_search_once [OF missing_run_reachable [OF s(1)]] show ?thesis by simp
qed

text \<open>A follow-up of the published generation that runs alone while reporting is available
  starts both searches and marks reporting completed; every later follow-up of that generation
  returns at its first load.\<close>

theorem missing_search_runs:
  assumes "g < missing_envs_completed"
  shows "missing_run (Spawn g # replicate 9 (StepThread 0) @ [Spawn g, StepThread 1])
           \<lparr>ms_state = missing_envs_available, ms_generation = g, ms_threads = [], ms_searches = []\<rparr> =
         Some \<lparr>ms_state = missing_envs_completed, ms_generation = g,
           ms_threads = [\<lparr>mt_generation = g, mt_pc = FollowDone, mt_won = True\<rparr>,
                         \<lparr>mt_generation = g, mt_pc = FollowDone, mt_won = False\<rparr>],
           ms_searches = [(g, CondaSearch), (g, PoetrySearch)]\<rparr>"
  using assms
  by (simp add: missing_thread_step_def compare_exchange_def complete_missing_env_reporting_def
      numeral_eq_Suc)

theorem missing_search_runs_witness:
  "map_option ms_searches (missing_run (Spawn 7 # replicate 9 (StepThread 0) @ [Spawn 7, StepThread 1])
     \<lparr>ms_state = missing_envs_available, ms_generation = 7, ms_threads = [], ms_searches = []\<rparr>) =
   Some [(7, CondaSearch), (7, PoetrySearch)]"
proof -
  have "(7 :: 64 word) < missing_envs_completed" by (simp add: missing_envs_completed_def word_less_nat_alt)
  from missing_search_runs [OF this] show ?thesis by simp
qed

text \<open>C12: The reset after a configure request can be undone by a follow-up of the previous
  generation: there is a schedule after which generation 1 is published, every follow-up of
  generation 0 has ended and reporting is marked completed although no search was started for
  generation 1, so that follow-ups of generation 1 find nothing to do.\<close>

definition lost_reset :: "missing_event list" where
  "lost_reset = [Spawn 0, StepThread 0, StepThread 0, StepThread 0, StepThread 0, StepThread 0,
     StepThread 0, StepThread 0, StepThread 0, Publish, Spawn 0, StepThread 1, StepThread 1,
     StepThread 0, StepThread 1, StepThread 1, StepThread 1]"

theorem missing_reset_lost:
  "\<exists>s. missing_sys_step\<^sup>*\<^sup>* missing_init s \<and> ms_generation s = 1 \<and>
       list_all (\<lambda>t. mt_generation t = 0 \<and> mt_pc t = FollowDone) (ms_threads s) \<and>
       ms_state s = missing_envs_completed \<and> ms_searches s = [(0, CondaSearch), (0, PoetrySearch)]"
proof -
  obtain s where s: "missing_run lost_reset missing_init = Some s"
    "ms_generation s = 1 \<and> list_all (\<lambda>t. mt_generation t = 0 \<and> mt_pc t = FollowDone) (ms_threads s) \<and>
       ms_state s = missing_envs_completed \<and> ms_searches s = [(0, CondaSearch), (0, PoetrySearch)]"
    by (simp add: lost_reset_def missing_run_defs word_less_nat_alt)
  with missing_run_reachable [OF s(1)] show ?thesis by blast
qed

end
