(* ===== verification/Json_Rpc.thy ===== *)
theory Json_Rpc
  imports Pet_Prelude "HOL-Library.Word"
begin

text \<open>
  The JSON-RPC transport, \<open>pet-jsonrpc\<close>: framing of outgoing messages (\<open>lib.rs\<close>), reading of
  framed requests from standard input and dispatch to the registered handlers (\<open>server.rs\<close>).

  Parsing and printing of JSON text is \<open>serde_json\<close> and an argument of the definitions. The
  input is the list of bytes not read yet; what a handler does is not modelled here, a call of
  one is an action.
\<close>

section \<open>JSON values\<close>

datatype json = JNull | JBool bool | JInt int | JFloat | JString string | JArray "json list"
  | JObject "(string \<times> json) list"

text \<open>\<open>Value::index\<close> with a string: \<open>Null\<close> for a missing key and for what is no object.\<close>

fun json_index :: "json \<Rightarrow> string \<Rightarrow> json" where
  "json_index (JObject fs) k = unwrap_or (map_of fs k) JNull"
| "json_index _ k = JNull"

fun as_str :: "json \<Rightarrow> string option" where
  "as_str (JString s) = Some s"
| "as_str _ = None"

fun as_u64 :: "json \<Rightarrow> nat option" where
  "as_u64 (JInt n) = (if 0 \<le> n \<and> n < 2 ^ 64 then Some (nat n) else None)"
| "as_u64 _ = None"

section \<open>Dispatch\<close>

record ('r, 'n) handlers =
  requests :: "string \<rightharpoonup> 'r"
  notifications :: "string \<rightharpoonup> 'n"

definition handlers_new :: "('r, 'n) handlers" where
  "handlers_new = \<lparr>requests = Map.empty, notifications = Map.empty\<rparr>"

definition add_request_handler :: "string \<Rightarrow> 'r \<Rightarrow> ('r, 'n) handlers \<Rightarrow> ('r, 'n) handlers" where
  "add_request_handler method h hs = hs\<lparr>requests := (requests hs)(method \<mapsto> h)\<rparr>"

definition add_notification_handler :: "string \<Rightarrow> 'n \<Rightarrow> ('r, 'n) handlers \<Rightarrow> ('r, 'n) handlers" where
  "add_notification_handler method h hs = hs\<lparr>notifications := (notifications hs)(method \<mapsto> h)\<rparr>"

text \<open>Messages to the client carry an error code; the rest of the diagnostics goes to standard
  error and is one constructor.\<close>

datatype ('r, 'n) action =
    CallRequest 'r "32 word" json
  | CallNotification 'n json
  | SendError "32 word option" int string
  | Diagnostic

definition handle_request :: "('r, 'n) handlers \<Rightarrow> json \<Rightarrow> ('r, 'n) action list" where
  "handle_request hs message =
     (case as_str (json_index message ''method'') of
        Some method \<Rightarrow>
          (case as_u64 (json_index message ''id'') of
             Some rid \<Rightarrow>
               (case requests hs method of
                  Some h \<Rightarrow> [CallRequest h (of_nat rid) (json_index message ''params'')]
                | None \<Rightarrow> [Diagnostic,
                    SendError (Some (of_nat rid)) (- 1) (''Failed to find handler for request '' @ method)])
           | None \<Rightarrow>
               (case notifications hs method of
                  Some h \<Rightarrow> [CallNotification h (json_index message ''params'')]
                | None \<Rightarrow> [Diagnostic]))
      | None \<Rightarrow> [Diagnostic,
          SendError (map_option of_nat (as_u64 (json_index message ''id''))) (- 3)
            ''Failed to extract method from JSONRPC payload''])"

definition handle_payload ::
  "(string \<Rightarrow> json option) \<Rightarrow> ('r, 'n) handlers \<Rightarrow> string \<Rightarrow> ('r, 'n) action list" where
  "handle_payload parse hs payload =
     (case parse payload of Some v \<Rightarrow> handle_request hs v | None \<Rightarrow> [Diagnostic])"

section \<open>Framing\<close>

definition content_length_key :: string where
  "content_length_key = ''Content-Length: ''"

text \<open>\<open>None\<close> for either error message; \<open>usize\<close> has 64 bits.\<close>

definition get_content_length :: "string \<Rightarrow> nat option" where
  "get_content_length line =
     (let l = trim line
      in case str_find content_length_key l of
           Some i \<Rightarrow> parse_unsigned (2 ^ 64) (drop (i + length content_length_key) l)
         | None \<Rightarrow> None)"

text \<open>\<open>Stdin::read_line\<close>: up to and including the next line feed, or all that is left.\<close>

fun read_line :: "string \<Rightarrow> string \<times> string" where
  "read_line [] = ([], [])"
| "read_line (c # cs) =
     (if c = CHR 0x0A then ([c], cs) else case read_line cs of (l, rest) \<Rightarrow> (c # l, rest))"

text \<open>\<open>Read::read_exact\<close>: at the end of the input the bytes that were left are consumed.\<close>

definition read_exact :: "nat \<Rightarrow> string \<Rightarrow> string option \<times> string" where
  "read_exact n input = (if n \<le> length input then (Some (take n input), drop n input) else (None, []))"

text \<open>One round of the loop of \<open>start_server\<close>.\<close>

definition server_round ::
  "(string \<Rightarrow> json option) \<Rightarrow> ('r, 'n) handlers \<Rightarrow> string \<Rightarrow> ('r, 'n) action list \<times> string" where
  "server_round parse hs input =
     (case read_line input of
        (line, rest) \<Rightarrow>
          (case get_content_length line of
             Some n \<Rightarrow>
               (case read_line rest of
                  (empty_line, rest2) \<Rightarrow>
                    (case read_exact n rest2 of
                       (Some buffer, rest3) \<Rightarrow> (handle_payload parse hs buffer, rest3)
                     | (None, rest3) \<Rightarrow> ([Diagnostic], rest3)))
           | None \<Rightarrow> ([Diagnostic], rest)))"

text \<open>The loop never ends; \<open>server_rounds\<close> is what its first rounds do.\<close>

fun server_rounds ::
  "(string \<Rightarrow> json option) \<Rightarrow> ('r, 'n) handlers \<Rightarrow> nat \<Rightarrow> string \<Rightarrow> ('r, 'n) action list \<times> string" where
  "server_rounds parse hs 0 input = ([], input)"
| "server_rounds parse hs (Suc n) input =
     (case server_round parse hs input of
        (as, rest) \<Rightarrow> (case server_rounds parse hs n rest of (bs, rest2) \<Rightarrow> (as @ bs, rest2)))"

definition crlf :: string where
  "crlf = [CHR 0x0D, CHR 0x0A]"

text \<open>What \<open>send_message\<close>, \<open>send_reply\<close> and \<open>send_error\<close> write.\<close>

definition frame_out :: "string \<Rightarrow> string" where
  "frame_out message =
     content_length_key @ show_nat (length message) @ crlf
     @ ''Content-Type: application/vscode-jsonrpc; charset=utf-8'' @ crlf @ crlf @ message"

definition send_message :: "(json \<Rightarrow> string) \<Rightarrow> string \<Rightarrow> json \<Rightarrow> string" where
  "send_message to_string method params =
     frame_out (to_string (JObject [(''jsonrpc'', JString ''2.0''), (''method'', JString method), (''params'', params)]))"

definition send_reply :: "(json \<Rightarrow> string) \<Rightarrow> 32 word \<Rightarrow> json \<Rightarrow> string" where
  "send_reply to_string rid payload =
     frame_out (to_string (JObject [(''jsonrpc'', JString ''2.0''), (''result'', payload), (''id'', JInt (uint rid))]))"

definition send_error :: "(json \<Rightarrow> string) \<Rightarrow> 32 word option \<Rightarrow> int \<Rightarrow> string \<Rightarrow> string" where
  "send_error to_string rid code message =
     frame_out (to_string (JObject [(''jsonrpc'', JString ''2.0''),
       (''error'', JObject [(''code'', JInt code), (''message'', JString message)]),
       (''id'', case rid of Some i \<Rightarrow> JInt (uint i) | None \<Rightarrow> JNull)]))"

section \<open>Reading frames\<close>

lemma read_line_eq: "CHR 0x0A \<notin> set l \<Longrightarrow> read_line (l @ CHR 0x0A # rest) = (l @ [CHR 0x0A], rest)"
  by (induction l) auto

lemma read_line_split: "fst (read_line s) @ snd (read_line s) = s"
  by (induction s) (auto split: prod.splits)

lemma get_content_length_header:
  assumes "n < 2 ^ 64"
  shows "get_content_length (content_length_key @ show_nat n @ crlf) = Some n"
proof -
  have "is_digit (last (show_nat n))"
    using show_nat_digits [of n] show_nat_ne [of n] by (simp add: list_all_iff)
  then have t: "trim ((content_length_key @ show_nat n) @ crlf) = content_length_key @ show_nat n"
    by (intro trim_padded) (auto simp: content_length_key_def crlf_def is_space_def show_nat_ne dest: digit_facts)
  have "str_find content_length_key (content_length_key @ show_nat n) = Some 0"
    by (simp add: content_length_key_def)
  with t assms show ?thesis by (simp add: get_content_length_def parse_unsigned_show_nat)
qed

text \<open>A frame with the single header a client has to send.\<close>

definition frame_in :: "string \<Rightarrow> string" where
  "frame_in body = content_length_key @ show_nat (length body) @ crlf @ crlf @ body"

lemma header_line:
  "read_line (content_length_key @ show_nat n @ crlf @ rest) = (content_length_key @ show_nat n @ crlf, rest)"
proof -
  have "CHR 0x0A \<notin> set (content_length_key @ show_nat n @ [CHR 0x0D])"
    using show_nat_digits [of n] by (auto simp: content_length_key_def list_all_iff dest: digit_facts)
  from read_line_eq [OF this, of rest] show ?thesis by (simp add: crlf_def)
qed

lemma server_round_header:
  assumes "n < 2 ^ 64"
  shows "server_round parse hs (content_length_key @ show_nat n @ crlf @ rest) =
    (case read_line rest of (line2, rest2) \<Rightarrow>
       (case read_exact n rest2 of
          (Some buffer, rest3) \<Rightarrow> (handle_payload parse hs buffer, rest3)
        | (None, rest3) \<Rightarrow> ([Diagnostic], rest3)))"
  using assms by (simp add: server_round_def header_line get_content_length_header)

lemma server_round_frame:
  assumes "length body < 2 ^ 64"
  shows "server_round parse hs (frame_in body @ rest) = (handle_payload parse hs body, rest)"
proof -
  have "read_line (crlf @ body @ rest) = (crlf, body @ rest)"
    using read_line_eq [of "[CHR 0x0D]" "body @ rest"] by (simp add: crlf_def)
  with server_round_header [OF assms, of parse hs "crlf @ body @ rest"] show ?thesis
    by (simp add: frame_in_def read_exact_def)
qed

section \<open>Properties\<close>

text \<open>C15: A stream of framed requests is handled completely and in order: reading as many rounds
  as there are frames dispatches the payload of each frame once and leaves the input exactly
  after the last frame.\<close>

theorem server_rounds_frames:
  assumes "\<forall>b \<in> set bodies. length b < 2 ^ 64"
  shows "server_rounds parse hs (length bodies) (concat (map frame_in bodies) @ rest) =
         (concat (map (handle_payload parse hs) bodies), rest)"
  using assms by (induction bodies) (auto simp: server_round_frame split: prod.splits)

definition sample_parse :: "string \<Rightarrow> json option" where
  "sample_parse s =
     (if s = ''R'' then Some (JObject [(''method'', JString ''info''), (''id'', JInt 7)])
      else if s = ''N!'' then Some (JObject [(''method'', JString ''bye'')]) else None)"

definition sample_handlers :: "(nat, nat) handlers" where
  "sample_handlers = add_request_handler ''info'' 1 handlers_new"

theorem server_rounds_frames_witness:
  "server_rounds sample_parse sample_handlers 3 (concat (map frame_in [''R'', ''N!'', ''?'']) @ ''rest'') =
   ([CallRequest 1 7 JNull, Diagnostic, Diagnostic], ''rest'')"
  using server_rounds_frames [of "[''R'', ''N!'', ''?'']" sample_parse sample_handlers "''rest''"]
  by (simp add: handle_payload_def sample_parse_def handle_request_def sample_handlers_def
      add_request_handler_def handlers_new_def numeral_3_eq_3)

text \<open>A frame that also has a Content-Type header, like the frames the server writes itself, is
  misread: the server takes the blank line after the headers as the first two bytes of the
  payload and cuts the last two bytes off.\<close>

theorem server_round_two_headers:
  assumes "length body < 2 ^ 64"
  shows "server_round parse hs (frame_out body @ rest) =
         (handle_payload parse hs (take (length body) (crlf @ body)),
          drop (length body) (crlf @ body) @ rest)"
proof -
  let ?ct = "''Content-Type: application/vscode-jsonrpc; charset=utf-8''"
  have "read_line (?ct @ crlf @ crlf @ body @ rest) = (?ct @ crlf, crlf @ body @ rest)"
    using read_line_eq [of "?ct @ [CHR 0x0D]" "crlf @ body @ rest"] by (simp add: crlf_def)
  with server_round_header [OF assms, of parse hs "?ct @ crlf @ crlf @ body @ rest"] show ?thesis
    by (simp add: frame_out_def read_exact_def)
qed

theorem server_round_two_headers_witness:
  "snd (server_round sample_parse sample_handlers (frame_out ''{}'')) = ''{}'' \<and>
   fst (server_round sample_parse sample_handlers (frame_out ''{}'')) = [Diagnostic]"
  using server_round_two_headers [of "''{}''" sample_parse sample_handlers "[]"]
  by (simp add: handle_payload_def sample_parse_def crlf_def)

text \<open>At the end of the input the loop does not stop: every further round reads nothing and
  only writes a diagnostic, for ever.\<close>

theorem server_rounds_eof:
  "server_rounds parse hs n [] = (replicate n Diagnostic, [])"
proof (induction n)
  case (Suc n)
  have "get_content_length [] = None"
    by (simp add: get_content_length_def trim_def trim_end_def trim_start_def content_length_key_def)
  with Suc show ?case by (simp add: server_round_def)
qed simp

text \<open>Dispatch of a message that names a method: with a numeric id of 64 bits it goes to the
  request handler with the low 32 bits of the id, or is answered with error -1 under that id;
  without one it goes to the notification handler and is never answered.\<close>

theorem handle_request_dispatch:
  assumes "as_str (json_index message ''method'') = Some method"
  shows "handle_request hs message =
    (case as_u64 (json_index message ''id'') of
       Some n \<Rightarrow>
         (case requests hs method of
            Some h \<Rightarrow> [CallRequest h (of_nat (n mod 2 ^ 32)) (json_index message ''params'')]
          | None \<Rightarrow> [Diagnostic, SendError (Some (of_nat (n mod 2 ^ 32))) (- 1)
                       (''Failed to find handler for request '' @ method)])
     | None \<Rightarrow>
         (case notifications hs method of
            Some h \<Rightarrow> [CallNotification h (json_index message ''params'')]
          | None \<Rightarrow> [Diagnostic]))"
proof -
  have "(of_nat (n mod 2 ^ 32) :: 32 word) = of_nat n" for n
    by (simp add: word_of_nat_eq_iff take_bit_eq_mod)
  with assms show ?thesis by (simp add: handle_request_def split: option.splits)
qed

theorem handle_request_dispatch_witness:
  "handle_request sample_handlers (JObject [(''method'', JString ''info''), (''id'', JInt 4294967303)]) =
   [CallRequest 1 7 JNull]"
proof -
  have "as_str (json_index (JObject [(''method'', JString ''info''), (''id'', JInt 4294967303)]) ''method'') = Some ''info''"
    by simp
  from handle_request_dispatch [OF this, of sample_handlers] show ?thesis
    by (simp add: sample_handlers_def add_request_handler_def handlers_new_def)
qed

end
