(* ===== verification/Reporter.thy ===== *)
theory Reporter
  imports Configure
begin

text \<open>
  The reporters: \<open>pet-reporter\<close> (\<open>cache.rs\<close>, \<open>environment.rs\<close>, \<open>jsonrpc.rs\<close>,
  \<open>collect.rs\<close>, \<open>stdio.rs\<close>) and the \<open>GenerationGuardedReporter\<close> of \<open>pet/src/jsonrpc.rs\<close>.

  A reporter is a pair of operations on its state. The decorators take the operations of the
  reporter they wrap as arguments, as the code takes an \<open>Arc<dyn Reporter>\<close>. The locale
  \<open>reporter\<close> is the interface; the JSON-RPC, the collecting and the console reporter and the
  two decorators interpret it. A poisoned lock is not modelled here: no code that runs under
  these locks panics, the panic of a write to standard output apart.
\<close>

section \<open>Keys\<close>

text \<open>The copy of \<open>get_environment_key\<close> that \<open>pet-reporter\<close> has.\<close>

definition reporter_environment_key :: "python_environment \<Rightarrow> path option" where
  "reporter_environment_key env =
     (if executable env \<noteq> None then executable env
      else if env_prefix env \<noteq> None
      then if kind env = Some Conda
           then Some (path_join (path_join (the (env_prefix env)) ''bin'') ''python'')
           else env_prefix env
      else None)"

lemma reporter_environment_key_eq: "reporter_environment_key = get_environment_key"
  by (auto simp: fun_eq_iff reporter_environment_key_def get_environment_key_def split: option.splits)

text \<open>A \<open>HashMap\<close> keyed by \<open>PathBuf\<close> compares keys by their components.\<close>

type_synonym 'v path_map = "component list \<rightharpoonup> 'v"

definition env_key :: "python_environment \<Rightarrow> component list option" where
  "env_key env = map_option components (reporter_environment_key env)"

definition manager_key :: "env_manager \<Rightarrow> component list" where
  "manager_key m = components (mgr_executable m)"

section \<open>The cache reporter\<close>

record 's cache_reporter =
  wrapped :: 's
  reported_managers :: "env_manager path_map"
  reported_environments :: "python_environment path_map"

definition cache_reporter_new :: "'s \<Rightarrow> 's cache_reporter" where
  "cache_reporter_new r =
     \<lparr>wrapped = r, reported_managers = Map.empty, reported_environments = Map.empty\<rparr>"

text \<open>
  Reporting has two critical sections: a test under the read lock, and under the write lock a
  second test with the insertion and the report. Other threads may run between the two.
\<close>

definition cache_manager_known :: "env_manager \<Rightarrow> 's cache_reporter \<Rightarrow> bool" where
  "cache_manager_known m c \<longleftrightarrow> reported_managers c (manager_key m) \<noteq> None"

definition cache_manager_insert ::
  "(env_manager \<Rightarrow> 's \<Rightarrow> 's) \<Rightarrow> env_manager \<Rightarrow> 's cache_reporter \<Rightarrow> 's cache_reporter" where
  "cache_manager_insert rep m c =
     (if reported_managers c (manager_key m) = None
      then c\<lparr>reported_managers := (reported_managers c)(manager_key m \<mapsto> m),
             wrapped := rep m (wrapped c)\<rparr>
      else c)"

definition cache_report_manager ::
  "(env_manager \<Rightarrow> 's \<Rightarrow> 's) \<Rightarrow> env_manager \<Rightarrow> 's cache_reporter \<Rightarrow> 's cache_reporter" where
  "cache_report_manager rep m c =
     (if cache_manager_known m c then c else cache_manager_insert rep m c)"

definition cache_environment_known :: "component list \<Rightarrow> 's cache_reporter \<Rightarrow> bool" where
  "cache_environment_known k c \<longleftrightarrow> reported_environments c k \<noteq> None"

definition cache_environment_insert ::
  "(python_environment \<Rightarrow> 's \<Rightarrow> 's) \<Rightarrow> component list \<Rightarrow> python_environment
   \<Rightarrow> 's cache_reporter \<Rightarrow> 's cache_reporter" where
  "cache_environment_insert rep k env c =
     (if reported_environments c k = None
      then c\<lparr>reported_environments := (reported_environments c)(k \<mapsto> env),
             wrapped := rep env (wrapped c)\<rparr>
      else c)"

definition cache_report_environment ::
  "(python_environment \<Rightarrow> 's \<Rightarrow> 's) \<Rightarrow> python_environment \<Rightarrow> 's cache_reporter \<Rightarrow> 's cache_reporter" where
  "cache_report_environment rep env c =
     (case env_key env of
        None \<Rightarrow> c
      | Some k \<Rightarrow> if cache_environment_known k c then c else cache_environment_insert rep k env c)"

section \<open>The generation-guarded reporter\<close>

record 's guarded_reporter =
  grd_configuration :: configuration_state
  grd_inner :: 's

definition report_if_current ::
  "generation \<Rightarrow> ('s \<Rightarrow> 's) \<Rightarrow> 's guarded_reporter \<Rightarrow> 's guarded_reporter" where
  "report_if_current refresh_generation report r =
     (if generation (grd_configuration r) = refresh_generation
      then r\<lparr>grd_inner := report (grd_inner r)\<rparr> else r)"

definition guarded_report_manager ::
  "generation \<Rightarrow> (env_manager \<Rightarrow> 's \<Rightarrow> 's) \<Rightarrow> env_manager \<Rightarrow> 's guarded_reporter \<Rightarrow> 's guarded_reporter" where
  "guarded_report_manager gen rep m = report_if_current gen (rep m)"

definition guarded_report_environment ::
  "generation \<Rightarrow> (python_environment \<Rightarrow> 's \<Rightarrow> 's) \<Rightarrow> python_environment
   \<Rightarrow> 's guarded_reporter \<Rightarrow> 's guarded_reporter" where
  "guarded_report_environment gen rep env = report_if_current gen (rep env)"

section \<open>The reporters at the end of the chain\<close>

text \<open>The JSON-RPC reporter: the notifications it has sent.\<close>

datatype notification = ManagerNote env_manager | EnvironmentNote python_environment

definition should_report_environment :: "environment_kind option \<Rightarrow> python_environment \<Rightarrow> bool" where
  "should_report_environment report_only env =
     (case report_only of Some k \<Rightarrow> kind env = Some k | None \<Rightarrow> True)"

definition jsonrpc_report_manager :: "env_manager \<Rightarrow> notification list \<Rightarrow> notification list" where
  "jsonrpc_report_manager m out = out @ [ManagerNote m]"

definition jsonrpc_report_environment ::
  "environment_kind option \<Rightarrow> python_environment \<Rightarrow> notification list \<Rightarrow> notification list" where
  "jsonrpc_report_environment report_only env out =
     (if \<not> should_report_environment report_only env then out else out @ [EnvironmentNote env])"

record collect_reporter =
  col_managers :: "env_manager list"
  col_environments :: "python_environment list"

definition collect_report_manager :: "env_manager \<Rightarrow> collect_reporter \<Rightarrow> collect_reporter" where
  "collect_report_manager m r = r\<lparr>col_managers := col_managers r @ [m]\<rparr>"

definition collect_report_environment :: "python_environment \<Rightarrow> collect_reporter \<Rightarrow> collect_reporter" where
  "collect_report_environment env r = r\<lparr>col_environments := col_environments r @ [env]\<rparr>"

text \<open>The console reporter counts in 16 bits.\<close>

record stdio_reporter =
  print_list :: bool
  std_managers :: "manager_type \<rightharpoonup> 16 word"
  std_environments :: "environment_kind option \<rightharpoonup> 16 word"
  environment_paths :: "environment_kind option \<rightharpoonup> python_environment list"
  std_kind :: "environment_kind option"
  printed :: "notification list"

definition stdio_reporter_new :: "bool \<Rightarrow> environment_kind option \<Rightarrow> stdio_reporter" where
  "stdio_reporter_new pl k =
     \<lparr>print_list = pl, std_managers = Map.empty, std_environments = Map.empty,
      environment_paths = Map.empty, std_kind = k, printed = []\<rparr>"

definition stdio_report_manager :: "env_manager \<Rightarrow> stdio_reporter \<Rightarrow> stdio_reporter" where
  "stdio_report_manager m r =
     (let count = unwrap_or (std_managers r (mgr_tool m)) 0 + 1
      in r\<lparr>std_managers := (std_managers r)(mgr_tool m \<mapsto> count),
           printed := (if print_list r then printed r @ [ManagerNote m] else printed r)\<rparr>)"

definition stdio_report_environment :: "python_environment \<Rightarrow> stdio_reporter \<Rightarrow> stdio_reporter" where
  "stdio_report_environment env r =
     (if std_kind r \<noteq> None \<and> kind env \<noteq> std_kind r then r
      else let count = unwrap_or (std_environments r (kind env)) 0 + 1
           in r\<lparr>std_environments := (std_environments r)(kind env \<mapsto> count),
                environment_paths := (environment_paths r)(kind env \<mapsto>
                  unwrap_or (environment_paths r (kind env)) [] @ [env]),
                printed := (if print_list r then printed r @ [EnvironmentNote env] else printed r)\<rparr>)"

section \<open>What the cache reporter forwards\<close>

text \<open>A call of either report method.\<close>

fun report_call ::
  "(env_manager \<Rightarrow> 's \<Rightarrow> 's) \<Rightarrow> (python_environment \<Rightarrow> 's \<Rightarrow> 's) \<Rightarrow> notification \<Rightarrow> 's \<Rightarrow> 's" where
  "report_call rm re (ManagerNote m) s = rm m s"
| "report_call rm re (EnvironmentNote e) s = re e s"

definition cache_call ::
  "(env_manager \<Rightarrow> 's \<Rightarrow> 's) \<Rightarrow> (python_environment \<Rightarrow> 's \<Rightarrow> 's) \<Rightarrow> notification
   \<Rightarrow> 's cache_reporter \<Rightarrow> 's cache_reporter" where
  "cache_call rm re = report_call (cache_report_manager rm) (cache_report_environment re)"

text \<open>The calls that are the first of their key, with the keys seen so far.\<close>

fun first_notes ::
  "component list set \<Rightarrow> component list set \<Rightarrow> notification list \<Rightarrow> notification list" where
  "first_notes M E [] = []"
| "first_notes M E (ManagerNote m # ns) =
     (if manager_key m \<in> M then first_notes M E ns
      else ManagerNote m # first_notes (insert (manager_key m) M) E ns)"
| "first_notes M E (EnvironmentNote e # ns) =
     (case env_key e of
        None \<Rightarrow> first_notes M E ns
      | Some k \<Rightarrow> if k \<in> E then first_notes M E ns
                  else EnvironmentNote e # first_notes M (insert k E) ns)"

fun note_environments :: "notification list \<Rightarrow> python_environment list" where
  "note_environments [] = []"
| "note_environments (EnvironmentNote e # ns) = e # note_environments ns"
| "note_environments (ManagerNote m # ns) = note_environments ns"

fun note_managers :: "notification list \<Rightarrow> env_manager list" where
  "note_managers [] = []"
| "note_managers (EnvironmentNote e # ns) = note_managers ns"
| "note_managers (ManagerNote m # ns) = m # note_managers ns"

lemmas cache_defs =
  cache_report_manager_def cache_report_environment_def cache_manager_known_def
  cache_manager_insert_def cache_environment_known_def cache_environment_insert_def

text \<open>
  The answer of the test under the read lock cannot become wrong before the write lock is
  taken: keys are only ever added, and for a known key the second section does nothing.
\<close>

lemma cache_call_monotone:
  "dom (reported_managers c) \<subseteq> dom (reported_managers (cache_call rm re n c)) \<and>
   dom (reported_environments c) \<subseteq> dom (reported_environments (cache_call rm re n c))"
  by (cases n) (auto simp: cache_call_def cache_defs split: option.splits)

lemma cache_early_return:
  assumes "cache_environment_known k c" "dom (reported_environments c) \<subseteq> dom (reported_environments c')"
  shows "cache_environment_insert re k env c' = c'"
  using assms by (auto simp: cache_defs)

lemma cache_call_first:
  "wrapped (fold (cache_call rm re) ns c) =
   fold (report_call rm re)
     (first_notes (dom (reported_managers c)) (dom (reported_environments c)) ns) (wrapped c)"
proof (induction ns arbitrary: c)
  case (Cons n ns)
  show ?case
  proof (cases n)
    case (ManagerNote m)
    have "dom (reported_managers (cache_call rm re n c)) = insert (manager_key m) (dom (reported_managers c))"
      "dom (reported_environments (cache_call rm re n c)) = dom (reported_environments c)"
      using ManagerNote by (auto simp: cache_call_def cache_defs)
    with ManagerNote Cons.IH [of "cache_call rm re n c"] show ?thesis
      by (auto simp: cache_call_def cache_defs insert_absorb domIff)
  next
    case (EnvironmentNote e)
    show ?thesis
    proof (cases "env_key e")
      case None
      with EnvironmentNote Cons.IH [of c] show ?thesis by (simp add: cache_call_def cache_defs)
    next
      case (Some k)
      have "dom (reported_environments (cache_call rm re n c)) = insert k (dom (reported_environments c))"
        "dom (reported_managers (cache_call rm re n c)) = dom (reported_managers c)"
        using EnvironmentNote Some by (auto simp: cache_call_def cache_defs)
      with EnvironmentNote Some Cons.IH [of "cache_call rm re n c"] show ?thesis
        by (auto simp: cache_call_def cache_defs insert_absorb domIff)
    qed
  qed
qed simp

lemma first_notes_env_keys:
  "env_key ` set (note_environments (first_notes M E ns)) \<subseteq> Some ` (- E)"
proof (induction M E ns rule: first_notes.induct)
  case (3 M E e ns)
  then show ?case by (cases "env_key e"; simp; blast)
qed simp_all

lemma first_notes_envs: "distinct (map env_key (note_environments (first_notes M E ns)))"
proof (induction M E ns rule: first_notes.induct)
  case (3 M E e ns)
  show ?case
  proof (cases "env_key e")
    case (Some k)
    with 3 first_notes_env_keys [of M "insert k E" ns] show ?thesis by auto
  qed (use 3 in simp)
qed simp_all

lemma first_notes_mgr_keys:
  "manager_key ` set (note_managers (first_notes M E ns)) \<subseteq> - M"
proof (induction M E ns rule: first_notes.induct)
  case (2 M E m ns)
  then show ?case by (cases "manager_key m \<in> M"; simp; blast)
qed (simp_all split: option.split)

lemma first_notes_mgrs: "distinct (map manager_key (note_managers (first_notes M E ns)))"
proof (induction M E ns rule: first_notes.induct)
  case (2 M E m ns)
  with first_notes_mgr_keys [of "insert (manager_key m) M" E ns] show ?case by auto
qed (simp_all split: option.split)

lemma first_notes_complete:
  "EnvironmentNote e \<in> set ns \<Longrightarrow> env_key e = Some k \<Longrightarrow>
   k \<in> E \<or> Some k \<in> env_key ` set (note_environments (first_notes M E ns))"
proof (induction M E ns rule: first_notes.induct)
  case (2 M E m ns)
  then show ?case by (cases "manager_key m \<in> M") simp_all
next
  case (3 M E e' ns)
  show ?case
  proof (cases "env_key e'")
    case (Some k')
    show ?thesis
    proof (cases "k' \<in> E")
      case True
      with 3(2) [OF Some] 3(4,5) Some show ?thesis by auto
    next
      case False
      with 3(3) [OF Some] 3(4,5) Some show ?thesis by auto
    qed
  qed (use 3 in auto)
qed simp

lemma set_note_environments: "e \<in> set (note_environments ns) \<longleftrightarrow> EnvironmentNote e \<in> set ns"
  by (induction ns rule: note_environments.induct) auto

lemma first_notes_subset:
  "set (note_environments (first_notes M E ns)) \<subseteq> set (note_environments ns)"
proof (induction M E ns rule: first_notes.induct)
  case (3 M E e ns)
  then show ?case by (cases "env_key e"; simp; blast)
qed simp_all

section \<open>The contract of a reporter\<close>

text \<open>
  A call delivers its argument once or not at all and nothing else. Whatever reporter is
  wrapped, the cache reporter delivers no two environments of one key and no two managers of
  one executable, and it keeps the contract, as does the generation guard.
\<close>

locale reporter =
  fixes rep_mgr :: "env_manager \<Rightarrow> 's \<Rightarrow> 's"
    and rep_env :: "python_environment \<Rightarrow> 's \<Rightarrow> 's"
    and out_mgr :: "'s \<Rightarrow> env_manager list"
    and out_env :: "'s \<Rightarrow> python_environment list"
  assumes rep_mgr_out: "out_mgr (rep_mgr m s) = out_mgr s \<or> out_mgr (rep_mgr m s) = out_mgr s @ [m]"
    and rep_mgr_env: "out_env (rep_mgr m s) = out_env s"
    and rep_env_out: "out_env (rep_env e s) = out_env s \<or> out_env (rep_env e s) = out_env s @ [e]"
    and rep_env_mgr: "out_mgr (rep_env e s) = out_mgr s"
begin

lemma delivered_subseq:
  "\<exists>es ms. out_env (fold (report_call rep_mgr rep_env) ns s) = out_env s @ es \<and>
     subseq es (note_environments ns) \<and>
     out_mgr (fold (report_call rep_mgr rep_env) ns s) = out_mgr s @ ms \<and>
     subseq ms (note_managers ns)"
proof (induction ns arbitrary: s)
  case (Cons n ns)
  show ?case
  proof (cases n)
    case (ManagerNote m)
    with Cons.IH [of "rep_mgr m s"] rep_mgr_out [of m s] rep_mgr_env [of m s] show ?thesis
      by fastforce
  next
    case (EnvironmentNote e)
    with Cons.IH [of "rep_env e s"] rep_env_out [of e s] rep_env_mgr [of e s] show ?thesis
      by fastforce
  qed
qed simp

lemma cached_distinct:
  assumes "out_env s = []" "out_mgr s = []"
    and r_def: "r = wrapped (fold (cache_call rep_mgr rep_env) ns (cache_reporter_new s))"
  shows "distinct (map env_key (out_env r)) \<and> distinct (map manager_key (out_mgr r))"
proof -
  let ?first = "first_notes {} {} ns"
  have "r = fold (report_call rep_mgr rep_env) ?first s"
    by (simp add: r_def cache_call_first cache_reporter_new_def)
  with delivered_subseq [of ?first s] assms(1,2) have
    "subseq (out_env r) (note_environments ?first)" "subseq (out_mgr r) (note_managers ?first)"
    by auto
  then have "subseq (map env_key (out_env r)) (map env_key (note_environments ?first))"
    "subseq (map manager_key (out_mgr r)) (map manager_key (note_managers ?first))"
    by (simp_all add: subseq_map)
  with first_notes_envs [of "{}" "{}" ns] first_notes_mgrs [of "{}" "{}" ns] show ?thesis
    by (blast intro: subseq_distinct)
qed

text \<open>The decorators keep the contract.\<close>

lemma cached_reporter:
  "reporter (cache_report_manager rep_mgr) (cache_report_environment rep_env)
     (\<lambda>c. out_mgr (wrapped c)) (\<lambda>c. out_env (wrapped c))"
  by unfold_locales
    (use rep_mgr_out rep_mgr_env rep_env_out rep_env_mgr in \<open>auto simp: cache_defs split: option.splits\<close>)

lemma guarded_reporter:
  "reporter (guarded_report_manager gen rep_mgr) (guarded_report_environment gen rep_env)
     (\<lambda>r. out_mgr (grd_inner r)) (\<lambda>r. out_env (grd_inner r))"
  by unfold_locales
    (use rep_mgr_out rep_mgr_env rep_env_out rep_env_mgr in
      \<open>auto simp: guarded_report_manager_def guarded_report_environment_def report_if_current_def\<close>)

end

section \<open>The reporters of the program keep the contract\<close>

lemma note_append [simp]:
  "note_environments (xs @ ys) = note_environments xs @ note_environments ys"
  "note_managers (xs @ ys) = note_managers xs @ note_managers ys"
  by (induction xs rule: note_environments.induct) simp_all

interpretation json: reporter jsonrpc_report_manager "jsonrpc_report_environment report_only"
    note_managers note_environments for report_only
  by unfold_locales (simp_all add: jsonrpc_report_manager_def jsonrpc_report_environment_def)

interpretation json_guarded: reporter "guarded_report_manager gen jsonrpc_report_manager"
    "guarded_report_environment gen (jsonrpc_report_environment report_only)"
    "\<lambda>r. note_managers (grd_inner r)" "\<lambda>r. note_environments (grd_inner r)" for gen report_only
  by (rule json.guarded_reporter)

interpretation collect: reporter collect_report_manager collect_report_environment
    col_managers col_environments
  by unfold_locales (simp_all add: collect_report_manager_def collect_report_environment_def)

text \<open>The console reporter delivers to its per-kind lists; what it prints is a part of that.\<close>

interpretation stdio: reporter stdio_report_manager stdio_report_environment
    "\<lambda>r. note_managers (printed r)" "\<lambda>r. note_environments (printed r)"
  by unfold_locales (simp_all add: stdio_report_manager_def stdio_report_environment_def Let_def)

section \<open>The reporter of a refresh\<close>

text \<open>
  \<open>execute_refresh\<close> wraps the JSON-RPC reporter in the generation guard and that in the cache
  reporter. While it runs, configure requests may publish new configurations.
\<close>

datatype refresh_event = Reporting notification | Publishing configuration

type_synonym refresh_reporter = "notification list guarded_reporter cache_reporter"

definition refresh_reporter_new :: "configuration_state \<Rightarrow> notification list \<Rightarrow> refresh_reporter" where
  "refresh_reporter_new st out = cache_reporter_new \<lparr>grd_configuration = st, grd_inner = out\<rparr>"

fun refresh_event_step ::
  "generation \<Rightarrow> environment_kind option \<Rightarrow> refresh_event \<Rightarrow> refresh_reporter \<Rightarrow> refresh_reporter" where
  "refresh_event_step gen k (Reporting n) r =
     cache_call (guarded_report_manager gen jsonrpc_report_manager)
       (guarded_report_environment gen (jsonrpc_report_environment k)) n r"
| "refresh_event_step gen k (Publishing c) r =
     r\<lparr>wrapped := (wrapped r)\<lparr>grd_configuration :=
         \<lparr>generation = generation (grd_configuration (wrapped r)) + 1, config = c\<rparr>\<rparr>\<rparr>"

fun is_publishing :: "refresh_event \<Rightarrow> bool" where
  "is_publishing (Publishing c) \<longleftrightarrow> True"
| "is_publishing (Reporting n) \<longleftrightarrow> False"

fun sendable :: "environment_kind option \<Rightarrow> notification \<Rightarrow> bool" where
  "sendable k (EnvironmentNote e) \<longleftrightarrow> should_report_environment k e"
| "sendable k (ManagerNote m) \<longleftrightarrow> True"

lemma guarded_current:
  assumes "generation (grd_configuration r) = gen"
  shows "fold (report_call (guarded_report_manager gen jsonrpc_report_manager)
              (guarded_report_environment gen (jsonrpc_report_environment k))) ns r =
         r\<lparr>grd_inner := grd_inner r @ filter (sendable k) ns\<rparr>"
  using assms
proof (induction ns arbitrary: r)
  case (Cons n ns)
  show ?case
  proof (cases n)
    case (ManagerNote m)
    with Cons.prems Cons.IH [of "r\<lparr>grd_inner := grd_inner r @ [n]\<rparr>"] show ?thesis
      by (simp add: guarded_report_manager_def report_if_current_def jsonrpc_report_manager_def)
  next
    case (EnvironmentNote e)
    with Cons.prems Cons.IH [of r] Cons.IH [of "r\<lparr>grd_inner := grd_inner r @ [n]\<rparr>"] show ?thesis
      by (simp add: guarded_report_environment_def report_if_current_def jsonrpc_report_environment_def)
  qed
qed simp

lemma stale_step:
  assumes "generation (grd_configuration (wrapped r)) \<noteq> gen"
  shows "grd_inner (wrapped (refresh_event_step gen k ev r)) = grd_inner (wrapped r)"
    and "generation (grd_configuration (wrapped (refresh_event_step gen k ev r))) =
         generation (grd_configuration (wrapped r)) + (if is_publishing ev then 1 else 0)"
proof -
  show "grd_inner (wrapped (refresh_event_step gen k ev r)) = grd_inner (wrapped r)"
    by (cases "(gen, k, ev, r)" rule: refresh_event_step.cases; cases "case ev of Reporting n \<Rightarrow> n")
      (use assms in \<open>auto simp: cache_call_def cache_defs guarded_report_manager_def
        guarded_report_environment_def report_if_current_def split: option.splits\<close>)
  show "generation (grd_configuration (wrapped (refresh_event_step gen k ev r))) =
         generation (grd_configuration (wrapped r)) + (if is_publishing ev then 1 else 0)"
    by (cases "(gen, k, ev, r)" rule: refresh_event_step.cases; cases "case ev of Reporting n \<Rightarrow> n")
      (use assms in \<open>auto simp: cache_call_def cache_defs guarded_report_manager_def
        guarded_report_environment_def report_if_current_def split: option.splits\<close>)
qed

lemma of_nat_neq_zero: "0 < j \<Longrightarrow> j < 2 ^ 64 \<Longrightarrow> (of_nat j :: 64 word) \<noteq> 0"
  by (auto simp: word_of_nat_eq_0_iff dest: dvd_imp_le)

lemma stale_run:
  assumes "generation (grd_configuration (wrapped r)) = gen + of_nat j" "0 < j"
    and "j + length (filter is_publishing evs) < 2 ^ 64"
  shows "grd_inner (wrapped (fold (refresh_event_step gen k) evs r)) = grd_inner (wrapped r)"
  using assms
proof (induction evs arbitrary: r j)
  case (Cons ev evs)
  then have stale: "generation (grd_configuration (wrapped r)) \<noteq> gen"
    using of_nat_neq_zero [of j] by simp
  define j' where "j' = (if is_publishing ev then Suc j else j)"
  have "generation (grd_configuration (wrapped (refresh_event_step gen k ev r))) = gen + of_nat j'"
    using stale_step(2) [OF stale] Cons.prems(1) by (simp add: j'_def algebra_simps)
  moreover have "0 < j'" "j' + length (filter is_publishing evs) < 2 ^ 64"
    using Cons.prems by (auto simp: j'_def)
  ultimately show ?case using Cons.IH stale_step(1) [OF stale] by simp
qed simp

lemma reporting_run:
  assumes "generation (grd_configuration (wrapped r)) = gen" "list_all (\<lambda>e. \<not> is_publishing e) evs"
  shows "wrapped (fold (refresh_event_step gen k) evs r) = (wrapped r)\<lparr>grd_inner := grd_inner (wrapped r) @
     filter (sendable k) (first_notes (dom (reported_managers r)) (dom (reported_environments r))
       (map (\<lambda>e. case e of Reporting n \<Rightarrow> n) evs))\<rparr>"
proof -
  let ?f = "cache_call (guarded_report_manager gen jsonrpc_report_manager)
              (guarded_report_environment gen (jsonrpc_report_environment k))"
  have "fold (refresh_event_step gen k) evs r = fold ?f (map (\<lambda>e. case e of Reporting n \<Rightarrow> n) evs) r"
    using assms(2)
  proof (induction evs arbitrary: r)
    case (Cons e evs)
    then show ?case by (cases e) auto
  qed simp
  then show ?thesis by (simp add: cache_call_first guarded_current [OF assms(1)])
qed

lemma first_notes_key_set:
  "env_key ` set (note_environments (first_notes {} {} ns)) = env_key ` set (note_environments ns) - {None}"
proof
  show "env_key ` set (note_environments (first_notes {} {} ns)) \<subseteq>
      env_key ` set (note_environments ns) - {None}"
    using first_notes_env_keys [of "{}" "{}" ns] first_notes_subset [of "{}" "{}" ns] by blast
  show "env_key ` set (note_environments ns) - {None} \<subseteq>
      env_key ` set (note_environments (first_notes {} {} ns))"
  proof
    fix k assume "k \<in> env_key ` set (note_environments ns) - {None}"
    then obtain e k' where "EnvironmentNote e \<in> set ns" "env_key e = Some k'" "k = Some k'"
      by (auto simp: set_note_environments)
    then show "k \<in> env_key ` set (note_environments (first_notes {} {} ns))"
      using first_notes_complete [of e ns k' "{}" "{}"] by simp
  qed
qed

text \<open>The environments a refresh with a current configuration and no kind filter sends.\<close>

definition refresh_sent :: "configuration_state \<Rightarrow> notification list \<Rightarrow> python_environment list" where
  "refresh_sent st ns = note_environments (grd_inner (wrapped
       (fold (cache_call (guarded_report_manager (generation st) jsonrpc_report_manager)
                (guarded_report_environment (generation st) (jsonrpc_report_environment None))) ns
          (refresh_reporter_new st []))))"

lemma refresh_sent_first: "refresh_sent st ns = note_environments (first_notes {} {} ns)"
proof -
  have "filter (sendable None) xs = xs" for xs
    by (rule filter_True) (metis notification.exhaust sendable.simps should_report_environment_def option.simps(4))
  then show ?thesis
    by (simp add: refresh_sent_def cache_call_first refresh_reporter_new_def cache_reporter_new_def guarded_current)
qed

lemma refresh_sent_keys:
  "distinct (map env_key (refresh_sent st ns))"
  "env_key ` set (refresh_sent st ns) = env_key ` set (note_environments ns) - {None}"
  by (simp_all add: refresh_sent_first first_notes_envs first_notes_key_set)

section \<open>Properties\<close>

text \<open>C10: What a refresh tells the client. As long as its configuration is the published one, the
  notifications are exactly the first report of every environment key and of every manager
  executable, in order, less the environments of another kind than the one asked for; from the
  moment a newer configuration is published, nothing more is sent, whatever is reported.\<close>

theorem refresh_notifications:
  assumes "list_all (\<lambda>e. \<not> is_publishing e) evs"
    and "length (filter is_publishing later) < 2 ^ 64 - 1"
  shows "grd_inner (wrapped (fold (refresh_event_step (generation st) k)
           (evs @ Publishing c # later) (refresh_reporter_new st out))) =
         out @ filter (sendable k) (first_notes {} {} (map (\<lambda>e. case e of Reporting n \<Rightarrow> n) evs))"
proof -
  let ?step = "refresh_event_step (generation st) k"
  let ?r1 = "fold ?step evs (refresh_reporter_new st out)"
  have start: "generation (grd_configuration (wrapped (refresh_reporter_new st out))) = generation st"
    by (simp add: refresh_reporter_new_def cache_reporter_new_def)
  let ?sent = "out @ filter (sendable k) (first_notes {} {} (map (\<lambda>e. case e of Reporting n \<Rightarrow> n) evs))"
  have r1: "wrapped ?r1 = \<lparr>grd_configuration = st, grd_inner = ?sent\<rparr>"
    using reporting_run [OF start assms(1), of k] by (simp add: refresh_reporter_new_def cache_reporter_new_def)
  let ?r2 = "?step (Publishing c) ?r1"
  have "grd_inner (wrapped (fold ?step later ?r2)) = grd_inner (wrapped ?r2)"
    by (rule stale_run [where j = 1]) (use assms(2) in \<open>simp_all add: r1\<close>)
  then show ?thesis by (simp add: r1)
qed

definition note_env :: "string \<Rightarrow> environment_kind \<Rightarrow> refresh_event" where
  "note_env exe k = Reporting (EnvironmentNote (env_default\<lparr>executable := Some exe, kind := Some k\<rparr>))"

theorem refresh_notifications_witness:
  "map (\<lambda>n. case n of EnvironmentNote e \<Rightarrow> executable e)
     (grd_inner (wrapped (fold (refresh_event_step 5 (Some Venv))
        ([note_env ''/a'' Venv, note_env ''/a/'' Venv, note_env ''/b'' Conda, note_env ''/c'' Venv] @
         Publishing configuration_default # [note_env ''/d'' Venv])
        (refresh_reporter_new \<lparr>generation = 5, config = configuration_default\<rparr> [])))) =
   [Some ''/a'', Some ''/c'']"
  using refresh_notifications
    [of "[note_env ''/a'' Venv, note_env ''/a/'' Venv, note_env ''/b'' Conda, note_env ''/c'' Venv]"
        "[note_env ''/d'' Venv]" "\<lparr>generation = 5, config = configuration_default\<rparr>" "Some Venv"
        configuration_default "[]"]
  by (simp add: note_env_def env_key_def reporter_environment_key_def env_default_def components_def
      has_root_def comp_of_def should_report_environment_def)

text \<open>With no kind filter and a current configuration, a refresh notifies the client of every
  environment that has a key exactly once: the keys of the notified environments are distinct
  and are the keys of the environments reported to the cache reporter.\<close>

theorem refresh_reports_each_once:
  "let sent = refresh_sent st ns
   in distinct (map env_key sent) \<and> env_key ` set sent = env_key ` set (note_environments ns) - {None}"
  by (simp add: Let_def refresh_sent_keys)

end
