(* ===== verification/Tasks.thy ===== *)
theory Tasks
  imports Reporter
begin

text \<open>
  What a search does, seen from the reporter. A search is a tree of threads
  (\<open>thread::scope\<close> and \<open>spawn\<close>); its only effects are the calls of the reporter. A task is such
  a tree; its traces are the sequences of calls that the schedules of its threads can produce,
  each with a flag that says whether the task panicked: a sequence stops at the first task that
  panics, a scope runs all its threads to their end and then panics if one of them did.
\<close>

section \<open>Tasks and their traces\<close>

datatype task = Report notification | Abort string | Seq "task list" | Par "task list"

fun traces :: "task \<Rightarrow> (notification list \<times> bool) set" where
  "traces (Report n) = {([n], False)}"
| "traces (Abort m) = {([], True)}"
| "traces (Seq []) = {([], False)}"
| "traces (Seq (t # ts)) =
     (\<Union>(xs, p) \<in> traces t. if p then {(xs, True)} else (\<lambda>(ys, q). (xs @ ys, q)) ` traces (Seq ts))"
| "traces (Par []) = {([], False)}"
| "traces (Par (t # ts)) =
     (\<Union>(xs, p) \<in> traces t. \<Union>(ys, q) \<in> traces (Par ts). (\<lambda>zs. (zs, p \<or> q)) ` shuffles xs ys)"

text \<open>The specification: the calls of a task that runs all its parts one after the other.\<close>

fun task_notes :: "task \<Rightarrow> notification list" where
  "task_notes (Report n) = [n]"
| "task_notes (Abort m) = []"
| "task_notes (Seq ts) = concat (map task_notes ts)"
| "task_notes (Par ts) = concat (map task_notes ts)"

fun aborts :: "task \<Rightarrow> bool" where
  "aborts (Report n) \<longleftrightarrow> False"
| "aborts (Abort m) \<longleftrightarrow> True"
| "aborts (Seq ts) \<longleftrightarrow> list_ex aborts ts"
| "aborts (Par ts) \<longleftrightarrow> list_ex aborts ts"

section \<open>Lemmas\<close>

lemma mset_shuffles: "zs \<in> shuffles xs ys \<Longrightarrow> mset zs = mset xs + mset ys"
  by (induction xs ys arbitrary: zs rule: shuffles.induct) auto

lemma traces_SeqE:
  assumes "(zs, r) \<in> traces (Seq (t # ts))"
  obtains "r" and "(zs, True) \<in> traces t"
  | xs ys where "(xs, False) \<in> traces t" and "(ys, r) \<in> traces (Seq ts)" and "zs = xs @ ys"
  using assms by (auto split: if_splits)

lemma traces_ParE:
  assumes "(zs, r) \<in> traces (Par (t # ts))"
  obtains xs p ys q where "(xs, p) \<in> traces t" and "(ys, q) \<in> traces (Par ts)"
    and "zs \<in> shuffles xs ys" and "r = (p \<or> q)"
  using assms by auto

text \<open>A schedule in which nothing panics performs every call of the task exactly once, and the
  task has no call that panics.\<close>

lemma trace_complete:
  "(zs, False) \<in> traces t \<Longrightarrow> mset zs = mset (task_notes t) \<and> \<not> aborts t"
proof (induction t arbitrary: zs rule: traces.induct)
  case (4 t ts)
  from "4.prems" show ?case
  proof (cases rule: traces_SeqE)
    case (2 xs ys)
    with "4.IH" show ?thesis by fastforce
  qed simp
next
  case (6 t ts)
  from "6.prems" obtain xs ys where "(xs, False) \<in> traces t" "(ys, False) \<in> traces (Par ts)"
    and z: "zs \<in> shuffles xs ys" by (elim traces_ParE) auto
  with "6.IH" have "mset xs = mset (task_notes t) \<and> \<not> aborts t"
    and "mset ys = mset (task_notes (Par ts)) \<and> \<not> aborts (Par ts)" by fastforce+
  with mset_shuffles [OF z] show ?case by simp
qed auto

text \<open>A schedule that panics performs a part of the calls.\<close>

lemma trace_part: "(zs, p) \<in> traces t \<Longrightarrow> mset zs \<subseteq># mset (task_notes t)"
proof (induction t arbitrary: zs p rule: traces.induct)
  case (4 t ts)
  from "4.prems" show ?case
  proof (cases rule: traces_SeqE)
    case 1
    with "4.IH"(1) show ?thesis by (fastforce intro: subset_mset.trans [OF _ mset_subset_eq_add_left])
  next
    case (2 xs ys)
    with "4.IH" have "mset xs \<subseteq># mset (task_notes t)" "mset ys \<subseteq># mset (task_notes (Seq ts))" by fastforce+
    with 2 show ?thesis by (simp add: subset_mset.add_mono)
  qed
next
  case (6 t ts)
  from "6.prems" obtain xs q ys r where "(xs, q) \<in> traces t" "(ys, r) \<in> traces (Par ts)"
    and z: "zs \<in> shuffles xs ys" by (elim traces_ParE) auto
  with "6.IH" have "mset xs \<subseteq># mset (task_notes t)" "mset ys \<subseteq># mset (task_notes (Par ts))" by fastforce+
  with mset_shuffles [OF z] show ?case by (simp add: subset_mset.add_mono)
qed auto

text \<open>Every task has a schedule, and the one that runs the threads in order is one of them.\<close>

lemma append_in_shuffles: "xs @ ys \<in> shuffles xs ys"
  by (induction xs) (auto simp: Cons_in_shuffles_leftI)

lemma sequential_trace: "\<not> aborts t \<Longrightarrow> (task_notes t, False) \<in> traces t"
proof (induction t rule: traces.induct)
  case (4 t ts)
  then have "(task_notes t, False) \<in> traces t" "(task_notes (Seq ts), False) \<in> traces (Seq ts)" by auto
  then have "(task_notes t @ task_notes (Seq ts), False) \<in> traces (Seq (t # ts))" by force
  then show ?case by simp
next
  case (6 t ts)
  then have "(task_notes t, False) \<in> traces t" "(task_notes (Par ts), False) \<in> traces (Par ts)" by auto
  then show ?case
    using append_in_shuffles [of "task_notes t" "task_notes (Par ts)"] by (auto simp: image_iff)
qed auto

section \<open>What the client sees\<close>

lemma note_environments_mset:
  "mset xs = mset ys \<Longrightarrow> set (note_environments xs) = set (note_environments ys)"
  by (auto simp: set_note_environments dest: mset_eq_setD)

lemma trace_sent_keys:
  assumes "(zs, False) \<in> traces t"
  shows "distinct (map env_key (refresh_sent st zs))"
    and "env_key ` set (refresh_sent st zs) = env_key ` set (note_environments (task_notes t)) - {None}"
  using trace_complete [OF assms] note_environments_mset [of zs "task_notes t"]
  by (simp_all add: refresh_sent_keys)

end
