(* ===== verification/Pyvenv_Cfg.thy ===== *)
theory Pyvenv_Cfg
  imports Fs_Path
begin

text \<open>
  Reading of \<open>pyvenv.cfg\<close>, \<open>pet-core/src/pyvenv_cfg.rs\<close>, and \<open>PythonEnv::new\<close> of
  \<open>pet-core/src/env.rs\<close>, in their Unix configuration. The two regular expressions are written
  out as matchers on ASCII text. A number that does not fit 64 bits makes the parser panic, so
  the parsing functions return an \<open>outcome\<close>.
\<close>

section \<open>The code\<close>

record py_venv_cfg =
  cfg_version :: "string option"
  version_major :: "nat option"
  version_minor :: "nat option"
  cfg_prompt :: "string option"
  file_path :: path

text \<open>The start \<open>^key\s*=\s*\<close> of both expressions: what follows it.\<close>

definition match_key :: "string \<Rightarrow> string \<Rightarrow> string option" where
  "match_key key line =
     (case strip_prefix_str key line of
        None \<Rightarrow> None
      | Some rest \<Rightarrow>
          (case dropWhile is_space rest of
             [] \<Rightarrow> None
           | c # cs \<Rightarrow> if c = CHR ''='' then Some (dropWhile is_space cs) else None))"

text \<open>The digits \<open>\d+\<close> at the start of a text, and the rest.\<close>

definition match_digits :: "string \<Rightarrow> string option" where
  "match_digits s = (if takeWhile is_digit s = [] then None else Some (dropWhile is_digit s))"

definition match_char :: "char \<Rightarrow> string \<Rightarrow> string option" where
  "match_char c s = (case s of [] \<Rightarrow> None | x # xs \<Rightarrow> if x = c then Some xs else None)"

text \<open>The expression \<open>\d+\.\d+\.\d+\<close> at the start of a text: what follows it.\<close>

definition match_triple :: "string \<Rightarrow> string option" where
  "match_triple s =
     Option.bind (match_digits s) (\<lambda>r1. Option.bind (match_char (CHR ''.'') r1) (\<lambda>r2.
     Option.bind (match_digits r2) (\<lambda>r3. Option.bind (match_char (CHR ''.'') r3) match_digits)))"

text \<open>The first capture of \<open>VERSION\<close> and of \<open>VERSION_INFO\<close>.\<close>

definition match_version :: "string \<Rightarrow> string option" where
  "match_version line =
     Option.bind (match_key ''version'' line) (\<lambda>v. if match_triple v = Some [] then Some v else None)"

definition match_version_info :: "string \<Rightarrow> string option" where
  "match_version_info line =
     Option.bind (match_key ''version_info'' line) (\<lambda>v. if match_triple v \<noteq> None then Some v else None)"

definition parse_version :: "string \<Rightarrow> (string \<Rightarrow> string option) \<Rightarrow> (string \<times> nat \<times> nat) option outcome" where
  "parse_version line regex =
     (case regex line of
        None \<Rightarrow> Ret None
      | Some version \<Rightarrow>
          (case split_on (CHR ''.'') version of
             major # minor # rest \<Rightarrow>
               (case parse_unsigned (2 ^ 64) major of
                  None \<Rightarrow> Panic ''python major version to be an integer''
                | Some ma \<Rightarrow>
                    (case parse_unsigned (2 ^ 64) minor of
                       None \<Rightarrow> Panic ''python minor version to be an integer''
                     | Some mi \<Rightarrow> Ret (Some (version, ma, mi))))
           | _ \<Rightarrow> Ret None))"

text \<open>Quotes are stripped from either end, double quotes first.\<close>

definition parse_prompt :: "string \<Rightarrow> string option" where
  "parse_prompt line =
     (let trimmed = trim line
      in if prefix ''prompt'' trimmed
         then case str_find ''='' trimmed of
                None \<Rightarrow> None
              | Some i \<Rightarrow>
                  let n1 = trim (drop (i + 1) trimmed);
                      n2 = trim_start_matches (CHR 0x22) n1;
                      n3 = trim_end_matches (CHR 0x22) n2;
                      n4 = trim_start_matches (CHR 0x27) n3;
                      n5 = trim_end_matches (CHR 0x27) n4
                  in if n5 \<noteq> [] then Some n5 else None
         else None)"

type_synonym version_triple = "string \<times> nat \<times> nat"

text \<open>The loop over the lines, with the version and the prompt found so far.\<close>

fun parse_lines ::
  "version_triple option \<Rightarrow> string option \<Rightarrow> string list \<Rightarrow> (version_triple option \<times> string option) outcome" where
  "parse_lines version prompt [] = Ret (version, prompt)"
| "parse_lines version prompt (line # rest) =
     (let tail = (\<lambda>version. let prompt' = (if prompt = None then parse_prompt line else prompt)
                  in if version \<noteq> None \<and> prompt' \<noteq> None then Ret (version, prompt')
                     else parse_lines version prompt' rest)
      in if version = None
         then case parse_version line match_version of
                Panic m \<Rightarrow> Panic m
              | Ret (Some v) \<Rightarrow> parse_lines (Some v) prompt rest
              | Ret None \<Rightarrow>
                  (case parse_version line match_version_info of
                     Panic m \<Rightarrow> Panic m
                   | Ret (Some v) \<Rightarrow> parse_lines (Some v) prompt rest
                   | Ret None \<Rightarrow> tail None)
         else tail version)"

definition pyvenv_parse :: "file_system \<Rightarrow> path \<Rightarrow> py_venv_cfg option outcome" where
  "pyvenv_parse fs file =
     (case read_to_string fs file of
        None \<Rightarrow> Ret None
      | Some contents \<Rightarrow>
          (case parse_lines None None (lines contents) of
             Panic m \<Rightarrow> Panic m
           | Ret (Some (ver, major, minor), prompt) \<Rightarrow>
               Ret (Some \<lparr>cfg_version = Some ver, version_major = Some major, version_minor = Some minor,
                          cfg_prompt = prompt, file_path = file\<rparr>)
           | Ret (None, prompt) \<Rightarrow>
               Ret (Some \<lparr>cfg_version = None, version_major = None, version_minor = None,
                          cfg_prompt = prompt, file_path = file\<rparr>)))"

definition pyvenv_find_file :: "file_system \<Rightarrow> path \<Rightarrow> path option" where
  "pyvenv_find_file fs p =
     (let cfg = path_join p ''pyvenv.cfg''
      in if exists fs cfg then Some cfg
         else if path_ends_with p ''bin''
         then Option.bind (parent p) (\<lambda>q. let cfg = path_join q ''pyvenv.cfg''
                                        in if exists fs cfg then Some cfg else None)
         else None)"

definition pyvenv_find :: "file_system \<Rightarrow> path \<Rightarrow> py_venv_cfg option outcome" where
  "pyvenv_find fs p = (case pyvenv_find_file fs p of Some f \<Rightarrow> pyvenv_parse fs f | None \<Rightarrow> Ret None)"

section \<open>\<open>PythonEnv\<close>\<close>

record python_env =
  pe_executable :: path
  pe_prefix :: "path option"
  pe_version :: "string option"
  pe_symlinks :: "path list option"

definition python_env_new ::
  "file_system \<Rightarrow> path \<Rightarrow> path option \<Rightarrow> string option \<Rightarrow> python_env outcome" where
  "python_env_new fs exe pfx version =
     (let mk = (\<lambda>p. \<lparr>pe_executable = norm_case exe, pe_prefix = p, pe_version = version, pe_symlinks = None\<rparr>);
          dir = path_pop exe
      in case pfx of
           Some p \<Rightarrow> Ret (mk (Some (norm_case p)))
         | None \<Rightarrow>
             if path_ends_with dir ''Scripts'' \<or> path_ends_with dir ''bin''
             then case pyvenv_find fs (path_pop dir) of
                    Panic m \<Rightarrow> Panic m
                  | Ret (Some c) \<Rightarrow> Ret (mk (Some (path_pop dir)))
                  | Ret None \<Rightarrow> Ret (mk None)
             else Ret (mk None))"

section \<open>The first line of each kind decides\<close>

text \<open>What a line says about the version.\<close>

definition version_line :: "string \<Rightarrow> version_triple outcome option" where
  "version_line line =
     (case parse_version line match_version of
        Panic m \<Rightarrow> Some (Panic m)
      | Ret (Some v) \<Rightarrow> Some (Ret v)
      | Ret None \<Rightarrow>
          (case parse_version line match_version_info of
             Panic m \<Rightarrow> Some (Panic m)
           | Ret (Some v) \<Rightarrow> Some (Ret v)
           | Ret None \<Rightarrow> None))"

lemma trim_hd: "\<not> is_space c \<Longrightarrow> \<exists>t. trim (c # cs) = c # t"
proof -
  assume c: "\<not> is_space c"
  let ?s = "c # cs"
  have "rev (dropWhile is_space (rev cs @ [c])) = c # rev (dropWhile is_space (rev cs))"
    if "\<exists>x \<in> set cs. \<not> is_space x"
    using that by (simp add: dropWhile_append)
  moreover have "rev (dropWhile is_space (rev cs @ [c])) = [c]" if "\<forall>x \<in> set cs. is_space x"
    using that c by (subst dropWhile_append2) auto
  ultimately show ?thesis using c by (fastforce simp: trim_def trim_start_def trim_end_def)
qed

lemma version_line_prefix: "version_line line \<noteq> None \<Longrightarrow> prefix ''version'' line"
proof -
  assume v: "version_line line \<noteq> None"
  have "strip_prefix_str ''version'' line \<noteq> None \<or> strip_prefix_str ''version_info'' line \<noteq> None"
  proof (rule ccontr)
    assume "\<not> ?thesis"
    then have "match_version line = None" "match_version_info line = None"
      by (simp_all add: match_version_def match_version_info_def match_key_def)
    with v show False by (simp add: version_line_def parse_version_def)
  qed
  then show ?thesis by (auto simp: strip_prefix_str_def prefix_def split: if_splits)
qed

lemma version_line_no_prompt: "version_line line \<noteq> None \<Longrightarrow> parse_prompt line = None"
proof -
  assume "version_line line \<noteq> None"
  from version_line_prefix [OF this] obtain cs where line: "line = CHR ''v'' # cs" by (auto simp: prefix_def)
  have "\<not> is_space (CHR ''v'')" by (simp add: is_space_def)
  then obtain t where "trim line = CHR ''v'' # t" using trim_hd line by blast
  then show ?thesis by (simp add: parse_prompt_def Let_def)
qed

lemma parse_lines_version:
  "parse_lines (Some v) p ls = Ret (Some v, or_else p (find_map parse_prompt ls))"
proof (induction ls arbitrary: p)
  case (Cons l ls)
  then show ?case by (cases p; cases v; cases "parse_prompt l") (simp_all add: or_else_def Let_def)
qed (simp add: or_else_def split: option.splits)

lemma parse_lines_first:
  "parse_lines None p ls =
     (case find_map version_line ls of
        Some (Panic m) \<Rightarrow> Panic m
      | Some (Ret v) \<Rightarrow> Ret (Some v, or_else p (find_map parse_prompt ls))
      | None \<Rightarrow> Ret (None, or_else p (find_map parse_prompt ls)))"
proof (induction ls arbitrary: p)
  case (Cons l ls)
  show ?case
  proof (cases "version_line l")
    case None
    then have "parse_version l match_version = Ret None" "parse_version l match_version_info = Ret None"
      by (auto simp: version_line_def split: outcome.splits option.splits)
    with None Cons show ?thesis
      by (cases p; cases "parse_prompt l") (simp_all add: or_else_def Let_def split: option.split outcome.split)
  next
    case (Some r)
    with version_line_no_prompt [of l] show ?thesis
      by (auto simp: version_line_def parse_lines_version split: outcome.splits option.splits)
  qed
qed (simp add: or_else_def split: option.splits)

section \<open>Reading back what is written\<close>

definition version_text :: "nat \<Rightarrow> nat \<Rightarrow> nat \<Rightarrow> string" where
  "version_text a b c = show_nat a @ ''.'' @ show_nat b @ ''.'' @ show_nat c"

lemma match_digits_show: "\<not> is_digit (hd rest) \<or> rest = [] \<Longrightarrow> match_digits (show_nat n @ rest) = Some rest"
proof -
  assume r: "\<not> is_digit (hd rest) \<or> rest = []"
  then have "takeWhile is_digit rest = []" "dropWhile is_digit rest = rest" by (cases rest; auto)+
  then have "takeWhile is_digit (show_nat n @ rest) = show_nat n" "dropWhile is_digit (show_nat n @ rest) = rest"
    using show_nat_digits [of n] by (simp_all add: list_all_iff takeWhile_append2 dropWhile_append2)
  then show ?thesis using show_nat_ne [of n] by (simp add: match_digits_def)
qed

lemma match_triple_text:
  "\<not> is_digit (hd rest) \<or> rest = [] \<Longrightarrow> match_triple (version_text a b c @ rest) = Some rest"
  by (simp add: match_triple_def version_text_def match_digits_show match_char_def is_digit_def)

lemma match_key_spaced:
  assumes "list_all is_space ws" "list_all is_space ws'" "v = [] \<or> \<not> is_space (hd v)"
  shows "match_key key (key @ ws @ ''='' @ ws' @ v) = Some v"
proof -
  have d: "dropWhile is_space (ws @ u) = u" if "list_all is_space ws" "u = [] \<or> \<not> is_space (hd u)" for ws u
    using that by (induction ws) (auto simp: dropWhile_eq_self_iff)
  have "\<not> is_space (CHR ''='')" by (simp add: is_space_def)
  with assms d show ?thesis by (simp add: match_key_def strip_prefix_str_def)
qed

lemma split_version_text:
  "\<exists>rest'. split_on (CHR ''.'') (version_text a b c @ rest) = show_nat a # show_nat b # rest'"
proof -
  have "CHR ''.'' \<notin> set (show_nat n)" for n
    using show_nat_digits [of n] by (auto simp: list_all_iff is_digit_def)
  then show ?thesis
    using split_on_append_sep [of "CHR ''.''" "show_nat a" "show_nat b @ ''.'' @ show_nat c @ rest"]
      split_on_append_sep [of "CHR ''.''" "show_nat b" "show_nat c @ rest"]
    by (simp add: version_text_def split_on_no_sep)
qed

lemma parse_unsigned_overflow: "bound \<le> n \<Longrightarrow> parse_unsigned bound (show_nat n) = None"
proof -
  assume "bound \<le> n"
  moreover obtain c cs where "show_nat n = c # cs" "is_digit c"
    using show_nat_ne [of n] show_nat_digits [of n] by (cases "show_nat n") auto
  ultimately show ?thesis
    using digits_value_show_nat [of n] digit_facts [of c] by (simp add: parse_unsigned_def)
qed

lemma parse_version_text:
  assumes "regex line = Some (version_text a b c @ rest)"
  shows "parse_version line regex =
    (if 2 ^ 64 \<le> a then Panic ''python major version to be an integer''
     else if 2 ^ 64 \<le> b then Panic ''python minor version to be an integer''
     else Ret (Some (version_text a b c @ rest, a, b)))"
proof -
  obtain rest' where "split_on (CHR ''.'') (version_text a b c @ rest) = show_nat a # show_nat b # rest'"
    using split_version_text by blast
  with assms show ?thesis
    using parse_unsigned_show_nat [of a "2 ^ 64"] parse_unsigned_show_nat [of b "2 ^ 64"]
      parse_unsigned_overflow [of "2 ^ 64" a] parse_unsigned_overflow [of "2 ^ 64" b]
    by (simp add: parse_version_def)
qed

lemma version_text_hd: "is_digit (hd (version_text a b c @ rest))"
  using show_nat_ne [of a] show_nat_digits [of a]
  by (cases "show_nat a") (auto simp: version_text_def)

section \<open>Properties\<close>

text \<open>Of a readable \<open>pyvenv.cfg\<close> the first line that has a version decides the version, a
  panic when its numbers do not fit 64 bits included, and the first line that has a prompt the
  prompt; without a version line the file is accepted without version. Stopping early when both
  are known changes nothing.\<close>

theorem pyvenv_parse_first:
  assumes "read_to_string fs file = Some contents"
  shows "pyvenv_parse fs file =
    (let prompt = find_map parse_prompt (lines contents)
     in case find_map version_line (lines contents) of
          Some (Panic m) \<Rightarrow> Panic m
        | Some (Ret (ver, major, minor)) \<Rightarrow>
            Ret (Some \<lparr>cfg_version = Some ver, version_major = Some major, version_minor = Some minor,
                       cfg_prompt = prompt, file_path = file\<rparr>)
        | None \<Rightarrow>
            Ret (Some \<lparr>cfg_version = None, version_major = None, version_minor = None,
                       cfg_prompt = prompt, file_path = file\<rparr>))"
  using assms
  by (auto simp: pyvenv_parse_def parse_lines_first or_else_def Let_def split: option.splits outcome.splits)

definition text_fs :: "(path \<times> string) list \<Rightarrow> file_system" where
  "text_fs fs = (plain_fs (map fst fs) [])\<lparr>read_to_string := map_of fs\<rparr>"

theorem pyvenv_parse_first_witness:
  "pyvenv_parse (text_fs [(''/v/pyvenv.cfg'', ''home = /usr'' @ [CHR 0x0A] @ ''prompt = my'' @ [CHR 0x0A])]) ''/v/pyvenv.cfg'' =
   Ret (Some \<lparr>cfg_version = None, version_major = None, version_minor = None,
     cfg_prompt = Some ''my'', file_path = ''/v/pyvenv.cfg''\<rparr>)"
proof -
  let ?fs = "text_fs [(''/v/pyvenv.cfg'', ''home = /usr'' @ [CHR 0x0A] @ ''prompt = my'' @ [CHR 0x0A])]"
  have r: "read_to_string ?fs ''/v/pyvenv.cfg'' = Some (''home = /usr'' @ [CHR 0x0A] @ ''prompt = my'' @ [CHR 0x0A])"
    by (simp add: text_fs_def)
  have "find_map version_line (lines (''home = /usr'' @ [CHR 0x0A] @ ''prompt = my'' @ [CHR 0x0A])) = None"
    by (simp add: lines_def strip_cr_def version_line_def parse_version_def match_version_def
        match_version_info_def match_key_def strip_prefix_str_def)
  moreover have "find_map parse_prompt (lines (''home = /usr'' @ [CHR 0x0A] @ ''prompt = my'' @ [CHR 0x0A])) = Some ''my''"
    by (simp add: lines_def strip_cr_def parse_prompt_def Let_def trim_def trim_start_def trim_end_def
        is_space_def trim_start_matches_def trim_end_matches_def)
  ultimately show ?thesis using pyvenv_parse_first [OF r] by (simp add: Let_def)
qed

text \<open>C16: A \<open>version\<close> or \<open>version_info\<close> line with any white space around the equals sign is read back:
  the version is the text written, with its major and minor numbers; a major or minor number
  of \<open>2 ^ 64\<close> or more makes the parser panic instead of ignoring the line.\<close>

theorem version_line_written:
  assumes "list_all is_space ws" "list_all is_space ws'"
    and "key = ''version'' \<and> rest = [] \<or> key = ''version_info'' \<and> (rest = [] \<or> \<not> is_digit (hd rest))"
  shows "version_line (key @ ws @ ''='' @ ws' @ version_text a b c @ rest) =
    Some (if 2 ^ 64 \<le> a then Panic ''python major version to be an integer''
          else if 2 ^ 64 \<le> b then Panic ''python minor version to be an integer''
          else Ret (version_text a b c @ rest, a, b))"
proof -
  let ?v = "version_text a b c @ rest" and ?line = "key @ ws @ ''='' @ ws' @ version_text a b c @ rest"
  have key: "match_key key ?line = Some ?v"
    using assms(1,2) version_text_hd [of a b c rest] by (intro match_key_spaced) (auto dest: digit_facts)
  have triple: "match_triple ?v = Some rest" using assms(3) by (intro match_triple_text) auto
  show ?thesis
  proof (cases "key = ''version''")
    case True
    with assms(3) key triple have "match_version ?line = Some ?v" by (simp add: match_version_def)
    from parse_version_text [of match_version, OF this] show ?thesis by (simp add: version_line_def)
  next
    case False
    with assms(3) have k: "key = ''version_info''" by simp
    have "match_key ''version'' ?line = None"
      by (simp add: k match_key_def strip_prefix_str_def is_space_def)
    then have n: "parse_version ?line match_version = Ret None"
      by (simp add: match_version_def parse_version_def)
    from key triple k have "match_version_info ?line = Some ?v" by (simp add: match_version_info_def)
    from parse_version_text [of match_version_info, OF this] n show ?thesis by (simp add: version_line_def)
  qed
qed

theorem version_line_written_witness:
  "version_line (''version_info'' @ '' '' @ ''='' @ '' '' @ version_text 3 11 4 @ ''.final.0'') =
   Some (Ret (version_text 3 11 4 @ ''.final.0'', 3, 11))"
  using version_line_written [of "'' ''" "'' ''" "''version_info''" "''.final.0''" 3 11 4]
  by (simp add: is_space_def is_digit_def)

text \<open>An executable in a \<open>bin\<close> or \<open>Scripts\<close> directory gets the directory above as its prefix
  exactly when that directory has a readable \<open>pyvenv.cfg\<close>; a prefix that is given is kept.\<close>

theorem python_env_prefix:
  assumes "python_env_new fs exe pfx version = Ret env"
  shows "pe_executable env = norm_case exe \<and> pe_version env = version \<and> pe_symlinks env = None \<and>
    pe_prefix env =
      (case pfx of
         Some p \<Rightarrow> Some (norm_case p)
       | None \<Rightarrow>
           if (path_ends_with (path_pop exe) ''Scripts'' \<or> path_ends_with (path_pop exe) ''bin'') \<and>
              pyvenv_find fs (path_pop (path_pop exe)) \<noteq> Ret None
           then Some (path_pop (path_pop exe)) else None)"
  using assms
  by (auto simp: python_env_new_def Let_def split: option.splits if_splits outcome.splits)

theorem python_env_prefix_witness:
  "\<exists>env. python_env_new (text_fs [(''/v/pyvenv.cfg'', ''home = x'')]) ''/v/bin/python'' None None = Ret env \<and>
     pe_prefix env = Some ''/v''"
proof -
  let ?fs = "text_fs [(''/v/pyvenv.cfg'', ''home = x'')]"
  have f: "pyvenv_find ?fs ''/v'' = Ret (Some \<lparr>cfg_version = None, version_major = None, version_minor = None,
      cfg_prompt = None, file_path = ''/v/pyvenv.cfg''\<rparr>)"
    by (simp add: pyvenv_find_def pyvenv_find_file_def path_join_def has_root_def text_fs_def plain_fs_def
        path_contains_iff pyvenv_parse_def lines_def parse_version_def match_version_def
        match_version_info_def match_key_def strip_prefix_str_def parse_prompt_def Let_def trim_def
        trim_start_def trim_end_def is_space_def)
  have p: "path_pop ''/v/bin/python'' = ''/v/bin''" "path_pop ''/v/bin'' = ''/v''"
    by (simp_all add: path_pop_def parent_def trim_segments_def Let_def)
  have e: "path_ends_with ''/v/bin'' ''bin''"
    by (simp add: path_ends_with_def components_def has_root_def comp_of_def suffix_def)
  from f p e obtain env where env: "python_env_new ?fs ''/v/bin/python'' None None = Ret env"
    by (simp add: python_env_new_def)
  from python_env_prefix [OF env] f p e env show ?thesis by simp
qed

end
