(* ===== verification/Executables.thy ===== *)
theory Executables
  imports Pyvenv_Cfg
begin

text \<open>
  Python executables on disk, \<open>pet-python-utils/src/executable.rs\<close>, in its Unix configuration:
  which file names are interpreters, which directories are searched, and the search of an
  environment directory with and without broken links.
\<close>

section \<open>The code\<close>

definition is_broken_symlink :: "file_system \<Rightarrow> path \<Rightarrow> bool" where
  "is_broken_symlink fs p \<longleftrightarrow> symlink_metadata fs p = Some Symlink \<and> \<not> exists fs p"

datatype executable_result = Found path | Broken path | NotFound

definition executable_candidates :: "path \<Rightarrow> path list" where
  "executable_candidates env_path =
     [path_join (path_join env_path ''bin'') ''python'', path_join (path_join env_path ''bin'') ''python3'',
      path_join env_path ''python'', path_join env_path ''python3'']"

definition find_executable :: "file_system \<Rightarrow> path \<Rightarrow> path option" where
  "find_executable fs env_path = List.find (is_file fs) (executable_candidates env_path)"

definition find_executable_or_broken :: "file_system \<Rightarrow> path \<Rightarrow> executable_result" where
  "find_executable_or_broken fs env_path =
     (case List.find (is_file fs) (executable_candidates env_path) of
        Some p \<Rightarrow> Found p
      | None \<Rightarrow>
          (case List.find (is_broken_symlink fs) (executable_candidates env_path) of
             Some p \<Rightarrow> Broken p
           | None \<Rightarrow> NotFound))"

text \<open>The expression \<open>(\d+\.?)*\<close> for a whole text.\<close>

fun digit_groups :: "string \<Rightarrow> bool" and after_digit :: "string \<Rightarrow> bool" where
  "digit_groups [] \<longleftrightarrow> True"
| "digit_groups (c # cs) \<longleftrightarrow> is_digit c \<and> after_digit cs"
| "after_digit [] \<longleftrightarrow> True"
| "after_digit (c # cs) \<longleftrightarrow> (if is_digit c then after_digit cs else c = CHR ''.'' \<and> digit_groups cs)"

text \<open>The group \<open>((\d+\.?)*)\<close> between a literal and a slash, at the start of a text.\<close>

definition groups_after :: "string \<Rightarrow> string \<Rightarrow> string option" where
  "groups_after literal s =
     Option.bind (strip_prefix_str literal s) (\<lambda>r.
       let v = takeWhile (\<lambda>c. c \<noteq> CHR ''/'') r
       in if digit_groups v \<and> CHR ''/'' \<in> set r then Some v else None)"

text \<open>\<open>UNIX_EXE\<close>: the expression \<open>python(\d+\.?)*$\<close> has no anchor at the start.\<close>

definition unix_exe_match :: "string \<Rightarrow> bool" where
  "unix_exe_match name \<longleftrightarrow>
     list_ex (\<lambda>t. case strip_prefix_str ''python'' t of Some r \<Rightarrow> digit_groups r | None \<Rightarrow> False) (suffixes name)"

definition is_python_executable_name :: "path \<Rightarrow> bool" where
  "is_python_executable_name exe =
     (let name = to_lowercase (unwrap_or (file_name exe) [])
      in if \<not> prefix ''python'' name then False else unix_exe_match name)"

definition is_pyenv_shims_dir :: "path \<Rightarrow> bool" where
  "is_pyenv_shims_dir p =
     (if \<not> path_ends_with p ''shims'' then False
      else case parent p of
             None \<Rightarrow> False
           | Some q \<Rightarrow> (case file_name q of None \<Rightarrow> False | Some n \<Rightarrow> str_contains ''pyenv'' (to_lowercase n)))"

definition find_executables :: "file_system \<Rightarrow> path \<Rightarrow> path list" where
  "find_executables fs env_path =
     (if is_pyenv_shims_dir env_path then []
      else let dir = (if exists fs (path_join env_path ''bin'') then path_join env_path ''bin'' else env_path)
           in path_sort
                (if exists fs (path_join dir ''python'') \<or> exists fs (path_join dir ''python3'')
                    \<or> path_ends_with dir ''bin''
                 then case read_dir fs dir of
                        None \<Rightarrow> []
                      | Some entries \<Rightarrow> filter (\<lambda>f. is_file fs f \<and> is_python_executable_name f) entries
                 else []))"

definition folders_to_ignore :: "string list" where
  "folders_to_ignore =
     [''node_modules'', ''.cargo'', ''.devcontainer'', ''.github'', ''.git'', ''.tox'', ''.nox'',
      ''.hypothesis'', ''.ipynb_checkpoints'', ''.eggs'', ''.coverage'', ''.cache'', ''.pyre'',
      ''.ptype'', ''.pytest_cache'', ''.vscode'', ''__pycache__'', ''__pypackages__'',
      ''.mypy_cache'', ''cython_debug'', ''env.bak'', ''venv.bak'', ''Scripts'', ''bin'']"

definition should_search_for_environments_in_path :: "path \<Rightarrow> bool" where
  "should_search_for_environments_in_path p \<longleftrightarrow>
     \<not> list_ex (\<lambda>folder. path_ends_with p folder) folders_to_ignore"

section \<open>Lemmas\<close>

lemma find_executable_mem:
  "find_executable fs d = Some p \<Longrightarrow> p \<in> set (executable_candidates d) \<and> is_file fs p"
  by (auto simp: find_executable_def find_Some_iff)

lemma find_executable_None:
  "find_executable fs d = None \<longleftrightarrow> (\<forall>p \<in> set (executable_candidates d). \<not> is_file fs p)"
  by (auto simp: find_executable_def find_None_iff)

text \<open>The search that also reports broken links extends the plain search.\<close>

lemma find_executable_or_broken_cases:
  "find_executable_or_broken fs d =
     (case find_executable fs d of
        Some p \<Rightarrow> Found p
      | None \<Rightarrow> (case List.find (is_broken_symlink fs) (executable_candidates d) of
                  Some p \<Rightarrow> Broken p | None \<Rightarrow> NotFound))"
  by (simp add: find_executable_or_broken_def find_executable_def)

lemma unix_exe_match_iff:
  "unix_exe_match name \<longleftrightarrow> (\<exists>u r. name = u @ ''python'' @ r \<and> digit_groups r)"
proof -
  have "(case strip_prefix_str ''python'' t of Some r \<Rightarrow> digit_groups r | None \<Rightarrow> False) \<longleftrightarrow>
      (\<exists>r. t = ''python'' @ r \<and> digit_groups r)" for t
    unfolding strip_prefix_str_Some [symmetric] by (cases "strip_prefix_str ''python'' t") simp_all
  then have "unix_exe_match name \<longleftrightarrow> (\<exists>t. suffix t name \<and> (\<exists>r. t = ''python'' @ r \<and> digit_groups r))"
    by (simp only: unix_exe_match_def list_ex_iff set_suffixes_eq mem_Collect_eq Bex_def)
  then show ?thesis unfolding suffix_def by blast
qed

lemma digit_groups_digits: "list_all is_digit ds \<Longrightarrow> digit_groups ds \<and> after_digit ds"
  by (induction ds) auto

lemma digit_groups_dot: "list_all is_digit ds \<Longrightarrow> ds \<noteq> [] \<Longrightarrow> digit_groups r \<Longrightarrow> digit_groups (ds @ CHR ''.'' # r)"
proof -
  have "list_all is_digit ds \<Longrightarrow> digit_groups r \<Longrightarrow> after_digit (ds @ CHR ''.'' # r)" for ds
    by (induction ds) (auto simp: is_digit_def)
  then show "list_all is_digit ds \<Longrightarrow> ds \<noteq> [] \<Longrightarrow> digit_groups r \<Longrightarrow> digit_groups (ds @ CHR ''.'' # r)"
    by (cases ds) auto
qed

lemma digit_groups_chars: "digit_groups r \<Longrightarrow> set r \<subseteq> {c. is_digit c \<or> c = CHR ''.''}"
  and after_digit_chars: "after_digit r \<Longrightarrow> set r \<subseteq> {c. is_digit c \<or> c = CHR ''.''}"
  by (induction r and r rule: digit_groups_after_digit.induct) (auto split: if_splits)

text \<open>What the search that reports broken links means: a candidate that is a file wins over a broken
  link, and a broken link is only reported when no candidate is a file.\<close>

lemma find_executable_or_broken_spec:
  "case find_executable_or_broken fs d of
     Found p \<Rightarrow> find_executable fs d = Some p
   | Broken p \<Rightarrow> find_executable fs d = None \<and> p \<in> set (executable_candidates d) \<and> is_broken_symlink fs p
   | NotFound \<Rightarrow> find_executable fs d = None \<and>
       (\<forall>p \<in> set (executable_candidates d). \<not> is_broken_symlink fs p)"
  by (auto simp: find_executable_or_broken_cases find_None_iff find_Some_iff
      split: option.splits executable_result.splits)

lemma mem_enumerated:
  "p \<in> set (if C then (case read_dir fs dir of None \<Rightarrow> []
        | Some es \<Rightarrow> filter (\<lambda>f. is_file fs f \<and> is_python_executable_name f) es) else []) \<longleftrightarrow>
   C \<and> (\<exists>es. read_dir fs dir = Some es \<and> p \<in> set es) \<and> is_file fs p \<and> is_python_executable_name p"
  by (cases "read_dir fs dir"; cases C) simp_all

lemma path_sort_facts: "sorted (map components (path_sort ps))" "set (path_sort ps) = set ps"
  by (simp_all add: path_sort_def)

lemma find_executable_components:
  assumes "find_executable fs p = Some exe" shows "\<exists>cs. components exe = components p @ cs"
proof -
  from assms have "exe \<in> set (executable_candidates p)" by (auto simp: find_executable_def find_Some_iff)
  then show ?thesis by (auto simp: executable_candidates_def path_simps simple_name_def)
qed

section \<open>Properties\<close>

text \<open>A file is taken for an interpreter exactly when its lower-case name starts with \<open>python\<close>
  and ends with \<open>python\<close> followed by groups of digits separated by single dots: \<open>python\<close>,
  \<open>python3\<close> and \<open>python3.12\<close>, but also any name in which the two occurrences differ.\<close>

theorem is_python_executable_name_iff:
  "is_python_executable_name exe \<longleftrightarrow>
     (\<exists>name u r. file_name exe = Some name \<and> prefix ''python'' (to_lowercase name) \<and>
        to_lowercase name = u @ ''python'' @ r \<and> digit_groups r)"
proof (cases "file_name exe")
  case None
  then show ?thesis by (simp add: is_python_executable_name_def to_lowercase_def)
next
  case (Some n)
  then show ?thesis by (auto simp: is_python_executable_name_def Let_def unix_exe_match_iff)
qed

text \<open>What the search of a directory returns: nothing for the shims of pyenv; otherwise, in
  order, exactly the entries of its \<open>bin\<close> directory, or of itself if it has none, that are
  files with an interpreter name, provided that directory is a \<open>bin\<close> directory or has a
  \<open>python\<close> or \<open>python3\<close>.\<close>

theorem find_executables_spec:
  "sorted (map components (find_executables fs d)) \<and>
   (p \<in> set (find_executables fs d) \<longleftrightarrow>
      \<not> is_pyenv_shims_dir d \<and>
      (let dir = (if exists fs (path_join d ''bin'') then path_join d ''bin'' else d)
       in (exists fs (path_join dir ''python'') \<or> exists fs (path_join dir ''python3'') \<or> path_ends_with dir ''bin'') \<and>
          (\<exists>es. read_dir fs dir = Some es \<and> p \<in> set es) \<and> is_file fs p \<and> is_python_executable_name p))"
proof -
  have "p \<in> set (find_executables fs d) \<longleftrightarrow>
      \<not> is_pyenv_shims_dir d \<and>
      (let dir = (if exists fs (path_join d ''bin'') then path_join d ''bin'' else d)
       in (exists fs (path_join dir ''python'') \<or> exists fs (path_join dir ''python3'') \<or> path_ends_with dir ''bin'') \<and>
          (\<exists>es. read_dir fs dir = Some es \<and> p \<in> set es) \<and> is_file fs p \<and> is_python_executable_name p)"
  proof (cases "is_pyenv_shims_dir d")
    case False
    then show ?thesis
      unfolding find_executables_def Let_def path_sort_facts(2) mem_enumerated if_not_P [OF False] by blast
  qed (simp add: find_executables_def)
  moreover have "sorted (map components (find_executables fs d))"
    unfolding find_executables_def Let_def
    using path_sort_facts(1) by (cases "is_pyenv_shims_dir d") simp_all
  ultimately show ?thesis by blast
qed

end
