(* ===== verification/Versions.thy ===== *)
theory Versions
  imports Executables
begin

text \<open>
  The version of an installation from its files, without running it: \<open>build-details.json\<close>
  (\<open>pet-python-utils/src/build_details.rs\<close>), \<open>patchlevel.h\<close> (\<open>headers.rs\<close>) and the order in
  which they are asked (\<open>version.rs\<close>), in their Unix configuration. Decoding of the JSON file
  is \<open>serde_json\<close> and an argument.
\<close>

section \<open>\<open>build-details.json\<close>\<close>

record version_info =
  vi_major :: nat
  vi_minor :: nat
  vi_micro :: nat
  releaselevel :: string
  serial :: nat

record build_details =
  schema_version :: string
  bd_version_info :: version_info

definition version_string :: "build_details \<Rightarrow> string" where
  "version_string bd =
     (let v = bd_version_info bd;
          suffix = (if releaselevel v = ''alpha'' then ''a'' @ show_nat (serial v)
                    else if releaselevel v = ''beta'' then ''b'' @ show_nat (serial v)
                    else if releaselevel v = ''candidate'' then ''rc'' @ show_nat (serial v)
                    else [])
      in show_nat (vi_major v) @ ''.'' @ show_nat (vi_minor v) @ ''.'' @ show_nat (vi_micro v) @ suffix)"

definition is_supported_schema :: "string \<Rightarrow> bool" where
  "is_supported_schema v \<longleftrightarrow> hd (split_on (CHR ''.'') v) = ''1''"

definition build_details_parse ::
  "(string \<Rightarrow> build_details option) \<Rightarrow> file_system \<Rightarrow> path \<Rightarrow> build_details option" where
  "build_details_parse decode fs file =
     (case read_to_string fs file of
        None \<Rightarrow> None
      | Some contents \<Rightarrow>
          (case decode contents of
             None \<Rightarrow> None
           | Some bd \<Rightarrow> if is_supported_schema (schema_version bd) then Some bd else None))"

definition strip_bin :: "path \<Rightarrow> path" where
  "strip_bin p =
     (case file_name p of
        Some n \<Rightarrow>
          if eq_ignore_ascii_case n ''bin'' \<or> eq_ignore_ascii_case n ''Scripts''
          then (case parent p of Some q \<Rightarrow> q | None \<Rightarrow> p) else p
      | None \<Rightarrow> p)"

text \<open>\<open>STDLIB_DIRNAME\<close>, the expression \<open>^(python|pypy)(\d+)\.(\d+)t?$\<close>: its second and third group.\<close>

definition match_numbers :: "string \<Rightarrow> (string \<times> string) option" where
  "match_numbers s =
     (let major = takeWhile is_digit s; rest = dropWhile is_digit s
      in case rest of
           [] \<Rightarrow> None
         | c # cs \<Rightarrow>
             let minor = takeWhile is_digit cs; tl = dropWhile is_digit cs
             in if major \<noteq> [] \<and> c = CHR ''.'' \<and> minor \<noteq> [] \<and> (tl = [] \<or> tl = ''t'')
                then Some (major, minor) else None)"

definition match_stdlib :: "string \<Rightarrow> (string \<times> string) option" where
  "match_stdlib name =
     or_else (Option.bind (strip_prefix_str ''python'' name) match_numbers)
             (Option.bind (strip_prefix_str ''pypy'' name) match_numbers)"

text \<open>What an entry of \<open>lib\<close> offers: a version and a file; numbers over 64 bits panic.\<close>

definition stdlib_candidate :: "file_system \<Rightarrow> path \<Rightarrow> (nat \<times> nat \<times> path) option outcome" where
  "stdlib_candidate fs p =
     (if \<not> is_dir fs p then Ret None
      else case Option.bind (file_name p) match_stdlib of
             None \<Rightarrow> Ret None
           | Some (major, minor) \<Rightarrow>
               if \<not> is_file fs (path_join p ''build-details.json'') then Ret None
               else case (parse_unsigned (2 ^ 64) major, parse_unsigned (2 ^ 64) minor) of
                      (Some ma, Some mi) \<Rightarrow> Ret (Some (ma, mi, path_join p ''build-details.json''))
                    | _ \<Rightarrow> Panic ''called `Result::unwrap()` on an `Err` value'')"

definition newer :: "nat \<times> nat \<times> path \<Rightarrow> nat \<times> nat \<times> path \<Rightarrow> bool" where
  "newer a b \<longleftrightarrow> fst a > fst b \<or> fst a = fst b \<and> fst (snd a) > fst (snd b)"

fun best_stdlib ::
  "file_system \<Rightarrow> path list \<Rightarrow> (nat \<times> nat \<times> path) option \<Rightarrow> (nat \<times> nat \<times> path) option outcome" where
  "best_stdlib fs [] best = Ret best"
| "best_stdlib fs (p # ps) best =
     and_then (stdlib_candidate fs p) (\<lambda>c. case c of
         None \<Rightarrow> best_stdlib fs ps best
       | Some c \<Rightarrow>
           best_stdlib fs ps (case best of
               None \<Rightarrow> Some c
             | Some b \<Rightarrow> if newer c b then Some c else Some b))"

definition hinted_files :: "path \<Rightarrow> nat \<times> nat \<Rightarrow> path list" where
  "hinted_files lib_dir v =
     concat (map (\<lambda>impl. map (\<lambda>suffix.
        path_join (path_join lib_dir (impl @ show_nat (fst v) @ ''.'' @ show_nat (snd v) @ suffix))
          ''build-details.json'') ['''', ''t'']) [''python'', ''pypy''])"

definition find_file :: "file_system \<Rightarrow> path \<Rightarrow> (nat \<times> nat) option \<Rightarrow> path option outcome" where
  "find_file fs p pyver =
     (let prefix = strip_bin p;
          win_path = path_join (path_join prefix ''Lib'') ''build-details.json'';
          lib_dir = path_join prefix ''lib''
      in if is_file fs win_path then Ret (Some win_path)
         else case (case pyver of None \<Rightarrow> None | Some v \<Rightarrow> List.find (is_file fs) (hinted_files lib_dir v)) of
                Some f \<Rightarrow> Ret (Some f)
              | None \<Rightarrow>
                  (case read_dir fs lib_dir of
                     None \<Rightarrow> Ret None
                   | Some entries \<Rightarrow>
                       and_then (best_stdlib fs entries None) (\<lambda>b. Ret (map_option (\<lambda>(_, _, f). f) b))))"

definition find_with_hint ::
  "(string \<Rightarrow> build_details option) \<Rightarrow> file_system \<Rightarrow> path \<Rightarrow> (nat \<times> nat) option \<Rightarrow> build_details option outcome" where
  "find_with_hint decode fs p pyver =
     and_then (find_file fs p pyver) (\<lambda>f. Ret (Option.bind f (build_details_parse decode fs)))"

section \<open>\<open>patchlevel.h\<close>\<close>

text \<open>White space \<open>\s+\<close> at the start of a text: the rest.\<close>

definition match_spaces :: "string \<Rightarrow> string option" where
  "match_spaces s = (if takeWhile is_space s = [] then None else Some (dropWhile is_space s))"

text \<open>The text before the last quote.\<close>

definition before_last_quote :: "string \<Rightarrow> string option" where
  "before_last_quote s =
     (if CHR 0x22 \<in> set s then Some (rev (tl (dropWhile (\<lambda>c. c \<noteq> CHR 0x22) (rev s)))) else None)"

text \<open>The capture of \<open>VERSION\<close> at one position, and at the first position that has one.\<close>

definition match_py_version_at :: "string \<Rightarrow> string option" where
  "match_py_version_at s =
     Option.bind (strip_prefix_str ''#define'' s) (\<lambda>r1. Option.bind (match_spaces r1) (\<lambda>r2.
     Option.bind (strip_prefix_str ''PY_VERSION'' r2) (\<lambda>r3. Option.bind (match_spaces r3) (\<lambda>r4.
     Option.bind (match_char (CHR 0x22) r4) before_last_quote))))"

definition match_py_version :: "string \<Rightarrow> string option" where
  "match_py_version line = find_map match_py_version_at (tails line)"

text \<open>\<open>splitn(3, ".").take(2)\<close>, of which the parts that are numbers are kept.\<close>

definition version_numbers :: "string \<Rightarrow> nat list" where
  "version_numbers v = List.map_filter (parse_unsigned (2 ^ 64)) (take 2 (split_on (CHR ''.'') v))"

definition valid_version_from_header :: "file_system \<Rightarrow> path \<Rightarrow> (nat \<times> nat) option \<Rightarrow> string option" where
  "valid_version_from_header fs header pyver =
     Option.bind (read_to_string fs header) (\<lambda>contents.
       find_map (\<lambda>line.
         case match_py_version line of
           None \<Rightarrow> None
         | Some version \<Rightarrow>
             (case pyver of
                None \<Rightarrow> Some version
              | Some (ma, mi) \<Rightarrow> if version_numbers version = [ma, mi] then Some version else None))
         (lines contents))"

definition headers_dirs :: "path \<Rightarrow> path list" where
  "headers_dirs p = [path_join p ''Headers'', path_join p ''include'']"

text \<open>A directory entry whose own type is not a directory is skipped, links included.\<close>

definition headers_get_version :: "file_system \<Rightarrow> path \<Rightarrow> (nat \<times> nat) option \<Rightarrow> string option" where
  "headers_get_version fs sys_prefix pyver =
     find_map (\<lambda>d.
       if \<not> exists fs d then None
       else case valid_version_from_header fs (path_join d ''patchlevel.h'') pyver of
              Some v \<Rightarrow> Some v
            | None \<Rightarrow>
                (case read_dir fs d of
                   None \<Rightarrow> None
                 | Some es \<Rightarrow>
                     find_map (\<lambda>e. if symlink_metadata fs e \<notin> {None, Some Directory} then None
                                   else valid_version_from_header fs (path_join e ''patchlevel.h'') pyver) es))
       (headers_dirs sys_prefix)"

definition from_header_files :: "file_system \<Rightarrow> path \<Rightarrow> string option" where
  "from_header_files fs p =
     headers_get_version fs (if path_ends_with p ''bin'' then path_pop p else p) None"

section \<open>Asking for a version\<close>

type_synonym decoder = "string \<Rightarrow> build_details option"

definition from_pyvenv_cfg :: "file_system \<Rightarrow> path \<Rightarrow> string option outcome" where
  "from_pyvenv_cfg fs p = and_then (pyvenv_find fs p) (\<lambda>c. Ret (Option.bind c cfg_version))"

definition from_build_details :: "decoder \<Rightarrow> file_system \<Rightarrow> path \<Rightarrow> string option outcome" where
  "from_build_details decode fs p =
     and_then (find_with_hint decode fs p None) (\<lambda>bd. Ret (map_option version_string bd))"

definition from_prefix :: "decoder \<Rightarrow> file_system \<Rightarrow> path \<Rightarrow> string option outcome" where
  "from_prefix decode fs p =
     and_then (from_pyvenv_cfg fs p) (\<lambda>v. if v \<noteq> None then Ret v
       else and_then (from_build_details decode fs p) (\<lambda>v. if v \<noteq> None then Ret v
         else Ret (from_header_files fs p)))"

definition get_python_exe_used_to_create_venv :: "file_system \<Rightarrow> path \<Rightarrow> path option" where
  "get_python_exe_used_to_create_venv fs exe =
     Option.bind (parent exe) (\<lambda>d.
       if unwrap_or (file_name d) [] \<noteq> ''bin'' then None
       else Option.bind (resolve_symlink fs exe) (\<lambda>l. if is_file fs l then Some l else None))"

text \<open>The version of the installation below \<open>sys_root\<close>, with the numbers of \<open>pyvenv.cfg\<close> as a hint.\<close>

definition creator_version :: "decoder \<Rightarrow> file_system \<Rightarrow> path \<Rightarrow> path \<Rightarrow> string option outcome" where
  "creator_version decode fs env_dir sys_root =
     and_then (pyvenv_find fs env_dir) (\<lambda>c.
       let pyver = (case c of
                      None \<Rightarrow> None
                    | Some cfg \<Rightarrow> (case (version_major cfg, version_minor cfg) of
                                    (Some ma, Some mi) \<Rightarrow> Some (ma, mi) | _ \<Rightarrow> None))
       in and_then (find_with_hint decode fs sys_root pyver) (\<lambda>bd.
            Ret (or_else (map_option version_string bd) (headers_get_version fs sys_root pyver))))"

definition from_creator_for_virtual_env :: "decoder \<Rightarrow> file_system \<Rightarrow> path \<Rightarrow> string option outcome" where
  "from_creator_for_virtual_env decode fs env_dir =
     (case from_header_files fs env_dir of
        Some v \<Rightarrow> Ret (Some v)
      | None \<Rightarrow>
          (case get_python_exe_used_to_create_venv fs (path_join (path_join env_dir ''bin'') ''python'') of
             None \<Rightarrow> Ret None
           | Some creator \<Rightarrow>
               (case (if path_starts_with creator env_dir then resolve_symlink fs creator else Some creator) of
                  None \<Rightarrow> Ret None
                | Some creator' \<Rightarrow>
                    (case parent creator' of
                       None \<Rightarrow> Ret None
                     | Some d \<Rightarrow>
                         if unwrap_or (file_name d) [] \<noteq> ''bin'' then Ret None
                         else case parent d of
                                None \<Rightarrow> Ret None
                              | Some sys_root \<Rightarrow> creator_version decode fs env_dir sys_root))))"

section \<open>The newest standard library wins\<close>

lemma best_stdlib_max:
  assumes "best_stdlib fs ps best = Ret r"
  shows "(\<forall>b. best = Some b \<longrightarrow> (\<exists>c. r = Some c \<and> \<not> newer b c)) \<and>
    (\<forall>p \<in> set ps. \<forall>c. stdlib_candidate fs p = Ret (Some c) \<longrightarrow> (\<exists>d. r = Some d \<and> \<not> newer c d)) \<and>
    (\<forall>d. r = Some d \<longrightarrow> best = Some d \<or> (\<exists>p \<in> set ps. stdlib_candidate fs p = Ret (Some d)))"
  using assms
proof (induction ps arbitrary: best)
  case Nil
  then show ?case by (auto simp: newer_def)
next
  case (Cons p ps)
  from Cons.prems obtain oc where oc: "stdlib_candidate fs p = Ret oc" by (auto simp: and_then_Ret)
  show ?case
  proof (cases oc)
    case None
    with Cons oc show ?thesis by auto
  next
    case (Some c)
    let ?best = "case best of None \<Rightarrow> Some c | Some b \<Rightarrow> if newer c b then Some c else Some b"
    from Cons.prems oc Some have "best_stdlib fs ps ?best = Ret r" by simp
    note IH = Cons.IH [OF this]
    have trans: "\<not> newer x z" if "\<not> newer x y" "\<not> newer y z" for x y z
      using that by (auto simp: newer_def)
    obtain b' where b': "?best = Some b'" "\<not> newer c b'" "\<And>b. best = Some b \<Longrightarrow> \<not> newer b b'"
      "best = Some b' \<or> b' = c"
    proof (cases best)
      case None
      with that [of c] show ?thesis by (simp add: newer_def)
    next
      case best: (Some b)
      show ?thesis
      proof (cases "newer c b")
        case True
        with best that [of c] show ?thesis by (auto simp: newer_def)
      next
        case False
        with best that [of b] show ?thesis by (auto simp: newer_def)
      qed
    qed
    with IH obtain d where d: "r = Some d" "\<not> newer b' d" by blast
    have "\<exists>d. r = Some d \<and> \<not> newer x d" if "best = Some x \<or> x = c" for x
      using that b' d trans by blast
    with IH b' d oc Some show ?thesis by auto
  qed
qed

text \<open>Of several standard libraries in one installation the one with the highest major and minor
  number is used: a file that is found without hint and outside \<open>Lib\<close> belongs to an entry of
  \<open>lib\<close>, and no entry that has the file has a newer version.\<close>

theorem find_file_newest:
  assumes "find_file fs p None = Ret (Some f)"
    and "\<not> is_file fs (path_join (path_join (strip_bin p) ''Lib'') ''build-details.json'')"
    and "read_dir fs (path_join (strip_bin p) ''lib'') = Some entries"
  shows "\<exists>ma mi. (\<exists>e \<in> set entries. stdlib_candidate fs e = Ret (Some (ma, mi, f))) \<and>
    (\<forall>e \<in> set entries. \<forall>c. stdlib_candidate fs e = Ret (Some c) \<longrightarrow> \<not> newer c (ma, mi, f))"
proof -
  from assms obtain b where b: "best_stdlib fs entries None = Ret (Some b)" "f = snd (snd b)"
    by (auto simp: find_file_def Let_def and_then_Ret split: prod.splits)
  obtain ma mi where "b = (ma, mi, f)" using b(2) by (cases b) auto
  with best_stdlib_max [OF b(1)] show ?thesis by auto
qed

definition lib_fs :: "string list \<Rightarrow> file_system" where
  "lib_fs names =
     (plain_fs (map (\<lambda>n. ''/u/lib/'' @ n @ ''/build-details.json'') names) (map (\<lambda>n. ''/u/lib/'' @ n) names))
       \<lparr>read_dir := (\<lambda>d. if d = ''/u/lib'' then Some (map (\<lambda>n. ''/u/lib/'' @ n) names) else None)\<rparr>"

lemmas lib_fs_eval =
  lib_fs_def plain_fs_def stdlib_candidate_def file_name_def components_def has_root_def comp_of_def
  path_contains_def path_eq_def path_join_def match_stdlib_def match_numbers_def strip_prefix_str_def
  or_else_def parse_unsigned_def newer_def strip_bin_def Let_def eq_ignore_ascii_case_def is_digit_def
  to_lowercase_def to_lower_char_def

theorem find_file_newest_witness:
  "find_file (lib_fs [''python3.9'', ''python3.14'', ''site'']) ''/u'' None =
     Ret (Some ''/u/lib/python3.14/build-details.json'') \<and>
   (\<exists>ma mi. \<not> newer (3, 9, ''/u/lib/python3.9/build-details.json'') (ma, mi, ''/u/lib/python3.14/build-details.json''))"
proof -
  let ?fs = "lib_fs [''python3.9'', ''python3.14'', ''site'']"
  have c: "stdlib_candidate ?fs ''/u/lib/python3.9'' = Ret (Some (3, 9, ''/u/lib/python3.9/build-details.json''))"
    "stdlib_candidate ?fs ''/u/lib/python3.14'' = Ret (Some (3, 14, ''/u/lib/python3.14/build-details.json''))"
    "stdlib_candidate ?fs ''/u/lib/site'' = Ret None"
    by (simp_all add: lib_fs_eval)
  have n: "\<not> is_file ?fs (path_join (path_join (strip_bin ''/u'') ''Lib'') ''build-details.json'')"
    "read_dir ?fs (path_join (strip_bin ''/u'') ''lib'') =
       Some [''/u/lib/python3.9'', ''/u/lib/python3.14'', ''/u/lib/site'']"
    by (simp_all add: lib_fs_eval)
  have f: "find_file ?fs ''/u'' None = Ret (Some ''/u/lib/python3.14/build-details.json'')"
    using n by (simp add: find_file_def Let_def c newer_def)
  from find_file_newest [OF f n] c f show ?thesis by auto
qed

text \<open>Which of two standard libraries of the same version is used depends on the order in which
  the directory is read: with \<open>python3.14\<close> and \<open>python3.14t\<close> the first one wins. A directory
  name with a number of 64 bits or more makes the search panic.\<close>

theorem find_file_order_dependent:
  "find_file (lib_fs [''python3.14'', ''python3.14t'']) ''/u'' None =
     Ret (Some ''/u/lib/python3.14/build-details.json'') \<and>
   find_file (lib_fs [''python3.14t'', ''python3.14'']) ''/u'' None =
     Ret (Some ''/u/lib/python3.14t/build-details.json'') \<and>
   find_file (lib_fs [''python3.99999999999999999999'']) ''/u'' None =
     Panic ''called `Result::unwrap()` on an `Err` value''"
proof (intro conjI)
  show "find_file (lib_fs [''python3.14'', ''python3.14t'']) ''/u'' None =
     Ret (Some ''/u/lib/python3.14/build-details.json'')"
    by (simp add: find_file_def lib_fs_eval)
  show "find_file (lib_fs [''python3.14t'', ''python3.14'']) ''/u'' None =
     Ret (Some ''/u/lib/python3.14t/build-details.json'')"
    by (simp add: find_file_def lib_fs_eval)
  show "find_file (lib_fs [''python3.99999999999999999999'']) ''/u'' None =
     Panic ''called `Result::unwrap()` on an `Err` value''"
    by (simp add: find_file_def lib_fs_eval)
qed

end
