(* ===== verification/Locators.thy ===== *)
theory Locators
  imports Executables Reporter
begin

text \<open>
  The chain of locators, \<open>pet/src/locators.rs\<close>: the order in which they are created, the
  identification of an executable by the first locator that claims it, and the fallback for an
  interpreter no locator knows. What a locator makes of an executable (\<open>Locator::try_from\<close>)
  and spawning an interpreter (\<open>ResolvedPythonEnv::from\<close>) are arguments.
\<close>

section \<open>The chain\<close>

text \<open>The kinds of the locators that \<open>create_locators\<close> creates, in order.\<close>

definition create_locators :: "target_os \<Rightarrow> locator_kind list" where
  "create_locators os =
     (if os = Windows then [LWindowsStore, LWindowsRegistry, LWinPython] else [])
     @ [LPyEnv, LPixi, LConda, LUv, LPoetry, LPipEnv, LHatch, LVirtualEnvWrapper, LVenv, LVirtualEnv]
     @ (if os \<noteq> Windows then [LHomebrew] else [])
     @ (if os = MacOs then [LMacXCode, LMacCommandLineTools, LMacPythonOrg] else [])
     @ (if os \<noteq> MacOs \<and> os \<noteq> Windows then [LLinuxGlobal] else [])"

type_synonym try_from = "python_env \<Rightarrow> python_environment option"

section \<open>Resolved interpreters\<close>

record resolved_python_env =
  res_executable :: path
  res_prefix :: path
  res_version :: string
  res_is64_bit :: bool
  res_symlinks :: "path list option"

definition to_python_env :: "resolved_python_env \<Rightarrow> python_env" where
  "to_python_env r =
     \<lparr>pe_executable = norm_case (res_executable r), pe_prefix = Some (norm_case (res_prefix r)),
      pe_version = Some (res_version r), pe_symlinks = res_symlinks r\<rparr>"

text \<open>It is \<open>PythonEnv::new\<close> with a prefix, which reads no file, and the links added.\<close>

lemma to_python_env_new:
  "python_env_new fs (res_executable r) (Some (res_prefix r)) (Some (res_version r)) =
   Ret ((to_python_env r)\<lparr>pe_symlinks := None\<rparr>)"
  by (simp add: python_env_new_def to_python_env_def)

section \<open>Unknown environments\<close>

definition real_exe :: "file_system \<Rightarrow> path \<Rightarrow> path option" where
  "real_exe fs exe = or_else (resolve_symlink fs exe) (canonicalize fs exe)"

definition find_symlinks :: "file_system \<Rightarrow> path \<Rightarrow> path list option" where
  "find_symlinks fs exe =
     (case parent exe of
        None \<Rightarrow> None
      | Some bin \<Rightarrow>
          if \<not> path_ends_with bin ''bin'' \<and> \<not> path_ends_with bin ''Scripts'' \<and> \<not> path_ends_with bin ''scripts''
          then None
          else Some (filter (\<lambda>e. map_option components (real_exe fs e) = map_option components (real_exe fs exe))
                       (find_executables fs bin)))"

definition create_unknown_env ::
  "file_system \<Rightarrow> resolved_python_env \<Rightarrow> environment_kind option \<Rightarrow> python_environment" where
  "create_unknown_env fs r fallback =
     (let links = sort_dedup (unwrap_or (res_symlinks r) [] @ unwrap_or (find_symlinks fs (res_executable r)) [])
      in build (with_version (Some (res_version r))
           (with_arch (Some (if res_is64_bit r then X64 else X86))
           (with_prefix (Some (res_prefix r))
           (with_executable (Some (res_executable r))
           (with_symlinks (Some links) (builder_new fallback)))))))"

text \<open>The fallback kind: one of the paths of the interpreter is in a directory of \<open>PATH\<close>.\<close>

definition fallback_kind :: "path list \<Rightarrow> path list \<Rightarrow> environment_kind option" where
  "fallback_kind global_paths links =
     (if list_ex (\<lambda>l. case parent l of Some bin \<Rightarrow> path_contains global_paths bin | None \<Rightarrow> False) links
      then Some GlobalPaths else None)"

section \<open>Identification\<close>

definition identify_python_environment_using_locators ::
  "file_system \<Rightarrow> (path \<Rightarrow> resolved_python_env option) \<Rightarrow> try_from list \<Rightarrow> path list \<Rightarrow> python_env
   \<Rightarrow> python_environment option" where
  "identify_python_environment_using_locators fs resolve locators global_paths env =
     (case find_map (\<lambda>loc. loc env) locators of
        Some e \<Rightarrow> Some e
      | None \<Rightarrow>
          (case resolve (pe_executable env) of
             None \<Rightarrow> None
           | Some r \<Rightarrow>
               (case find_map (\<lambda>loc. loc (to_python_env r)) locators of
                  Some e \<Rightarrow> Some e
                | None \<Rightarrow>
                    let links = unwrap_or (res_symlinks r) [] @ [res_executable r, pe_executable env]
                    in Some (create_unknown_env fs r (fallback_kind global_paths links)))))"

section \<open>Lemmas\<close>

lemma find_map_take_first:
  assumes "k \<in> set ks" "f k = Some e" "\<And>k'. k' \<in> set (takeWhile (\<lambda>x. x \<noteq> k) ks) \<Longrightarrow> f k' = None"
  shows "find_map f ks = Some e"
  using assms
proof (induction ks)
  case (Cons a ks)
  show ?case
  proof (cases "a = k")
    case True
    with Cons.prems show ?thesis by simp
  next
    case False
    with Cons.prems(3) [of a] have "f a = None" by simp
    moreover have "find_map f ks = Some e" using False Cons.prems by (intro Cons.IH) auto
    ultimately show ?thesis by simp
  qed
qed simp

lemma find_map_map: "find_map f (map g xs) = find_map (\<lambda>x. f (g x)) xs"
  by (induction xs) (auto split: option.splits)

lemma known_paths_with_executable:
  assumes "symlinks b = Some ls"
  shows "components ` set ls \<subseteq> known_paths (with_executable exe b)"
  using assms by (simp add: with_executable_def Let_def known_paths_update)

lemma create_unknown_env_fields:
  "kind (create_unknown_env fs r k) = k" "version (create_unknown_env fs r k) = Some (res_version r)"
  "env_prefix (create_unknown_env fs r k) = Some (norm_case (res_prefix r))"
  "arch (create_unknown_env fs r k) = Some (if res_is64_bit r then X64 else X86)"
  by (simp_all add: create_unknown_env_def Let_def with_version_def with_arch_def with_prefix_def
      with_executable_def with_symlinks_def builder_new_def env_default_def)

lemma create_unknown_env_paths:
  "components ` (set (unwrap_or (res_symlinks r) []) \<union> set (unwrap_or (find_symlinks fs (res_executable r)) []))
   \<subseteq> known_paths (create_unknown_env fs r k)"
proof -
  let ?links = "sort_dedup (unwrap_or (res_symlinks r) [] @ unwrap_or (find_symlinks fs (res_executable r)) [])"
  let ?b = "with_symlinks (Some ?links) (builder_new k)"
  have l: "components ` set ?links =
      components ` (set (unwrap_or (res_symlinks r) []) \<union> set (unwrap_or (find_symlinks fs (res_executable r)) []))"
    by (simp add: components_sort_dedup)
  have s: "symlinks ?b = (if ?links = [] then None else Some ?links)" "executable ?b = None"
    by (simp_all add: with_symlinks_def update_symlinks_and_exe_def builder_new_def env_default_def Let_def)
  have "components ` set ?links \<subseteq> known_paths (with_executable (Some (res_executable r)) ?b)"
  proof (cases "?links = []")
    case True
    then show ?thesis by (metis empty_subsetI image_empty list.set(1))
  next
    case False
    with s(1) show ?thesis by (intro known_paths_with_executable) (simp only: if_False)
  qed
  then show ?thesis unfolding l create_unknown_env_def Let_def by (simp add: known_paths_build)
qed

section \<open>Properties\<close>

text \<open>The order of the chain decides: if a locator of the chain claims an executable and no
  locator before it does, the environment is the one that locator made, whatever the locators
  after it say and without spawning the interpreter.\<close>

theorem identify_first_locator:
  assumes "k \<in> set (create_locators os)" "f k env = Some e"
    and "\<forall>k' \<in> set (takeWhile (\<lambda>x. x \<noteq> k) (create_locators os)). f k' env = None"
  shows "identify_python_environment_using_locators fs resolve (map f (create_locators os)) global_paths env = Some e"
  using find_map_take_first [of k "create_locators os" "\<lambda>k. f k env" e] assms
  by (simp add: identify_python_environment_using_locators_def find_map_map)

definition claimed_by :: "locator_kind list \<Rightarrow> locator_kind \<Rightarrow> try_from" where
  "claimed_by ks k env = (if k \<in> set ks then Some (env_default\<lparr>display_name := Some (if k = LHatch then ''hatch'' else ''other'')\<rparr>) else None)"

definition sample_env :: python_env where
  "sample_env = \<lparr>pe_executable = ''/p'', pe_prefix = None, pe_version = None, pe_symlinks = None\<rparr>"

theorem identify_first_locator_witness:
  "map_option display_name (identify_python_environment_using_locators (plain_fs [] []) (\<lambda>_. None)
     (map (claimed_by [LVirtualEnvWrapper, LHatch, LVenv]) (create_locators OtherUnix)) [] sample_env) =
   Some (Some ''hatch'')"
  using identify_first_locator [of LHatch OtherUnix "claimed_by [LVirtualEnvWrapper, LHatch, LVenv]" sample_env
      _ "plain_fs [] []" "\<lambda>_. None" "[]"]
  by (simp add: create_locators_def claimed_by_def)

text \<open>The order the comments of the chain ask for, on every platform: no kind occurs twice,
  Hatch comes before virtualenvwrapper, the most generic virtual environment locator comes after
  all other locators of virtual environments, and the Linux fallback comes last.\<close>

theorem create_locators_order:
  "distinct (create_locators os) \<and>
   LHatch \<in> set (takeWhile (\<lambda>x. x \<noteq> LVirtualEnvWrapper) (create_locators os)) \<and>
   {LConda, LUv, LPoetry, LPipEnv, LHatch, LVirtualEnvWrapper, LVenv} \<subseteq>
     set (takeWhile (\<lambda>x. x \<noteq> LVirtualEnv) (create_locators os)) \<and>
   (os = OtherUnix \<longrightarrow> last (create_locators os) = LLinuxGlobal)"
  by (cases os) (simp_all add: create_locators_def)

theorem create_locators_order_witness:
  "last (create_locators OtherUnix) = LLinuxGlobal"
  using create_locators_order [of OtherUnix] by blast

text \<open>An interpreter that could be run but that no locator claims is still reported: with the
  version, prefix and architecture the interpreter gave, as a global interpreter exactly when
  one of its paths lies in a directory of the search path, and with every link found for it.\<close>

theorem identify_unknown:
  assumes "\<forall>loc \<in> set locs. loc env = None \<and> loc (to_python_env r) = None"
    and "resolve (pe_executable env) = Some r"
  shows "\<exists>e. identify_python_environment_using_locators fs resolve locs global_paths env = Some e \<and>
    env_wf e \<and> version e = Some (res_version r) \<and> env_prefix e = Some (norm_case (res_prefix r)) \<and>
    arch e = Some (if res_is64_bit r then X64 else X86) \<and>
    (kind e = Some GlobalPaths \<longleftrightarrow>
       (\<exists>l \<in> set (unwrap_or (res_symlinks r) []) \<union> {res_executable r, pe_executable env}.
          \<exists>bin. parent l = Some bin \<and> path_contains global_paths bin)) \<and>
    components ` set (unwrap_or (res_symlinks r) []) \<subseteq> known_paths e"
proof -
  let ?links = "unwrap_or (res_symlinks r) [] @ [res_executable r, pe_executable env]"
  let ?e = "create_unknown_env fs r (fallback_kind global_paths ?links)"
  have n: "find_map (\<lambda>loc. loc env) locs = None" "find_map (\<lambda>loc. loc (to_python_env r)) locs = None"
    using assms(1) by (simp_all add: find_map_None_iff)
  have "identify_python_environment_using_locators fs resolve locs global_paths env = Some ?e"
    by (simp add: identify_python_environment_using_locators_def n assms(2))
  moreover have "env_wf ?e" by (simp add: create_unknown_env_def Let_def env_wf_build)
  moreover have "components ` set (unwrap_or (res_symlinks r) []) \<subseteq> known_paths ?e"
    using create_unknown_env_paths [of r fs "fallback_kind global_paths ?links"] by blast
  moreover have "kind ?e = Some GlobalPaths \<longleftrightarrow>
       (\<exists>l \<in> set (unwrap_or (res_symlinks r) []) \<union> {res_executable r, pe_executable env}.
          \<exists>bin. parent l = Some bin \<and> path_contains global_paths bin)"
    by (auto simp: create_unknown_env_fields fallback_kind_def list_ex_iff split: option.splits)
  ultimately show ?thesis by (auto simp: create_unknown_env_fields)
qed

definition sample_resolved :: resolved_python_env where
  "sample_resolved = \<lparr>res_executable = ''/x/bin/python'', res_prefix = ''/x'', res_version = ''3.12'',
     res_is64_bit = True, res_symlinks = None\<rparr>"

theorem identify_unknown_witness:
  "\<exists>e. identify_python_environment_using_locators (plain_fs [] []) (\<lambda>_. Some sample_resolved) [\<lambda>_. None] []
     sample_env = Some e \<and> env_wf e \<and> version e = Some ''3.12'' \<and> kind e \<noteq> Some GlobalPaths"
  using identify_unknown [of "[\<lambda>_. None]" sample_env sample_resolved "\<lambda>_. Some sample_resolved" "plain_fs [] []" "[]"]
  by (auto simp: sample_resolved_def path_contains_iff)

end
