(* ===== verification/Virtual_Envs.thy ===== *)
theory Virtual_Envs
  imports Versions Locators
begin

text \<open>
  The locators that recognise an environment by the shape of its directory: \<open>pet-venv\<close>,
  \<open>pet-virtualenv\<close>, \<open>pet-pixi\<close> and the tests of \<open>pet-conda/src/utils.rs\<close>, with the directories
  that are searched for global virtual environments (\<open>pet-global-virtualenvs\<close>) and on the
  search path (\<open>pet-env-var-path\<close>), in their Unix configuration. The locale \<open>env_locator\<close> is
  the contract of \<open>Locator::try_from\<close>; the three locators interpret it.
\<close>

section \<open>Conda and Pixi directories\<close>

definition is_pixi_env :: "file_system \<Rightarrow> path \<Rightarrow> bool" where
  "is_pixi_env fs p \<longleftrightarrow> is_file fs (path_join (path_join p ''conda-meta'') ''pixi'')"

definition is_conda_env :: "file_system \<Rightarrow> path \<Rightarrow> bool" where
  "is_conda_env fs p \<longleftrightarrow>
     is_dir fs (path_join p ''conda-meta'') \<and> \<not> is_file fs (path_join (path_join p ''conda-meta'') ''pixi'')"

definition has_conda_root :: "file_system \<Rightarrow> path \<Rightarrow> bool" where
  "has_conda_root fs p \<longleftrightarrow>
     (exists fs (path_join p ''condabin'') \<or> exists fs (path_join p ''envs'')) \<and> exists fs (path_join p ''conda-meta'')"

definition is_conda_install :: "file_system \<Rightarrow> path \<Rightarrow> bool" where
  "is_conda_install fs p \<longleftrightarrow>
     has_conda_root fs p \<and>
     (case Option.bind (parent p) parent of Some q \<Rightarrow> \<not> has_conda_root fs q | None \<Rightarrow> True)"

section \<open>venv\<close>

definition is_venv :: "file_system \<Rightarrow> python_env \<Rightarrow> bool outcome" where
  "is_venv fs env =
     (case parent (pe_executable env) of
        None \<Rightarrow> Ret False
      | Some d \<Rightarrow>
          and_then (pyvenv_find fs d) (\<lambda>c.
            if c \<noteq> None then Ret True
            else case pe_prefix env of
                   None \<Rightarrow> Ret False
                 | Some p \<Rightarrow> and_then (pyvenv_find fs p) (\<lambda>c. Ret (c \<noteq> None))))"

definition is_venv_dir :: "file_system \<Rightarrow> path \<Rightarrow> bool outcome" where
  "is_venv_dir fs p = and_then (pyvenv_find fs p) (\<lambda>c. Ret (c \<noteq> None))"

definition try_environment_from_venv_dir ::
  "decoder \<Rightarrow> file_system \<Rightarrow> path \<Rightarrow> python_environment option outcome" where
  "try_environment_from_venv_dir decode fs p =
     and_then (pyvenv_find fs p) (\<lambda>c. case c of
         None \<Rightarrow> Ret None
       | Some cfg \<Rightarrow>
           and_then (from_creator_for_virtual_env decode fs p) (\<lambda>v.
             let ver = or_else v (cfg_version cfg);
                 base = with_name (cfg_prompt cfg) (builder_new (Some Venv))
             in Ret (Some (build (case find_executable_or_broken fs p of
                  Found exe \<Rightarrow>
                    with_symlinks (Some (find_executables fs p))
                      (with_prefix (Some p) (with_version ver (with_executable (Some exe) base)))
                | Broken exe \<Rightarrow>
                    with_error (Some ''Python executable is a broken symlink'')
                      (with_prefix (Some p) (with_version ver (with_executable (Some exe) base)))
                | NotFound \<Rightarrow>
                    with_error (Some ''Python executable not found'')
                      (with_prefix (Some p) (with_version ver base)))))))"

text \<open>\<open>Venv::try_from\<close>.\<close>

definition venv_try_from :: "decoder \<Rightarrow> file_system \<Rightarrow> python_env \<Rightarrow> python_environment option outcome" where
  "venv_try_from decode fs env =
     and_then (is_venv fs env) (\<lambda>is.
       if \<not> is then Ret None
       else case (if pe_prefix env \<noteq> None then pe_prefix env
                  else Option.bind (parent (pe_executable env)) parent) of
              None \<Rightarrow> Ret None
            | Some p \<Rightarrow>
                and_then (case pe_version env of Some v \<Rightarrow> Ret (Some v) | None \<Rightarrow> from_creator_for_virtual_env decode fs p) (\<lambda>ver.
                  case parent (pe_executable env) of
                    None \<Rightarrow> Ret None
                  | Some d \<Rightarrow>
                      and_then (pyvenv_find fs d) (\<lambda>c1.
                        and_then (if c1 \<noteq> None then Ret c1
                                  else case pe_prefix env of None \<Rightarrow> Ret None | Some q \<Rightarrow> pyvenv_find fs q) (\<lambda>cfg.
                          Ret (Some (build (with_symlinks (Some (find_executables fs p))
                            (with_prefix (Some p) (with_version ver
                            (with_executable (Some (pe_executable env))
                            (with_name (Option.bind cfg cfg_prompt) (builder_new (Some Venv)))))))))))))"

section \<open>virtualenv\<close>

definition is_virtualenv_dir :: "file_system \<Rightarrow> path \<Rightarrow> bool" where
  "is_virtualenv_dir fs path =
     (let p = (if \<not> path_ends_with path ''bin'' \<and> \<not> path_ends_with path ''Scripts''
               then path_join path ''bin'' else path)
      in if path_contains [''/bin'', ''/usr/bin'', ''/usr/local/bin''] p then False
         else if exists fs (path_join p ''activate'') \<or> exists fs (path_join p ''activate.bat'') then True
         else case read_dir fs p of
                None \<Rightarrow> False
              | Some files \<Rightarrow> list_ex (\<lambda>f. prefix ''activate.'' (unwrap_or (file_name f) [])) files)"

definition is_virtualenv :: "file_system \<Rightarrow> python_env \<Rightarrow> bool" where
  "is_virtualenv fs env =
     (if pe_prefix env = None \<and> \<not> path_ends_with (path_pop (pe_executable env)) ''bin''
         \<and> \<not> path_ends_with (path_pop (pe_executable env)) ''Scripts''
      then False
      else case parent (pe_executable env) of Some bin \<Rightarrow> is_virtualenv_dir fs bin | None \<Rightarrow> False)"

text \<open>\<open>VirtualEnv::try_from\<close>.\<close>

definition virtualenv_try_from :: "decoder \<Rightarrow> file_system \<Rightarrow> python_env \<Rightarrow> python_environment option outcome" where
  "virtualenv_try_from decode fs env =
     (if \<not> is_virtualenv fs env then Ret None
      else and_then (case (pe_version env, pe_prefix env) of
                       (Some v, _) \<Rightarrow> Ret (Some v)
                     | (None, Some p) \<Rightarrow> from_creator_for_virtual_env decode fs p
                     | (None, None) \<Rightarrow> Ret None) (\<lambda>ver.
             Ret (Some (build (with_symlinks (Some (case pe_prefix env of Some p \<Rightarrow> find_executables fs p | None \<Rightarrow> []))
               (with_prefix (pe_prefix env) (with_version ver
               (with_executable (Some (pe_executable env)) (builder_new (Some VirtualEnv))))))))))"

section \<open>Pixi\<close>

definition get_pixi_prefix :: "file_system \<Rightarrow> python_env \<Rightarrow> path option" where
  "get_pixi_prefix fs env =
     or_else (pe_prefix env)
       (Option.bind (parent (pe_executable env)) (\<lambda>d.
          if is_pixi_env fs d then Some d
          else if path_ends_with d ''bin'' \<or> path_ends_with d ''Scripts''
          then (case parent d of Some q \<Rightarrow> if is_pixi_env fs q then Some q else None | None \<Rightarrow> None)
          else None))"

text \<open>\<open>Pixi::try_from\<close>; the version in the package metadata of Conda is an argument.\<close>

definition pixi_try_from ::
  "(path \<Rightarrow> string option) \<Rightarrow> file_system \<Rightarrow> python_env \<Rightarrow> python_environment option outcome" where
  "pixi_try_from package_version fs env =
     Ret (Option.bind (get_pixi_prefix fs env) (\<lambda>p.
       if \<not> is_pixi_env fs p then None
       else Some (build (with_version (package_version p)
              (with_symlinks (Some (find_executables fs p))
              (with_prefix (Some p)
              (with_name (Some (unwrap_or (file_name p) []))
              (with_executable (Some (pe_executable env)) (builder_new (Some Pixi)))))))))) "

section \<open>Global directories\<close>

definition home_venv_dirs :: "path list" where
  "home_venv_dirs = [''envs'', ''.direnv'', ''.venvs'', ''.virtualenvs'', ''.local/share/virtualenvs'']"

definition get_global_virtualenv_dirs ::
  "bool \<Rightarrow> env_vars \<Rightarrow> file_system \<Rightarrow> string option \<Rightarrow> string option \<Rightarrow> path option \<Rightarrow> path list" where
  "get_global_virtualenv_dirs linux vars fs work_on_home xdg_data_home user_home =
     filter (exists fs)
       ((case work_on_home of Some w \<Rightarrow> [norm_case (expand_path vars w)] | None \<Rightarrow> [])
        @ (case xdg_data_home of Some d \<Rightarrow> [path_join d ''virtualenvs''] | None \<Rightarrow> [])
        @ (case user_home of
             Some home \<Rightarrow> map (path_join home) home_venv_dirs @ (if linux then [path_join home ''Envs''] else [])
           | None \<Rightarrow> []))"

definition list_global_virtual_envs_paths ::
  "bool \<Rightarrow> env_vars \<Rightarrow> file_system \<Rightarrow> string option \<Rightarrow> string option \<Rightarrow> string option \<Rightarrow> path option \<Rightarrow> path list" where
  "list_global_virtual_envs_paths linux vars fs virtual_env work_on_home xdg_data_home user_home =
     sort_dedup
       ((case virtual_env of
           Some v \<Rightarrow> (let p = norm_case (expand_path vars v) in if exists fs p then [p] else [])
         | None \<Rightarrow> [])
        @ concat (map (\<lambda>root. case read_dir fs root of
                        Some es \<Rightarrow> filter (\<lambda>p. \<not> is_conda_env fs p) es | None \<Rightarrow> [])
            (get_global_virtualenv_dirs linux vars fs work_on_home xdg_data_home user_home)))"

fun component_text :: "component \<Rightarrow> string" where
  "component_text RootDir = ''/''"
| "component_text CurDir = ''.''"
| "component_text ParentDir = ''..''"
| "component_text (Normal s) = s"

definition windows_apps :: "string list" where
  "windows_apps = [''AppData'', ''Local'', ''Microsoft'', ''WindowsApps'']"

fun has_windows_apps :: "string list \<Rightarrow> bool" where
  "has_windows_apps [] \<longleftrightarrow> False"
| "has_windows_apps (c # cs) \<longleftrightarrow>
     (4 \<le> length (c # cs) \<and> list_all2 eq_ignore_ascii_case (take 4 (c # cs)) windows_apps) \<or> has_windows_apps cs"

definition is_windows_apps_path :: "path \<Rightarrow> path option \<Rightarrow> bool" where
  "is_windows_apps_path p user_home \<longleftrightarrow>
     (case user_home of Some home \<Rightarrow> path_starts_with p (foldl path_join home windows_apps) | None \<Rightarrow> False)
     \<or> has_windows_apps (map component_text (components p))"

definition normalize_search_path :: "file_system \<Rightarrow> path \<Rightarrow> path" where
  "normalize_search_path fs p = unwrap_or (canonicalize fs p) p"

text \<open>\<open>get_search_paths_from_env_variables\<close>: the set it computes, as a sorted list.\<close>

definition get_search_paths_from_env_variables :: "file_system \<Rightarrow> path list \<Rightarrow> path option \<Rightarrow> path list" where
  "get_search_paths_from_env_variables fs locations user_home =
     filter (\<lambda>p. \<not> is_windows_apps_path p user_home) (sort_dedup (map (normalize_search_path fs) locations))"

section \<open>The contract of a locator\<close>

text \<open>
  What the identification of an environment relies on: a claimed environment is normalised and of a
  kind the locator supports, and it has an executable. Most locators also promise that the
  executable they were asked about is among the paths of the environment.
\<close>

locale building_locator =
  fixes try_from :: "python_env \<Rightarrow> python_environment option outcome"
    and supported :: "environment_kind list"
  assumes claim_wf: "try_from env = Ret (Some e) \<Longrightarrow> env_wf e"
    and claim_kind: "try_from env = Ret (Some e) \<Longrightarrow> kind e \<in> Some ` set supported"
    and claim_exe: "try_from env = Ret (Some e) \<Longrightarrow> executable e \<noteq> None"
begin

text \<open>A claimed environment has a key, so no reporter drops it, and its executable is one of its
  links.\<close>

lemma claim_key:
  assumes "try_from env = Ret (Some e)"
  shows "\<exists>exe ls. executable e = Some exe \<and> get_environment_key e = Some exe \<and> symlinks e = Some ls \<and> exe \<in> set ls"
proof -
  from claim_exe [OF assms] obtain exe where exe: "executable e = Some exe" by blast
  with claim_wf [OF assms] obtain ls where "symlinks e = Some ls" "exe \<in> set ls"
    by (auto simp: env_wf_def split: option.splits)
  with exe show ?thesis by (simp add: get_environment_key_def)
qed

lemma claim_rebuild: "try_from env = Ret (Some e) \<Longrightarrow> build (from_environment e) = e"
  by (rule build_id) (rule claim_wf)

end

locale env_locator = building_locator +
  assumes claim_known: "try_from env = Ret (Some e) \<Longrightarrow> components (pe_executable env) \<in> known_paths e"
begin

lemma claim_reported:
  assumes "try_from env = Ret (Some e)"
  shows "\<exists>exe ls. get_environment_key e = Some exe \<and> symlinks e = Some ls \<and> exe \<in> set ls
     \<and> path_contains ls (pe_executable env)"
  using claim_key [OF assms] claim_known [OF assms]
  by (auto simp: known_paths_def path_contains_iff)

end

text \<open>The three locators build what they claim with the executable and their kind.\<close>

definition claims :: "environment_kind \<Rightarrow> path \<Rightarrow> python_environment \<Rightarrow> bool" where
  "claims k exe e \<longleftrightarrow> env_wf e \<and> kind e = Some k \<and> executable e \<noteq> None \<and> components exe \<in> known_paths e"

lemma claims_build [simp]:
  "claims k exe (build b) \<longleftrightarrow> kind b = Some k \<and> executable b \<noteq> None \<and> components exe \<in> known_paths b"
  by (simp add: claims_def env_wf_build known_paths_build del: not_None_eq)

lemma venv_claim: "venv_try_from decode fs env = Ret (Some e) \<Longrightarrow> claims Venv (pe_executable env) e"
proof -
  assume r: "venv_try_from decode fs env = Ret (Some e)"
  then have v: "is_venv fs env = Ret True"
    by (auto simp: venv_try_from_def and_then_Ret split: if_split_asm)
  then obtain d where d: "parent (pe_executable env) = Some d"
    by (auto simp: is_venv_def split: option.split_asm)
  let ?p = "if pe_prefix env \<noteq> None then pe_prefix env else Option.bind (parent (pe_executable env)) parent"
  show ?thesis
  proof (cases ?p)
    case None
    with r v show ?thesis unfolding venv_try_from_def by (simp only: and_then_simps) simp
  next
    case (Some p)
    with r v d show ?thesis
      unfolding venv_try_from_def by (simp only: and_then_simps) (auto simp: and_then_Ret simp del: not_None_eq)
  qed
qed

lemma virtualenv_claim:
  "virtualenv_try_from decode fs env = Ret (Some e) \<Longrightarrow> claims VirtualEnv (pe_executable env) e"
  by (auto simp: virtualenv_try_from_def and_then_Ret simp del: not_None_eq split: if_splits)

lemma pixi_claim: "pixi_try_from package_version fs env = Ret (Some e) \<Longrightarrow> claims Pixi (pe_executable env) e"
  by (auto simp: pixi_try_from_def bind_eq_Some_conv simp del: not_None_eq split: if_splits)

interpretation venv: env_locator "venv_try_from decode fs" "[Venv]"
  by unfold_locales (use venv_claim claims_def in auto)

interpretation virtualenv: env_locator "virtualenv_try_from decode fs" "[VirtualEnv]"
  by unfold_locales (use virtualenv_claim claims_def in auto)

interpretation pixi: env_locator "pixi_try_from package_version fs" "[Pixi]"
  by unfold_locales (use pixi_claim claims_def in auto)

section \<open>Properties\<close>

text \<open>A directory with a \<open>pyvenv.cfg\<close> is always reported, broken or not: the environment is of
  kind venv, has the directory as its prefix and the prompt as its name, and carries an error exactly
  when no working executable is found; an executable that was found, even a dangling link, is among
  its paths. A directory without \<open>pyvenv.cfg\<close> is not reported.\<close>

theorem venv_dir_reported:
  assumes "try_environment_from_venv_dir decode fs p = Ret r"
  shows "(r = None \<longleftrightarrow> pyvenv_find fs p = Ret None)
     \<and> (\<forall>e. r = Some e \<longrightarrow>
          kind e = Some Venv \<and> env_prefix e = Some p \<and> env_wf e
          \<and> (\<exists>cfg. pyvenv_find fs p = Ret (Some cfg) \<and> env_name e = cfg_prompt cfg
               \<and> (cfg_version cfg \<noteq> None \<longrightarrow> version e \<noteq> None))
          \<and> (case find_executable_or_broken fs p of
               Found exe \<Rightarrow> env_error e = None \<and> components exe \<in> known_paths e
             | Broken exe \<Rightarrow> env_error e = Some ''Python executable is a broken symlink'' \<and> components exe \<in> known_paths e
             | NotFound \<Rightarrow> env_error e = Some ''Python executable not found'' \<and> executable e = None))"
proof (cases "pyvenv_find fs p")
  case (Ret c)
  show ?thesis
  proof (cases c)
    case None
    with assms Ret show ?thesis by (simp add: try_environment_from_venv_dir_def)
  next
    case (Some cfg)
    from assms Ret Some obtain v where v: "from_creator_for_virtual_env decode fs p = Ret v"
      by (cases "from_creator_for_virtual_env decode fs p") (simp_all add: try_environment_from_venv_dir_def)
    have ver: "cfg_version cfg \<noteq> None \<Longrightarrow> or_else v (cfg_version cfg) \<noteq> None"
      by (cases v) (simp_all add: or_else_def)
    show ?thesis
    proof (cases "find_executable_or_broken fs p")
      case (Found exe)
      with assms Ret Some v ver show ?thesis
        by (auto simp: try_environment_from_venv_dir_def env_wf_build known_paths_build Let_def)
    next
      case (Broken exe)
      with assms Ret Some v ver show ?thesis
        by (auto simp: try_environment_from_venv_dir_def env_wf_build known_paths_build Let_def)
    next
      case NotFound
      with assms Ret Some v ver show ?thesis
        by (auto simp: try_environment_from_venv_dir_def env_wf_build known_paths_build Let_def)
    qed
  qed
qed (use assms in \<open>simp add: try_environment_from_venv_dir_def\<close>)

theorem venv_dir_reported_witness:
  "\<exists>e. try_environment_from_venv_dir (\<lambda>_. None) (text_fs [(''/v/pyvenv.cfg'', ''prompt = my'')]) ''/v'' = Ret (Some e)
     \<and> kind e = Some Venv \<and> env_name e = Some ''my'' \<and> env_error e = Some ''Python executable not found''"
proof -
  let ?fs = "text_fs [(''/v/pyvenv.cfg'', ''prompt = my'')]"
  let ?r = "try_environment_from_venv_dir (\<lambda>_. None) ?fs ''/v''"
  have r: "?r = Ret (Some (build (with_error (Some ''Python executable not found'')
      (with_prefix (Some ''/v'') (with_version None (with_name (Some ''my'') (builder_new (Some Venv))))))))"
    by code_simp
  have f: "find_executable_or_broken ?fs ''/v'' = NotFound" by code_simp
  from venv_dir_reported [OF r] f show ?thesis unfolding r by simp
qed

text \<open>An executable that the venv, virtualenv or Pixi locator claims yields an environment that is
  normalised, of the locator's kind, with a key to be reported under, and with the executable among
  its links.\<close>

theorem locator_claims:
  assumes "(venv_try_from decode fs env = Ret (Some e) \<and> k = Venv)
    \<or> (virtualenv_try_from decode fs env = Ret (Some e) \<and> k = VirtualEnv)
    \<or> (pixi_try_from package_version fs env = Ret (Some e) \<and> k = Pixi)"
  shows "env_wf e \<and> kind e = Some k \<and> build (from_environment e) = e
     \<and> (\<exists>exe ls. get_environment_key e = Some exe \<and> symlinks e = Some ls \<and> exe \<in> set ls
          \<and> path_contains ls (pe_executable env))"
  using assms
proof (elim disjE conjE)
  assume c: "venv_try_from decode fs env = Ret (Some e)" and k: "k = Venv"
  from venv_claim [OF c] venv.claim_reported [OF c] venv.claim_rebuild [OF c] k show ?thesis
    by (simp add: claims_def)
next
  assume c: "virtualenv_try_from decode fs env = Ret (Some e)" and k: "k = VirtualEnv"
  from virtualenv_claim [OF c] virtualenv.claim_reported [OF c] virtualenv.claim_rebuild [OF c] k show ?thesis
    by (simp add: claims_def)
next
  assume c: "pixi_try_from package_version fs env = Ret (Some e)" and k: "k = Pixi"
  from pixi_claim [OF c] pixi.claim_reported [OF c] pixi.claim_rebuild [OF c] k show ?thesis
    by (simp add: claims_def)
qed

theorem locator_claims_witness:
  "\<exists>e. pixi_try_from (\<lambda>_. None) (plain_fs [''/w/bin/python'', ''/w/conda-meta/pixi''] [''/w/bin''])
       \<lparr>pe_executable = ''/w/bin/python'', pe_prefix = None, pe_version = None, pe_symlinks = None\<rparr> = Ret (Some e)
     \<and> env_wf e \<and> kind e = Some Pixi"
proof -
  let ?fs = "plain_fs [''/w/bin/python'', ''/w/conda-meta/pixi''] [''/w/bin'']"
  let ?env = "\<lparr>pe_executable = ''/w/bin/python'', pe_prefix = None, pe_version = None, pe_symlinks = None\<rparr>"
  have "\<exists>e. pixi_try_from (\<lambda>_. None) ?fs ?env = Ret (Some e)"
  proof -
    have "get_pixi_prefix ?fs ?env = Some ''/w''" "is_pixi_env ?fs ''/w''" by code_simp+
    then show ?thesis by (simp add: pixi_try_from_def)
  qed
  then obtain e where "pixi_try_from (\<lambda>_. None) ?fs ?env = Ret (Some e)" by blast
  with locator_claims [of "\<lambda>_. None" ?fs ?env e Pixi "\<lambda>_. None"] show ?thesis by blast
qed

end
