(* ===== verification/Os_Environment.thy ===== *)
theory Os_Environment
  imports Fs_Path Transition
begin

text \<open>
  The process environment, \<open>pet-core/src/os_environment.rs\<close> in its Unix configuration: the
  directories of \<open>PATH\<close> and the well-known system directories, computed by the first caller and
  kept behind a mutex. The lock is released between the test for emptiness and the append, so
  several threads of a search may compute the list; the lemmas show what each of them gets.
\<close>

section \<open>Definitions\<close>

text \<open>\<open>get_user_home\<close> of this file reads \<open>HOME\<close> only.\<close>

definition os_user_home :: "env_vars \<Rightarrow> path option" where
  "os_user_home vars = map_option norm_case (vars ''HOME'')"

definition common_locations :: "path list" where
  "common_locations =
     [''/bin'', ''/etc'', ''/lib'', ''/lib/x86_64-linux-gnu'', ''/lib64'', ''/sbin'', ''/snap/bin'',
      ''/usr/bin'', ''/usr/games'', ''/usr/include'', ''/usr/lib'', ''/usr/lib/x86_64-linux-gnu'',
      ''/usr/lib64'', ''/usr/libexec'', ''/usr/local'', ''/usr/local/bin'', ''/usr/local/etc'',
      ''/usr/local/games'', ''/usr/local/lib'', ''/usr/local/sbin'', ''/usr/sbin'', ''/usr/share'',
      ''/home/bin'', ''/home/sbin'', ''/opt'', ''/opt/bin'', ''/opt/sbin'']"

text \<open>\<open>env::split_paths\<close> cuts at every colon.\<close>

definition computed_locations :: "file_system \<Rightarrow> env_vars \<Rightarrow> path list" where
  "computed_locations fs vars =
     (let paths = split_on (CHR '':'') (unwrap_or (vars ''PATH'') []);
          paths = fold (\<lambda>p ps. if path_contains ps p then ps else ps @ [p]) common_locations paths;
          paths = paths @ (case os_user_home vars of
                             Some home \<Rightarrow> [path_join (path_join home ''.local'') ''bin''] | None \<Rightarrow> [])
      in filter (exists fs) paths)"

text \<open>\<open>get_know_global_search_locations\<close> by a single caller: the new cache and the answer.\<close>

definition get_know_global_search_locations ::
  "file_system \<Rightarrow> env_vars \<Rightarrow> path list \<Rightarrow> path list \<times> path list" where
  "get_know_global_search_locations fs vars cache =
     (let cache' = (if cache = [] then cache @ computed_locations fs vars else cache) in (cache', cache'))"

text \<open>The same with every critical section as a step of the calling thread.\<close>

datatype locations_pc = LocCheck | LocAppend | LocRead | LocDone "path list"

fun locations_step :: "path list \<Rightarrow> path list \<Rightarrow> locations_pc \<Rightarrow> (path list \<times> locations_pc) option" where
  "locations_step computed cache LocCheck = Some (cache, if cache = [] then LocAppend else LocRead)"
| "locations_step computed cache LocAppend = Some (cache @ computed, LocRead)"
| "locations_step computed cache LocRead = Some (cache, LocDone cache)"
| "locations_step computed cache (LocDone ps) = None"

record locations_system =
  loc_cache :: "path list"
  loc_threads :: "locations_pc list"

inductive locations_sys_step :: "path list \<Rightarrow> locations_system \<Rightarrow> locations_system \<Rightarrow> bool"
  for computed where
  locations_thread:
    "i < length (loc_threads s) \<Longrightarrow> locations_step computed (loc_cache s) (loc_threads s ! i) = Some (c, pc)
     \<Longrightarrow> locations_sys_step computed s (s\<lparr>loc_cache := c, loc_threads := (loc_threads s)[i := pc]\<rparr>)"

definition locations_init :: "locations_system \<Rightarrow> bool" where
  "locations_init s \<longleftrightarrow> loc_cache s = [] \<and> list_all (\<lambda>pc. pc = LocCheck) (loc_threads s)"

section \<open>Every caller gets the computed list, perhaps several times over\<close>

definition repeats :: "'a list \<Rightarrow> 'a list \<Rightarrow> bool" where
  "repeats xs ys \<longleftrightarrow> (\<exists>n. ys = concat (replicate n xs))"

lemma repeats_Nil [simp]: "repeats xs []"
  by (auto simp: repeats_def intro: exI [of _ 0])

lemma repeats_append: "repeats xs ys \<Longrightarrow> repeats xs (ys @ xs)"
proof -
  assume "repeats xs ys"
  then obtain n where "ys = concat (replicate n xs)" by (auto simp: repeats_def)
  then have "ys @ xs = concat (replicate (Suc n) xs)"
    by (metis append_Nil2 concat.simps concat_append replicate_Suc replicate_append_same)
  then show ?thesis unfolding repeats_def by blast
qed

lemma repeats_set: "repeats xs ys \<Longrightarrow> ys \<noteq> [] \<Longrightarrow> set ys = set xs"
  by (auto simp: repeats_def set_replicate_conv_if split: if_splits)

fun locations_pc_ok :: "path list \<Rightarrow> path list \<Rightarrow> locations_pc \<Rightarrow> bool" where
  "locations_pc_ok computed cache LocRead \<longleftrightarrow> computed \<noteq> [] \<longrightarrow> cache \<noteq> []"
| "locations_pc_ok computed cache (LocDone ps) \<longleftrightarrow> repeats computed ps \<and> (computed \<noteq> [] \<longrightarrow> ps \<noteq> [])"
| "locations_pc_ok computed cache _ \<longleftrightarrow> True"

definition locations_inv :: "path list \<Rightarrow> locations_system \<Rightarrow> bool" where
  "locations_inv computed s \<longleftrightarrow>
     repeats computed (loc_cache s) \<and> list_all (locations_pc_ok computed (loc_cache s)) (loc_threads s)"

lemma locations_pc_ok_append:
  "locations_pc_ok computed cache pc \<Longrightarrow> locations_pc_ok computed (cache @ xs) pc"
  by (cases pc) auto

lemma locations_inv_step:
  assumes "locations_inv computed s" and "locations_sys_step computed s t"
  shows "locations_inv computed t"
  using assms(2)
proof (cases rule: locations_sys_step.cases)
  case (locations_thread i c pc)
  note 1 = this
  have ok: "locations_pc_ok computed (loc_cache s) (loc_threads s ! i)"
    using assms(1) 1(2) by (simp add: locations_inv_def list_all_length)
  have all: "list_all (locations_pc_ok computed (loc_cache s @ xs)) (loc_threads s)" for xs
    using assms(1) by (auto simp: locations_inv_def list_all_iff intro: locations_pc_ok_append)
  from 1(3) ok assms(1) have "repeats computed c" "locations_pc_ok computed c pc"
    and "c = loc_cache s \<or> c = loc_cache s @ computed"
    by (cases "loc_threads s ! i"; auto simp: locations_inv_def intro: repeats_append)+
  with all [of "[]"] all [of computed] 1(1) show ?thesis
    by (auto simp: locations_inv_def intro: list_all_update)
qed

interpretation locations: inv_system locations_init "locations_sys_step computed" "locations_inv computed"
  for computed
proof
  show "locations_inv computed s" if "locations_init s" for s
    using that by (auto simp: locations_init_def locations_inv_def list_all_iff)
qed (rule locations_inv_step)

text \<open>In every interleaving, what a thread gets are the paths a single caller would get.\<close>

lemma locations_shared:
  assumes "locations_init s" "(locations_sys_step (computed_locations fs vars))\<^sup>*\<^sup>* s t"
    and "LocDone ps \<in> set (loc_threads t)"
  shows "set ps = set (snd (get_know_global_search_locations fs vars []))"
proof -
  from locations.inv_reachable [OF assms(1,2)] assms(3)
  have "repeats (computed_locations fs vars) ps" "computed_locations fs vars \<noteq> [] \<longrightarrow> ps \<noteq> []"
    by (auto simp: locations_inv_def list_all_iff)
  then show ?thesis
    by (cases "ps = []") (auto simp: get_know_global_search_locations_def Let_def dest: repeats_set)
qed

end
