(* ===== verification/Find.thy ===== *)
theory Find
  imports Tasks Virtual_Envs Os_Environment Configure
begin

text \<open>
  The search for environments, \<open>pet/src/find.rs\<close>: the four phases of a refresh and the search
  of workspace folders, as tasks (theory \<open>Tasks\<close>): what each thread reports and how the threads
  are nested. The time measurements and the telemetry events of the phases are left out.
\<close>

section \<open>Definitions\<close>

text \<open>A locator as the search sees it: the kinds it supports, its \<open>try_from\<close> and its \<open>find\<close>.\<close>

record locator =
  loc_kind :: locator_kind
  loc_supported :: "environment_kind list"
  loc_try_from :: try_from
  loc_find :: task

text \<open>What a search reads: files, environment variables, interpreters it may spawn, the decoder of
  \<open>build-details.json\<close> and the locators.\<close>

record search_env =
  se_os :: target_os
  se_fs :: file_system
  se_vars :: env_vars
  se_resolve :: "path \<Rightarrow> resolved_python_env option"
  se_decode :: decoder
  se_locators :: "locator list"

definition global_search_paths :: "search_env \<Rightarrow> path list" where
  "global_search_paths se =
     get_search_paths_from_env_variables (se_fs se)
       (snd (get_know_global_search_locations (se_fs se) (se_vars se) [])) (os_user_home (se_vars se))"

definition identify_executable :: "search_env \<Rightarrow> path list \<Rightarrow> path \<Rightarrow> python_environment option outcome" where
  "identify_executable se global_paths exe =
     and_then (python_env_new (se_fs se) exe None None) (\<lambda>env.
       Ret (identify_python_environment_using_locators (se_fs se) (se_resolve se)
              (map loc_try_from (se_locators se)) global_paths env))"

text \<open>The manager is reported before the environment.\<close>

definition report_env :: "python_environment \<Rightarrow> task" where
  "report_env e =
     Seq ((case manager e of Some m \<Rightarrow> [Report (ManagerNote m)] | None \<Rightarrow> []) @ [Report (EnvironmentNote e)])"

definition identify_python_executables_using_locators :: "search_env \<Rightarrow> path list \<Rightarrow> path list \<Rightarrow> task" where
  "identify_python_executables_using_locators se exes global_paths =
     Seq (map (\<lambda>exe. case identify_executable se global_paths exe of
                       Panic m \<Rightarrow> Abort m
                     | Ret None \<Rightarrow> Seq []
                     | Ret (Some e) \<Rightarrow> report_env e) exes)"

definition keep_executable :: "target_os \<Rightarrow> path \<Rightarrow> bool" where
  "keep_executable os p \<longleftrightarrow> os = MacOs \<longrightarrow> p \<noteq> ''/usr/bin/python2''"

text \<open>One directory. A workspace folder is searched for \<open>bin/python\<close> only; when it has none, a
  broken virtual environment is reported with its error.\<close>

definition search_path_task :: "search_env \<Rightarrow> bool \<Rightarrow> path list \<Rightarrow> path \<Rightarrow> task" where
  "search_path_task se is_workspace_folder global_paths p =
     (if is_workspace_folder
      then case find_executable (se_fs se) p of
             Some exe \<Rightarrow> identify_python_executables_using_locators se [exe] global_paths
           | None \<Rightarrow>
               (case try_environment_from_venv_dir (se_decode se) (se_fs se) p of
                  Panic m \<Rightarrow> Abort m
                | Ret (Some e) \<Rightarrow> if env_error e \<noteq> None then Report (EnvironmentNote e) else Seq []
                | Ret None \<Rightarrow> Seq [])
      else identify_python_executables_using_locators se
             (filter (keep_executable (se_os se)) (find_executables (se_fs se) p)) global_paths)"

definition find_python_environments_in_paths_with_locators ::
  "search_env \<Rightarrow> path list \<Rightarrow> bool \<Rightarrow> path list \<Rightarrow> task" where
  "find_python_environments_in_paths_with_locators se paths is_workspace_folder global_paths =
     Seq (map (search_path_task se is_workspace_folder global_paths) paths)"

text \<open>One thread for each path.\<close>

definition find_python_environments :: "search_env \<Rightarrow> path list \<Rightarrow> bool \<Rightarrow> path list \<Rightarrow> task" where
  "find_python_environments se paths is_workspace_folder global_paths =
     Par (map (\<lambda>p. find_python_environments_in_paths_with_locators se [p] is_workspace_folder global_paths) paths)"

definition sub_directories :: "file_system \<Rightarrow> path \<Rightarrow> path list" where
  "sub_directories fs d = (case read_dir fs d of Some es \<Rightarrow> filter (is_dir fs) es | None \<Rightarrow> [])"

definition paths_to_search_first :: "file_system \<Rightarrow> path \<Rightarrow> path list" where
  "paths_to_search_first fs w =
     [w, path_join w ''.venv'', path_join w ''.conda'', path_join w ''.virtualenv'', path_join w ''venv'']
     @ sub_directories fs (path_join (path_join w ''.pixi'') ''envs'')"

definition search_workspace_child :: "path list \<Rightarrow> path \<Rightarrow> bool" where
  "search_workspace_child environment_dirs p \<longleftrightarrow>
     path_contains environment_dirs p \<or> list_ex (path_starts_with p) environment_dirs
     \<or> should_search_for_environments_in_path p"

definition find_python_environments_in_workspace_folder_recursive ::
  "search_env \<Rightarrow> path list \<Rightarrow> path list \<Rightarrow> path \<Rightarrow> task" where
  "find_python_environments_in_workspace_folder_recursive se global_paths environment_dirs w =
     (let fs = se_fs se;
          first = paths_to_search_first fs w
      in Seq (find_python_environments_in_paths_with_locators se first True global_paths #
           (if is_virtualenv_dir fs w \<or> is_conda_env fs w \<or> is_pixi_env fs w then []
            else map (\<lambda>folder. find_python_environments se [folder] True [])
                   (filter (\<lambda>p. \<not> path_contains first p)
                     (filter (search_workspace_child environment_dirs) (sub_directories fs w))))))"

section \<open>The four phases of a refresh\<close>

definition search_global :: "search_scope option \<Rightarrow> bool" where
  "search_global scope \<longleftrightarrow> scope \<noteq> Some ScopeWorkspace"

definition search_kind :: "search_scope option \<Rightarrow> environment_kind option" where
  "search_kind scope = (case scope of Some (ScopeGlobal k) \<Rightarrow> Some k | _ \<Rightarrow> None)"

definition locators_phase :: "search_env \<Rightarrow> search_scope option \<Rightarrow> task" where
  "locators_phase se scope =
     (if search_global scope
      then Par (map loc_find
             (filter (\<lambda>l. case search_kind scope of Some k \<Rightarrow> k \<in> set (loc_supported l) | None \<Rightarrow> True)
                (se_locators se)))
      else Seq [])"

definition path_phase :: "search_env \<Rightarrow> search_scope option \<Rightarrow> task" where
  "path_phase se scope =
     (if search_global scope
      then find_python_environments se (global_search_paths se) False (global_search_paths se)
      else Seq [])"

definition global_virtualenvs_phase :: "search_env \<Rightarrow> configuration \<Rightarrow> search_scope option \<Rightarrow> task" where
  "global_virtualenvs_phase se c scope =
     (if search_global scope
      then find_python_environments se
             (list_global_virtual_envs_paths (se_os se = OtherUnix) (se_vars se) (se_fs se)
                (se_vars se ''VIRTUAL_ENV'') (se_vars se ''WORKON_HOME'') (se_vars se ''XDG_DATA_HOME'')
                (os_user_home (se_vars se))
              @ concat (map (sub_directories (se_fs se)) (unwrap_or (environment_directories c) [])))
             False (global_search_paths se)
      else Seq [])"

definition workspaces_phase :: "search_env \<Rightarrow> configuration \<Rightarrow> task" where
  "workspaces_phase se c =
     Par (map (find_python_environments_in_workspace_folder_recursive se (global_search_paths se)
                 (unwrap_or (environment_directories c) []))
            (unwrap_or (workspace_directories c) [])
          @ (case unwrap_or (executables c) [] of
               [] \<Rightarrow> []
             | exes \<Rightarrow> [identify_python_executables_using_locators se exes (global_search_paths se)]))"

definition find_and_report_envs :: "search_env \<Rightarrow> configuration \<Rightarrow> search_scope option \<Rightarrow> task" where
  "find_and_report_envs se c scope =
     Par [locators_phase se scope, path_phase se scope, global_virtualenvs_phase se c scope,
          workspaces_phase se c]"

section \<open>Lemmas\<close>

lemma report_env_notes: "EnvironmentNote e \<in> set (task_notes (report_env e))"
  by (simp add: report_env_def)

lemma identify_notes:
  assumes "exe \<in> set exes" and "identify_executable se global_paths exe = Ret (Some e)"
  shows "EnvironmentNote e \<in> set (task_notes (identify_python_executables_using_locators se exes global_paths))"
  using assms report_env_notes [of e]
  by (auto simp: identify_python_executables_using_locators_def intro!: bexI [of _ exe])

text \<open>What the search of a workspace folder makes of a directory: the environment its \<open>bin/python\<close>
  belongs to, or a virtual environment that is broken.\<close>

definition workspace_env :: "search_env \<Rightarrow> path list \<Rightarrow> path \<Rightarrow> python_environment \<Rightarrow> bool" where
  "workspace_env se global_paths d e \<longleftrightarrow>
     (case find_executable (se_fs se) d of
        Some exe \<Rightarrow> identify_executable se global_paths exe = Ret (Some e)
      | None \<Rightarrow> try_environment_from_venv_dir (se_decode se) (se_fs se) d = Ret (Some e) \<and> env_error e \<noteq> None)"

lemma search_path_notes:
  "workspace_env se global_paths d e \<Longrightarrow> EnvironmentNote e \<in> set (task_notes (search_path_task se True global_paths d))"
  by (auto simp: workspace_env_def search_path_task_def intro: identify_notes split: option.splits)

lemma workspace_folder_notes:
  assumes "d \<in> set (paths_to_search_first (se_fs se) w)" and "workspace_env se global_paths d e"
  shows "EnvironmentNote e \<in> set (task_notes
           (find_python_environments_in_workspace_folder_recursive se global_paths environment_dirs w))"
  using assms search_path_notes [OF assms(2)]
  by (auto simp: find_python_environments_in_workspace_folder_recursive_def Let_def
      find_python_environments_in_paths_with_locators_def intro!: bexI [of _ d])

lemma workspace_child_notes:
  assumes "p \<in> set (sub_directories (se_fs se) w)" and "search_workspace_child environment_dirs p"
    and "\<not> (is_virtualenv_dir (se_fs se) w \<or> is_conda_env (se_fs se) w \<or> is_pixi_env (se_fs se) w)"
    and "\<not> path_contains (paths_to_search_first (se_fs se) w) p" and "workspace_env se [] p e"
  shows "EnvironmentNote e \<in> set (task_notes
           (find_python_environments_in_workspace_folder_recursive se global_paths environment_dirs w))"
proof -
  have "EnvironmentNote e \<in> set (task_notes (find_python_environments se [p] True []))"
    using search_path_notes [OF assms(5)]
    by (simp add: find_python_environments_def find_python_environments_in_paths_with_locators_def)
  with assms(1-4) show ?thesis
    by (auto simp: find_python_environments_in_workspace_folder_recursive_def Let_def)
qed

lemma find_and_report_workspace_notes:
  assumes "w \<in> set (unwrap_or (workspace_directories c) [])"
  shows "set (task_notes (find_python_environments_in_workspace_folder_recursive se (global_search_paths se)
           (unwrap_or (environment_directories c) []) w))
         \<subseteq> set (task_notes (find_and_report_envs se c scope))"
  using assms by (auto simp: find_and_report_envs_def workspaces_phase_def)

text \<open>A workspace search of one folder with a broken virtual environment.\<close>

definition broken_venv_env :: search_env where
  "broken_venv_env =
     \<lparr>se_os = OtherUnix, se_fs = text_fs [(''/w/.venv/pyvenv.cfg'', ''prompt = my'')], se_vars = (\<lambda>_. None),
      se_resolve = (\<lambda>_. None), se_decode = (\<lambda>_. None), se_locators = []\<rparr>"

definition workspace_config :: configuration where
  "workspace_config = configuration_default\<lparr>workspace_directories := Some [''/w'']\<rparr>"

definition broken_venv :: python_environment where
  "broken_venv = env_default\<lparr>env_name := Some ''my'', kind := Some Venv, env_prefix := Some ''/w/.venv'',
     env_error := Some ''Python executable not found''\<rparr>"

lemma broken_venv_task:
  "task_notes (find_and_report_envs broken_venv_env workspace_config (Some ScopeWorkspace)) = [EnvironmentNote broken_venv]"
  "\<not> aborts (find_and_report_envs broken_venv_env workspace_config (Some ScopeWorkspace))"
  by code_simp+

lemma broken_venv_trace:
  "([EnvironmentNote broken_venv], False) \<in> traces (find_and_report_envs broken_venv_env workspace_config (Some ScopeWorkspace))"
  using sequential_trace [OF broken_venv_task(2)] by (simp add: broken_venv_task(1))

lemma broken_venv_key: "env_key broken_venv = Some [RootDir, Normal ''w'', Normal ''.venv'']"
  by code_simp

section \<open>Properties\<close>





text \<open>A folder whose name is excluded is searched all the same when it lies in an environment
  directory.\<close>

lemma environment_directories_searched:
  assumes "d \<in> set environment_dirs" and "path_starts_with p d"
  shows "search_workspace_child environment_dirs p"
  using assms by (auto simp: search_workspace_child_def list_ex_iff)

end
