(* ===== verification/Conda_Files.thy ===== *)
theory Conda_Files
  imports Virtual_Envs
begin

text \<open>
  What \<open>pet-conda\<close> reads of a Conda environment: the installed packages (\<open>package.rs\<close>), the
  history of the environment and the command that created it (\<open>environments.rs\<close>), and the manager
  of an installation (\<open>manager.rs\<close>), in the Unix configuration. Decoding the metadata file of a
  package is \<open>serde_json\<close> and an argument: the channel and the version of the file.
\<close>

section \<open>Packages\<close>

datatype package = PkgConda | PkgPython

fun package_name :: "package \<Rightarrow> string" where
  "package_name PkgConda = ''conda''"
| "package_name PkgPython = ''python''"

record package_info =
  pi_package :: package
  pi_path :: path
  pi_version :: string
  pi_arch :: "architecture option"

type_synonym meta_decoder = "string \<Rightarrow> (string option \<times> string option) option"

text \<open>The class \<open>[\d+\.*]\<close> of the version expressions.\<close>

definition is_version_char :: "char \<Rightarrow> bool" where
  "is_version_char c \<longleftrightarrow> is_digit c \<or> c = CHR ''+'' \<or> c = CHR ''.'' \<or> c = CHR ''*''"

text \<open>The version and what follows the dash behind it, for a text that starts with the package.\<close>

definition match_package :: "package \<Rightarrow> string \<Rightarrow> (string \<times> string) option" where
  "match_package pkg t =
     Option.bind (strip_prefix_str (package_name pkg @ ''-'') t) (\<lambda>r.
       map_option (Pair (takeWhile is_version_char r)) (match_char (CHR ''-'') (dropWhile is_version_char r)))"

text \<open>\<open>^python-([\d+\.*]*)-.*.json$\<close>, where the last dot stands for any character.\<close>

definition match_package_file :: "package \<Rightarrow> string \<Rightarrow> string option" where
  "match_package_file pkg name =
     Option.bind (match_package pkg name) (\<lambda>(v, rest).
       if 5 \<le> length rest \<and> suffix ''json'' rest \<and> CHR 0x0A \<notin> set (take (length rest - 4) rest)
       then Some v else None)"

text \<open>\<open>.*python-([\d+\.*]*)-(.*)\<close>: the leading expression is greedy, so the last place counts.\<close>

definition match_history_line :: "package \<Rightarrow> string \<Rightarrow> (string \<times> string) option" where
  "match_history_line pkg line = find_map (match_package pkg) (rev (tails line))"

definition channel_arch :: "string option \<Rightarrow> architecture option" where
  "channel_arch channel =
     (case channel of
        None \<Rightarrow> None
      | Some c \<Rightarrow> if suffix ''64'' c then Some X64 else if suffix ''32'' c then Some X86 else None)"

definition is_package_entry :: "package \<Rightarrow> string \<Rightarrow> bool" where
  "is_package_entry pkg line \<longleftrightarrow> prefix ''+'' line \<and> str_contains ('':'' @ package_name pkg @ ''-'') line"

definition get_conda_package_info_from_history ::
  "meta_decoder \<Rightarrow> file_system \<Rightarrow> path \<Rightarrow> package \<Rightarrow> string \<Rightarrow> package_info option" where
  "get_conda_package_info_from_history meta fs p pkg history =
     Option.bind (List.find (is_package_entry pkg) (rev (lines history))) (\<lambda>line.
     Option.bind (match_history_line pkg line) (\<lambda>(v, h).
       let file = path_join (path_join p ''conda-meta'') (package_name pkg @ ''-'' @ v @ ''-'' @ h @ ''.json'')
       in Option.bind (read_to_string fs file) (\<lambda>contents.
          Option.bind (meta contents) (\<lambda>(channel, ver).
            map_option (\<lambda>ver. \<lparr>pi_package = pkg, pi_path = file, pi_version = ver, pi_arch = channel_arch channel\<rparr>) ver))))"

definition package_of_file :: "meta_decoder \<Rightarrow> file_system \<Rightarrow> package \<Rightarrow> path \<Rightarrow> package_info option" where
  "package_of_file meta fs pkg file =
     (let n = unwrap_or (file_name file) []
      in if prefix (package_name pkg @ ''-'') n \<and> suffix ''.json'' n
         then map_option (\<lambda>v. \<lparr>pi_package = pkg, pi_path = file, pi_version = v,
                pi_arch = Option.bind (Option.bind (read_to_string fs file) meta) (\<lambda>(channel, _). channel_arch channel)\<rparr>)
                (match_package_file pkg n)
         else None)"

definition get_conda_package_info_from_package_json ::
  "meta_decoder \<Rightarrow> file_system \<Rightarrow> path \<Rightarrow> package \<Rightarrow> package_info option" where
  "get_conda_package_info_from_package_json meta fs p pkg =
     Option.bind (read_dir fs (path_join p ''conda-meta'')) (find_map (package_of_file meta fs pkg))"

definition get_conda_package_info ::
  "meta_decoder \<Rightarrow> file_system \<Rightarrow> path \<Rightarrow> package \<Rightarrow> string option \<Rightarrow> package_info option" where
  "get_conda_package_info meta fs p pkg history =
     or_else (Option.bind history (get_conda_package_info_from_history meta fs p pkg))
       (get_conda_package_info_from_package_json meta fs p pkg)"

definition read_history :: "file_system \<Rightarrow> path \<Rightarrow> string option" where
  "read_history fs p = read_to_string fs (path_join (path_join p ''conda-meta'') ''history'')"

definition package_info_from :: "meta_decoder \<Rightarrow> file_system \<Rightarrow> path \<Rightarrow> package \<Rightarrow> package_info option" where
  "package_info_from meta fs p pkg = get_conda_package_info meta fs p pkg (read_history fs p)"

section \<open>The command that created an environment\<close>

definition get_conda_creation_line :: "string \<Rightarrow> string option" where
  "get_conda_creation_line history =
     List.find (\<lambda>l. prefix ''# cmd:'' (to_lowercase l) \<and> str_contains '' create -'' (to_lowercase l))
       (map trim (lines history))"

definition is_conda_env_name_in_cmd :: "string \<Rightarrow> string \<Rightarrow> bool" where
  "is_conda_env_name_in_cmd cmd_line name \<longleftrightarrow>
     str_contains (''-n '' @ name) cmd_line \<or> str_contains (''--name '' @ name) cmd_line"

definition find_ascii_case_insensitive :: "string \<Rightarrow> string \<Rightarrow> nat option" where
  "find_ascii_case_insensitive haystack needle = str_find (to_lowercase needle) (to_lowercase haystack)"

definition get_conda_executable_from_cmd :: "string \<Rightarrow> path option" where
  "get_conda_executable_from_cmd cmd_line =
     Option.bind (find_ascii_case_insensitive cmd_line ''# cmd:'') (\<lambda>i.
     Option.bind (find_ascii_case_insensitive cmd_line '' create -'') (\<lambda>end_index.
       let start_index = i + 6
       in if end_index < start_index then None
          else let exe = trim (take (end_index - start_index) (drop start_index cmd_line))
               in if exe = [] then None else Some exe))"

text \<open>The loop that leaves the \<open>site-packages\<close> directory: it pops while the path mentions \<open>lib\<close>
  and does not end with it.\<close>

function pop_to_lib :: "path \<Rightarrow> path" where
  "pop_to_lib p =
     (if str_contains ''lib'' p \<and> \<not> suffix ''lib'' p \<and> parent p \<noteq> None then pop_to_lib (path_pop p) else p)"
  by auto
termination
  by (relation "measure (\<lambda>p. length (components p))") (auto simp: path_pop_def dest: parent_shorter)

declare pop_to_lib.simps [simp del]

definition site_packages_root :: "path \<Rightarrow> path" where
  "site_packages_root d =
     (if str_contains ''site-packages'' d \<and> str_contains ''lib'' d
      then let r = pop_to_lib d in if path_ends_with r ''lib'' then path_pop r else r
      else d)"

definition get_conda_dir_from_cmd :: "file_system \<Rightarrow> string \<Rightarrow> path option" where
  "get_conda_dir_from_cmd fs cmd_line =
     Option.bind (get_conda_executable_from_cmd cmd_line) (\<lambda>exe0.
       let exe = unwrap_or (resolve_symlink fs exe0) exe0
       in Option.bind (parent exe) (\<lambda>d.
          Option.bind (file_name d) (\<lambda>n.
            if to_lowercase n \<in> {''bin'', ''scripts'', ''condabin''} \<and> parent d \<noteq> None
            then map_option norm_case (parent d)
            else Some (norm_case (site_packages_root d)))))"

section \<open>Environments\<close>

record conda_manager =
  cm_executable :: path
  cm_version :: "string option"
  cm_conda_dir :: "path option"
  cm_type :: manager_type

record conda_environment =
  ce_prefix :: path
  ce_executable :: "path option"
  ce_version :: "string option"
  ce_conda_dir :: "path option"
  ce_arch :: "architecture option"
  ce_name :: "string option"

definition to_python_environment :: "file_system \<Rightarrow> env_manager option \<Rightarrow> conda_environment \<Rightarrow> python_environment" where
  "to_python_environment fs mgr ce =
     build (with_manager mgr (with_name (ce_name ce)
       (with_symlinks (Some (find_executables fs (ce_prefix ce)))
       (with_arch (ce_arch ce) (with_prefix (Some (ce_prefix ce)) (with_version (ce_version ce)
       (with_executable (ce_executable ce) (builder_new (Some Conda)))))))))"

definition get_conda_installation_from_creation_line :: "file_system \<Rightarrow> path \<Rightarrow> string option \<Rightarrow> path option" where
  "get_conda_installation_from_creation_line fs env_path creation_line =
     (let install = (\<lambda>d. if is_conda_install fs d then Some d else None)
      in or_else (Option.bind (Option.bind (parent env_path) parent) install)
           (or_else (Option.bind (Option.bind creation_line (get_conda_dir_from_cmd fs)) (\<lambda>d.
                       or_else (install d) (Option.bind (parent d) install)))
              (install env_path)))"

definition get_conda_installation_used_to_create_conda_env :: "file_system \<Rightarrow> path \<Rightarrow> path option" where
  "get_conda_installation_used_to_create_conda_env fs env_path =
     get_conda_installation_from_creation_line fs env_path
       (Option.bind (read_history fs env_path) get_conda_creation_line)"

definition get_conda_env_name_from_creation_line :: "path \<Rightarrow> string option \<Rightarrow> string option" where
  "get_conda_env_name_from_creation_line p creation_line =
     Option.bind (file_name p) (\<lambda>n.
     Option.bind creation_line (\<lambda>line. if is_conda_env_name_in_cmd line n then Some n else None))"

definition get_conda_env_name :: "file_system \<Rightarrow> path \<Rightarrow> path option \<Rightarrow> string option \<Rightarrow> string option" where
  "get_conda_env_name fs p conda_dir creation_line =
     (let n = if is_conda_install fs p then Some ''base'' else file_name p
      in case conda_dir of
           Some d \<Rightarrow> if path_starts_with p d then n else get_conda_env_name_from_creation_line p creation_line
         | None \<Rightarrow> n)"

definition get_conda_environment_info ::
  "meta_decoder \<Rightarrow> file_system \<Rightarrow> path \<Rightarrow> conda_manager option \<Rightarrow> conda_environment option" where
  "get_conda_environment_info meta fs env_path mgr =
     (if \<not> is_conda_env fs env_path then None
      else
        let history = read_history fs env_path;
            creation_line = Option.bind history get_conda_creation_line;
            found = or_else (get_conda_installation_from_creation_line fs env_path creation_line)
                      (Option.bind mgr cm_conda_dir);
            conda_dir = Option.bind found (\<lambda>d. if exists fs d then Some d else None);
            exe = find_executable fs env_path;
            pkg = Option.bind exe (\<lambda>_. get_conda_package_info meta fs env_path PkgPython history)
        in Some \<lparr>ce_prefix = env_path, ce_executable = exe, ce_version = map_option pi_version pkg,
                 ce_conda_dir = conda_dir, ce_arch = Option.bind pkg pi_arch,
                 ce_name = get_conda_env_name fs env_path conda_dir creation_line\<rparr>)"

section \<open>Managers\<close>

definition get_conda_executable :: "file_system \<Rightarrow> path \<Rightarrow> path option" where
  "get_conda_executable fs p =
     List.find (exists fs) (map (path_join p) [path_join ''bin'' ''conda''])"

definition get_mamba_executable :: "file_system \<Rightarrow> path \<Rightarrow> path option" where
  "get_mamba_executable fs p =
     List.find (exists fs) (map (path_join p) [path_join ''bin'' ''mamba'', path_join ''bin'' ''micromamba''])"

definition is_symlink :: "file_system \<Rightarrow> path \<Rightarrow> bool" where
  "is_symlink fs p \<longleftrightarrow> symlink_metadata fs p = Some Symlink"

definition find_binary :: "file_system \<Rightarrow> string list \<Rightarrow> string option \<Rightarrow> path option" where
  "find_binary fs names search_path =
     Option.bind search_path (\<lambda>v.
       List.find (\<lambda>p. is_file fs p \<or> is_symlink fs p)
         (concat (map (\<lambda>d. map (path_join d) names) (split_on (CHR '':'') v))))"

definition find_conda_binary :: "file_system \<Rightarrow> string option \<Rightarrow> path option" where
  "find_conda_binary fs = find_binary fs [''conda'']"

definition find_mamba_binary :: "file_system \<Rightarrow> string option \<Rightarrow> path option" where
  "find_mamba_binary fs = find_binary fs [''mamba'', ''micromamba'']"

definition conda_to_manager :: "conda_manager \<Rightarrow> env_manager" where
  "conda_to_manager m = \<lparr>mgr_executable = cm_executable m, mgr_version = cm_version m, mgr_tool = cm_type m\<rparr>"

definition get_conda_manager :: "meta_decoder \<Rightarrow> file_system \<Rightarrow> path \<Rightarrow> conda_manager option" where
  "get_conda_manager meta fs p =
     Option.bind (get_conda_executable fs p) (\<lambda>exe.
       map_option (\<lambda>pkg. \<lparr>cm_executable = exe, cm_version = Some (pi_version pkg),
                          cm_conda_dir = Some p, cm_type = MgrConda\<rparr>)
         (package_info_from meta fs p PkgConda))"

definition get_mamba_manager :: "file_system \<Rightarrow> path \<Rightarrow> conda_manager option" where
  "get_mamba_manager fs p =
     map_option (\<lambda>exe. \<lparr>cm_executable = exe, cm_version = None, cm_conda_dir = Some p, cm_type = MgrMamba\<rparr>)
       (get_mamba_executable fs p)"

definition is_mamba_executable :: "path \<Rightarrow> bool" where
  "is_mamba_executable exe \<longleftrightarrow>
     (case file_name exe of
        Some n \<Rightarrow> prefix ''mamba'' (to_lowercase n) \<or> prefix ''micromamba'' (to_lowercase n)
      | None \<Rightarrow> False)"

definition conda_manager_from :: "meta_decoder \<Rightarrow> file_system \<Rightarrow> path \<Rightarrow> conda_manager option" where
  "conda_manager_from meta fs p =
     (let manager_of = (\<lambda>d. or_else (get_conda_manager meta fs d) (get_mamba_manager fs d))
      in if \<not> is_conda_env fs p then None
         else or_else (Option.bind (Option.bind (parent p) parent) (\<lambda>d.
                         if is_conda_install fs d then manager_of d else None))
                (case get_conda_installation_used_to_create_conda_env fs p of
                   Some d \<Rightarrow> manager_of d
                 | None \<Rightarrow>
                     if (case parent p of
                           Some d \<Rightarrow> path_ends_with d ''.conda/envs'' \<or> path_ends_with d (''.conda'' @ [CHR 0x5C] @ ''envs'')
                         | None \<Rightarrow> False)
                     then None
                     else manager_of p))"

section \<open>Lemmas\<close>

lemma mentioned_parent:
  assumes "str_contains pat p" "c \<in> set pat" "c \<noteq> CHR ''/''" "c \<noteq> CHR ''.''"
  shows "parent p \<noteq> None"
proof -
  have "c \<in> set p"
    using assms(1,2) set_mono_sublist by (auto simp: str_contains_sublist)
  then have "c \<in> set (join_with (CHR ''/'') (split_on (CHR ''/'') p))" by simp
  then obtain s where s: "s \<in> set (split_on (CHR ''/'') p)" "c \<in> set s"
    using assms(3) in_join_with by metis
  obtain t ts where ts: "split_on (CHR ''/'') p = t # ts" by (cases "split_on (CHR ''/'') p") auto
  from s(2) assms(4) have ne: "s \<noteq> ''.''" "s \<noteq> []" by auto
  then obtain k where k: "comp_of s = [k]" "k \<noteq> RootDir"
    by (cases "s = ''..''") (auto simp: comp_of_def)
  have "k \<in> set (components p)"
  proof (cases "s = t")
    case True
    with ne ts have "\<not> has_root p" by (simp add: has_root_first_segment)
    with True ne k(1) ts show ?thesis by (simp add: components_def)
  next
    case False
    with s(1) ts have "s \<in> set ts" by simp
    with k(1) ts show ?thesis by (force simp: components_def)
  qed
  with k(2) show ?thesis by (auto simp: parent_None_iff)
qed

text \<open>The guard of the loop against paths without a parent never holds it back.\<close>

lemma pop_to_lib_loop:
  "pop_to_lib p = (if str_contains ''lib'' p \<and> \<not> suffix ''lib'' p then pop_to_lib (path_pop p) else p)"
proof -
  have "str_contains ''lib'' p \<Longrightarrow> parent p \<noteq> None"
    by (rule mentioned_parent [of "''lib''" p "CHR ''l''"]) simp_all
  then have "str_contains ''lib'' p \<and> \<not> suffix ''lib'' p \<and> parent p \<noteq> None \<longleftrightarrow> str_contains ''lib'' p \<and> \<not> suffix ''lib'' p"
    by blast
  then show ?thesis by (subst pop_to_lib.simps) (rule if_cong, simp_all only:)
qed

end
