(* ===== verification/Platform_Dirs.thy ===== *)
theory Platform_Dirs
  imports Fs_Path
begin

text \<open>
  The cache, data and configuration directories of an application on Linux and macOS
  (\<open>pet-python-utils/src/platform_dirs.rs\<close>).
\<close>

definition user_cache_dir :: "target_os \<Rightarrow> env_vars \<Rightarrow> string \<Rightarrow> path option" where
  "user_cache_dir os vars app =
     (if os = MacOs
      then map_option (\<lambda>h. path_join (path_join (path_join h ''Library'') ''Caches'') app) (vars ''HOME'')
      else map_option (\<lambda>d. path_join d app)
             (or_else (vars ''XDG_CACHE_HOME'') (map_option (\<lambda>h. path_join h ''.cache'') (vars ''HOME''))))"

definition user_data_dir :: "target_os \<Rightarrow> env_vars \<Rightarrow> string \<Rightarrow> path option" where
  "user_data_dir os vars app =
     (if os = MacOs
      then map_option (\<lambda>h. path_join (path_join (path_join h ''Library'') ''Application Support'') app) (vars ''HOME'')
      else map_option (\<lambda>d. path_join d app)
             (or_else (vars ''XDG_DATA_HOME'')
                (map_option (\<lambda>h. path_join (path_join h ''.local'') ''share'') (vars ''HOME''))))"

definition user_config_path :: "target_os \<Rightarrow> env_vars \<Rightarrow> string \<Rightarrow> path option" where
  "user_config_path os vars app =
     (if os = MacOs then user_data_dir os vars app
      else map_option (\<lambda>d. path_join d app)
             (or_else (vars ''XDG_CONFIG_HOME'') (map_option (\<lambda>h. path_join h ''.config'') (vars ''HOME''))))"

end
