(* ===== verification/Conda_Locations.thy ===== *)
theory Conda_Locations
  imports Conda_Files Platform_Dirs Os_Environment
begin

text \<open>
  Where \<open>pet-conda\<close> looks for environments: the variables it reads (\<open>env_variables.rs\<close>), the
  settings files (\<open>conda_rc.rs\<close>) and the candidate directories (\<open>environment_locations.rs\<close>), in
  the Unix configurations. Parsing YAML is the crate \<open>yaml_rust2\<close> and an argument. A hash set of
  paths has no order of its own: it is listed sorted here, and what is computed from it is sorted
  by the program.
\<close>

section \<open>Variables\<close>

record conda_vars =
  cv_home :: "path option"
  cv_root :: "path option"
  cv_path :: "string option"
  cv_conda_root :: "string option"
  cv_conda_dir :: "string option"
  cv_conda :: "string option"
  cv_conda_prefix :: "string option"
  cv_mamba_root_prefix :: "string option"
  cv_conda_envs_path :: "string option"
  cv_condarc :: "string option"
  cv_mambarc :: "string option"
  cv_anaconda_project_envs_path :: "string option"
  cv_project_dir :: "string option"
  cv_xdg_config_home :: "string option"
  cv_known_global_search_locations :: "path list"

definition conda_vars_from :: "path list \<Rightarrow> env_vars \<Rightarrow> conda_vars" where
  "conda_vars_from locations vars =
     \<lparr>cv_home = os_user_home vars, cv_root = None, cv_path = vars ''PATH'',
      cv_conda_root = vars ''CONDA_ROOT'', cv_conda_dir = vars ''CONDA_DIR'', cv_conda = vars ''CONDA'',
      cv_conda_prefix = vars ''CONDA_PREFIX'', cv_mamba_root_prefix = vars ''MAMBA_ROOT_PREFIX'',
      cv_conda_envs_path = vars ''CONDA_ENVS_PATH'', cv_condarc = vars ''CONDARC'', cv_mambarc = vars ''MAMBARC'',
      cv_anaconda_project_envs_path = vars ''ANACONDA_PROJECT_ENVS_PATH'', cv_project_dir = vars ''PROJECT_DIR'',
      cv_xdg_config_home = vars ''XDG_CONFIG_HOME'', cv_known_global_search_locations = locations\<rparr>"

section \<open>Settings files\<close>

datatype yaml =
    YReal string | YInteger int | YString string | YBoolean bool | YArray "yaml list"
  | YHash "(yaml \<times> yaml) list" | YAlias nat | YNull | YBadValue

type_synonym yaml_parser = "string \<Rightarrow> yaml list option"

text \<open>\<open>doc["key"]\<close>, \<open>as_vec\<close> and \<open>as_str\<close>.\<close>

fun yaml_index :: "string \<Rightarrow> yaml \<Rightarrow> yaml" where
  "yaml_index k (YHash fs) = unwrap_or (map_of fs (YString k)) YBadValue"
| "yaml_index k _ = YBadValue"

fun yaml_vec :: "yaml \<Rightarrow> yaml list option" where
  "yaml_vec (YArray xs) = Some xs"
| "yaml_vec _ = None"

fun yaml_str :: "yaml \<Rightarrow> string option" where
  "yaml_str (YString s) = Some s"
| "yaml_str _ = None"

text \<open>What a search reads: the system, the process environment, the file system, the parsers, and
  the variables the locator took at its creation.\<close>

record conda_context =
  cx_os :: target_os
  cx_vars :: env_vars
  cx_fs :: file_system
  cx_yaml :: yaml_parser
  cx_meta :: meta_decoder
  cx_env :: conda_vars

record condarc =
  rc_files :: "path list"
  rc_env_dirs :: "path list"

definition change_root_of_path :: "path \<Rightarrow> path option \<Rightarrow> path" where
  "change_root_of_path p new_root = (case new_root of Some r \<Rightarrow> path_join r (drop 1 p) | None \<Rightarrow> p)"

definition system_rc_paths :: "path list" where
  "system_rc_paths =
     concat (map (\<lambda>d.
       [''/etc/'' @ d @ ''/.condarc'', ''/etc/'' @ d @ ''/condarc'', ''/etc/'' @ d @ ''/condarc.d'', ''/etc/'' @ d @ ''/mambarc'',
        ''/var/lib/'' @ d @ ''/.condarc'', ''/var/lib/'' @ d @ ''/condarc'', ''/var/lib/'' @ d @ ''/condarc.d'',
        ''/var/lib/'' @ d @ ''/.mambarc''])
       [''conda'', ''miniconda'', ''miniconda3''])"

definition below :: "path option \<Rightarrow> path list \<Rightarrow> path list" where
  "below d names = (case d of Some d \<Rightarrow> map (path_join d) names | None \<Rightarrow> [])"

definition get_conda_rc_search_paths :: "conda_context \<Rightarrow> path list" where
  "get_conda_rc_search_paths cx =
     (let env = cx_env cx; expand = map_option (expand_path (cx_vars cx))
      in sort_dedup (
           map (\<lambda>p. change_root_of_path p (cv_root env)) system_rc_paths
           @ below (expand (cv_conda_root env)) [''.condarc'', ''condarc'', ''.condarc.d'', ''.mambarc'']
           @ below (cv_xdg_config_home env) [''.condarc'', ''condarc'', ''.condarc.d'', ''.mambarc'']
           @ below (cv_home env)
               [''.config/conda/.condarc'', ''.config/conda/condarc'', ''.config/conda/condarc.d'',
                ''.conda/.condarc'', ''.conda/condarc'', ''.conda/condarc.d'', ''.condarc'', ''condarc'', ''condarc.d'', ''.mambarc'']
           @ below (expand (cv_conda_prefix env)) [''.condarc'', ''condarc'', ''.condarc.d'', ''.mamabarc'']
           @ below (expand (cv_conda_dir env)) [''.condarc'', ''condarc'', ''.condarc.d'']
           @ to_list (expand (cv_condarc env)) @ to_list (expand (cv_mambarc env))))"

text \<open>An entry that is not a text makes \<open>unwrap\<close> panic.\<close>

fun rc_env_dirs_of :: "env_vars \<Rightarrow> yaml list \<Rightarrow> path list outcome" where
  "rc_env_dirs_of vars [] = Ret []"
| "rc_env_dirs_of vars (item # items) =
     (case yaml_str item of
        None \<Rightarrow> Panic ''called `Option::unwrap()` on a `None` value''
      | Some s \<Rightarrow>
          if s = [] then rc_env_dirs_of vars items
          else and_then (rc_env_dirs_of vars items) (\<lambda>ds. Ret (expand_path vars (trim s) # ds)))"

definition parse_conda_rc_contents :: "env_vars \<Rightarrow> yaml_parser \<Rightarrow> string \<Rightarrow> path list outcome" where
  "parse_conda_rc_contents vars yaml contents =
     (case yaml contents of
        Some (doc # _) \<Rightarrow>
          let dirs = (\<lambda>k. case yaml_vec (yaml_index k doc) of Some items \<Rightarrow> rc_env_dirs_of vars items | None \<Rightarrow> Ret [])
          in and_then (dirs ''envs_dirs'') (\<lambda>a. and_then (dirs ''envs_path'') (\<lambda>b. Ret (a @ b)))
      | _ \<Rightarrow> Ret [])"

definition parse_conda_rc :: "conda_context \<Rightarrow> path \<Rightarrow> condarc option outcome" where
  "parse_conda_rc cx file =
     (case read_to_string (cx_fs cx) file of
        None \<Rightarrow> Ret None
      | Some t \<Rightarrow>
          and_then (parse_conda_rc_contents (cx_vars cx) (cx_yaml cx) t) (\<lambda>ds.
            Ret (Some \<lparr>rc_files = [file], rc_env_dirs = ds\<rparr>)))"

text \<open>\<open>Path::extension\<close>: what follows the last dot of the name, when something precedes it.\<close>

definition path_extension :: "path \<Rightarrow> string option" where
  "path_extension p =
     Option.bind (file_name p) (\<lambda>n.
       let ext = rev (takeWhile (\<lambda>c. c \<noteq> CHR ''.'') (rev n))
       in if length n \<le> Suc (length ext) then None else Some ext)"

definition is_rc_file_name :: "path \<Rightarrow> bool" where
  "is_rc_file_name p \<longleftrightarrow>
     (let n = to_lowercase (unwrap_or (file_name p) []); ext = to_lowercase (unwrap_or (path_extension p) [])
      in n \<in> {''.condarc'', ''condarc'', ''.condarc.d''} \<or> ext \<in> {''yaml'', ''yml''} \<or> str_contains ''condarc'' n)"

definition condarc_of :: "condarc list \<Rightarrow> condarc option" where
  "condarc_of rcs =
     (let files = concat (map rc_files rcs); dirs = concat (map rc_env_dirs rcs)
      in if dirs = [] \<and> files = [] then None else Some \<lparr>rc_files = files, rc_env_dirs = dirs\<rparr>)"

definition conda_rc_from_path :: "conda_context \<Rightarrow> path \<Rightarrow> condarc option outcome" where
  "conda_rc_from_path cx p =
     (let fs = cx_fs cx;
          files = if is_file fs p then [p]
                  else if is_dir fs p
                  then filter is_rc_file_name (filter (is_file fs) (unwrap_or (read_dir fs p) []))
                  else []
      in and_then (map_outcome (parse_conda_rc cx) files) (\<lambda>rcs. Ret (condarc_of (List.map_filter id rcs))))"

definition get_conda_conda_rc :: "conda_context \<Rightarrow> condarc option outcome" where
  "get_conda_conda_rc cx =
     and_then (map_outcome (conda_rc_from_path cx) (get_conda_rc_search_paths cx)) (\<lambda>rcs.
       Ret (condarc_of (List.map_filter id rcs)))"

section \<open>Candidate directories\<close>

definition rc_path_dirs :: "conda_context \<Rightarrow> path \<Rightarrow> path list outcome" where
  "rc_path_dirs cx p =
     (let fs = cx_fs cx
      in if \<not> exists fs p then Ret []
         else and_then (conda_rc_from_path cx p) (\<lambda>rc. Ret (
                (case rc of Some r \<Rightarrow> filter (exists fs) (rc_env_dirs r) | None \<Rightarrow> [])
                @ (if is_dir fs p then [p] else if is_file fs p then to_list (parent p) else []))))"

definition get_conda_environment_paths_from_conda_rc :: "conda_context \<Rightarrow> path list outcome" where
  "get_conda_environment_paths_from_conda_rc cx =
     and_then (map_outcome (rc_path_dirs cx) (get_conda_rc_search_paths cx)) (\<lambda>dirs.
     and_then (get_conda_conda_rc cx) (\<lambda>rc.
       Ret (concat dirs @ (case rc of Some r \<Rightarrow> rc_env_dirs r | None \<Rightarrow> []))))"

definition known_conda_paths :: "conda_context \<Rightarrow> path \<Rightarrow> path list" where
  "known_conda_paths cx home =
     (let env = cx_env cx; expand = expand_path (cx_vars cx);
          paths_of = (\<lambda>v. case v of Some v \<Rightarrow> map expand (split_on (CHR '':'') v) | None \<Rightarrow> [])
      in map (path_join home)
           [''.conda/envs'', ''/opt/conda/envs'', ''C:/Anaconda/envs'', ''AppData/Local/conda/envs'',
            ''AppData/Local/conda/conda/envs'', ''envs'', ''my-envs'']
         @ to_list (map_option (\<lambda>d. path_join d ''envs'') (user_data_dir (cx_os cx) (cx_vars cx) ''conda''))
         @ paths_of (cv_conda_envs_path env) @ paths_of (cv_anaconda_project_envs_path env)
         @ to_list (map_option expand (cv_project_dir env)))"

definition get_conda_environment_paths_from_known_paths :: "conda_context \<Rightarrow> path list" where
  "get_conda_environment_paths_from_known_paths cx =
     (let fs = cx_fs cx;
          listed = (case cv_home (cx_env cx) of
                      Some home \<Rightarrow>
                        concat (map (\<lambda>p. filter (is_dir fs) (unwrap_or (read_dir fs p) [])) (known_conda_paths cx home))
                    | None \<Rightarrow> [])
      in filter (exists fs) (sort_dedup (listed @ cv_known_global_search_locations (cx_env cx))))"

definition conda_env_children :: "file_system \<Rightarrow> path \<Rightarrow> path list" where
  "conda_env_children fs d = filter (is_conda_env fs) (unwrap_or (read_dir fs d) [])"

text \<open>The environments of a directory: an installation with its \<open>envs\<close>, an environment with the
  installation it belongs to, or a folder of environments.\<close>

lemma grandparent_shorter:
  "parent p = Some d \<Longrightarrow> parent d = Some g \<Longrightarrow> length (components g) < length (components p)"
  using parent_shorter [of p d] parent_shorter [of d g] by simp

function get_environments :: "conda_context \<Rightarrow> path \<Rightarrow> path list outcome" where
  "get_environments cx p =
     and_then
       (if is_conda_install (cx_fs cx) p
        then and_then (conda_rc_from_path cx p) (\<lambda>rc.
               Ret (p # conda_env_children (cx_fs cx) (path_join p ''envs'')
                    @ (case rc of Some r \<Rightarrow> rc_env_dirs r | None \<Rightarrow> [])))
        else if is_conda_env (cx_fs cx) p
        then (case parent p of
                Some d \<Rightarrow>
                  (case parent d of
                     Some g \<Rightarrow>
                       if file_name d = Some ''envs'' \<and> is_conda_install (cx_fs cx) g \<and> \<not> path_contains [p] g
                       then and_then (get_environments cx g) (\<lambda>es. Ret (p # es))
                       else Ret [p]
                   | None \<Rightarrow> Ret [p])
              | None \<Rightarrow> Ret [p])
        else if exists (cx_fs cx) (path_join p ''envs'')
        then Ret (conda_env_children (cx_fs cx) (path_join p ''envs''))
        else Ret (conda_env_children (cx_fs cx) p))
       (\<lambda>es. Ret (sort_dedup es))"
  by pat_completeness auto
termination
  by (relation "measure (\<lambda>(_, p). length (components p))") (auto dest: grandparent_shorter)

declare get_environments.simps [simp del]

definition get_conda_envs_from_environment_txt :: "conda_context \<Rightarrow> path list" where
  "get_conda_envs_from_environment_txt cx =
     (case cv_home (cx_env cx) of
        None \<Rightarrow> []
      | Some home \<Rightarrow>
          (case read_to_string (cx_fs cx) (path_join (path_join home ''.conda'') ''environments.txt'') of
             None \<Rightarrow> []
           | Some t \<Rightarrow> filter (exists (cx_fs cx)) (map norm_case (lines t))))"

definition get_conda_dir_from_exe :: "file_system \<Rightarrow> path option \<Rightarrow> path option" where
  "get_conda_dir_from_exe fs exe =
     Option.bind exe (\<lambda>e.
       let first_env = (\<lambda>d. if is_conda_env fs d then Some d
                             else Option.bind (parent d) (\<lambda>q. if is_conda_env fs q then Some q else None))
       in if is_file fs e then Option.bind (parent e) first_env else first_env e)"

definition install_names :: "string list" where
  "install_names = [''anaconda'', ''anaconda3'', ''miniconda'', ''miniconda3'', ''miniforge3'', ''micromamba'']"

definition home_install_paths :: "target_os \<Rightarrow> path \<Rightarrow> path list" where
  "home_install_paths os home =
     concat (map (\<lambda>p. map (path_join p) install_names)
       [home, path_join home ''opt'', path_join home ''.conda'', path_join home ''.local'',
        ''/opt'', ''/usr/share'', ''/usr/local'', ''/usr'',
        if os = MacOs then ''/opt/homebrew'' else ''/home/linuxbrew/.linuxbrew''])
     @ [path_join ''/opt'' ''conda'', path_join home ''.conda'', path_join home ''.local'']"

definition get_known_conda_install_locations :: "conda_context \<Rightarrow> path option \<Rightarrow> path list" where
  "get_known_conda_install_locations cx conda_exe =
     (let fs = cx_fs cx; env = cx_env cx;
          expand = (\<lambda>v. to_list (map_option (expand_path (cx_vars cx)) v));
          conda_from_path = (if conda_exe = None then find_conda_binary fs (cv_path env) else None)
      in filter (exists fs) (sort_dedup (
           [''/anaconda'', ''/anaconda3'', ''/miniconda'', ''/miniconda3'', ''/miniforge'', ''/miniforge3'', ''/micromamba'']
           @ expand (cv_conda_root env) @ expand (cv_conda_prefix env) @ expand (cv_mamba_root_prefix env)
           @ expand (cv_conda_dir env) @ expand (cv_conda env)
           @ (case cv_home env of Some home \<Rightarrow> home_install_paths (cx_os cx) home | None \<Rightarrow> [])
           @ to_list (get_conda_dir_from_exe fs conda_exe)
           @ to_list (get_conda_dir_from_exe fs conda_from_path)
           @ to_list (get_conda_dir_from_exe fs (find_mamba_binary fs (cv_path env))))))"

definition is_wsl :: "file_system \<Rightarrow> bool" where
  "is_wsl fs \<longleftrightarrow>
     (case read_to_string fs ''/proc/version'' of Some v \<Rightarrow> str_contains ''microsoft'' (to_lowercase v) | None \<Rightarrow> False)"

definition is_ascii_alphabetic :: "char \<Rightarrow> bool" where
  "is_ascii_alphabetic c \<longleftrightarrow> (CHR ''a'' \<le> c \<and> c \<le> CHR ''z'') \<or> (CHR ''A'' \<le> c \<and> c \<le> CHR ''Z'')"

definition is_windows_drive_mount :: "path \<Rightarrow> bool" where
  "is_windows_drive_mount p \<longleftrightarrow>
     (case strip_prefix_str ''/mnt/'' p of
        Some (c # r) \<Rightarrow> is_ascii_alphabetic c \<and> (case r of [] \<Rightarrow> True | d # _ \<Rightarrow> d = CHR ''/'')
      | _ \<Rightarrow> False)"

definition is_wsl_windows_drive_path :: "file_system \<Rightarrow> path \<Rightarrow> bool" where
  "is_wsl_windows_drive_path fs p \<longleftrightarrow> is_wsl fs \<and> is_windows_drive_mount p"

text \<open>What joining a thread of the search gives: a panic is swallowed, with all it had found.\<close>

fun joined :: "'a list outcome \<Rightarrow> 'a list" where
  "joined (Ret xs) = xs"
| "joined (Panic _) = []"

definition conda_search_roots :: "conda_context \<Rightarrow> path option \<Rightarrow> path list" where
  "conda_search_roots cx conda_exe =
     filter (\<lambda>p. \<not> is_wsl_windows_drive_path (cx_fs cx) p)
       (sort_dedup (map norm_case (
          get_conda_envs_from_environment_txt cx
          @ joined (get_conda_environment_paths_from_conda_rc cx)
          @ get_conda_environment_paths_from_known_paths cx
          @ get_known_conda_install_locations cx conda_exe)))"

definition get_conda_environment_paths :: "conda_context \<Rightarrow> path option \<Rightarrow> path list outcome" where
  "get_conda_environment_paths cx conda_exe =
     and_then (map_outcome (get_environments cx) (filter (exists (cx_fs cx)) (conda_search_roots cx conda_exe)))
       (\<lambda>ess. Ret (sort_dedup (concat ess)))"

section \<open>Lemmas\<close>

lemma get_environments_install:
  assumes "is_conda_install (cx_fs cx) p"
  shows "get_environments cx p =
    and_then (conda_rc_from_path cx p) (\<lambda>rc.
      Ret (sort_dedup (p # conda_env_children (cx_fs cx) (path_join p ''envs'')
             @ (case rc of Some r \<Rightarrow> rc_env_dirs r | None \<Rightarrow> []))))"
  using assms by (subst get_environments.simps) (cases "conda_rc_from_path cx p"; simp)

lemma is_conda_install_env_disjoint:
  assumes "parent p = Some d" "parent d = Some g" "is_conda_install fs g"
  shows "\<not> is_conda_install fs p"
  using assms by (simp add: is_conda_install_def)

lemma grandparent_differs: "parent p = Some d \<Longrightarrow> parent d = Some g \<Longrightarrow> \<not> path_contains [p] g"
  using grandparent_shorter [of p d g] by (auto simp: path_contains_def path_eq_def)

text \<open>An environment below \<open>envs\<close> of an installation brings the installation and its siblings.\<close>

lemma get_environments_child:
  assumes "parent p = Some d" "parent d = Some g" "file_name d = Some ''envs''"
    and "is_conda_install (cx_fs cx) g" "is_conda_env (cx_fs cx) p"
  shows "get_environments cx p = and_then (get_environments cx g) (\<lambda>es. Ret (sort_dedup (p # es)))"
  using assms is_conda_install_env_disjoint [OF assms(1,2,4)] grandparent_differs [OF assms(1,2)]
  by (subst get_environments.simps) (cases "get_environments cx g"; simp)

lemma get_environments_sorted: "get_environments cx p = Ret es \<Longrightarrow> sorted_wrt (<) (map components es)"
  by (subst (asm) get_environments.simps) (auto simp: and_then_Ret sort_dedup_sorted)

text \<open>Settings with an entry that is not a text cannot be read.\<close>

lemma rc_env_dirs_of_panics:
  "(\<exists>m. rc_env_dirs_of vars items = Panic m) \<longleftrightarrow> (\<exists>i \<in> set items. yaml_str i = None)"
  by (induction items) (auto simp: and_then_def split: option.splits outcome.splits)

lemma parse_conda_rc_contents_panics:
  assumes "yaml t = Some (doc # docs)" "yaml_vec (yaml_index ''envs_dirs'' doc) = Some items"
    "i \<in> set items" "yaml_str i = None"
  shows "\<exists>m. parse_conda_rc_contents vars yaml t = Panic m"
proof -
  have "\<exists>i \<in> set items. yaml_str i = None" using assms(3,4) by blast
  then obtain m where "rc_env_dirs_of vars items = Panic m"
    using rc_env_dirs_of_panics [of vars items] by blast
  with assms(1,2) show ?thesis by (simp add: parse_conda_rc_contents_def)
qed

text \<open>The answers of a file system do not depend on the spelling of a path.\<close>

definition spelling_independent :: "file_system \<Rightarrow> bool" where
  "spelling_independent fs \<longleftrightarrow>
     (\<forall>p q. path_eq p q \<longrightarrow> is_file fs p = is_file fs q \<and> is_dir fs p = is_dir fs q \<and> exists fs p = exists fs q)"

lemma spelling_plain_fs: "spelling_independent (plain_fs files dirs)"
  by (auto simp: spelling_independent_def plain_fs_def path_contains_def path_eq_def)

lemma path_join_eq: "path_eq p q \<Longrightarrow> simple_name n \<Longrightarrow> path_eq (path_join p n) (path_join q n)"
  by (simp add: path_eq_def components_join)

lemma spelling_fs:
  assumes "spelling_independent fs" "path_eq p q"
  shows "is_file fs p = is_file fs q" "is_dir fs p = is_dir fs q" "exists fs p = exists fs q"
  using assms by (auto simp: spelling_independent_def)

lemma literal_names: "simple_name ''conda-meta''" "simple_name ''pixi''" "simple_name ''condabin''" "simple_name ''envs''"
  by (simp_all add: simple_name_def)

lemma parent_spelling:
  "path_eq p q \<Longrightarrow> parent p = Some d \<Longrightarrow> \<exists>e. parent q = Some e \<and> path_eq d e"
  using components_parent [of p] components_parent [of q] parent_None_iff [of p] parent_None_iff [of q]
  by (cases "parent q") (auto simp: path_eq_def)

lemma file_name_spelling: "path_eq p q \<Longrightarrow> file_name p = file_name q"
  by (simp add: path_eq_def file_name_def)

lemma is_conda_env_spelling:
  assumes "spelling_independent fs" "path_eq p q"
  shows "is_conda_env fs p = is_conda_env fs q"
proof -
  note c = path_join_eq [OF assms(2) literal_names(1)]
  from spelling_fs(2) [OF assms(1) c] spelling_fs(1) [OF assms(1) path_join_eq [OF c literal_names(2)]]
  show ?thesis by (simp only: is_conda_env_def)
qed

lemma has_conda_root_spelling:
  assumes "spelling_independent fs" "path_eq p q"
  shows "has_conda_root fs p = has_conda_root fs q"
proof -
  have "exists fs (path_join p n) = exists fs (path_join q n)" if "simple_name n" for n
    using spelling_fs(3) [OF assms(1) path_join_eq [OF assms(2) that]] .
  from this [OF literal_names(1)] this [OF literal_names(3)] this [OF literal_names(4)]
  show ?thesis by (simp only: has_conda_root_def)
qed

lemma is_conda_install_spelling:
  assumes fs: "spelling_independent fs" and eq: "path_eq p q" and "is_conda_install fs p"
  shows "is_conda_install fs q"
proof -
  have root: "has_conda_root fs q"
    using assms has_conda_root_spelling [OF fs eq] by (simp add: is_conda_install_def)
  show ?thesis
  proof (cases "Option.bind (parent q) parent")
    case None
    with root show ?thesis by (simp add: is_conda_install_def)
  next
    case (Some g)
    then obtain d where d: "parent q = Some d" "parent d = Some g" by (auto simp: bind_eq_Some_conv)
    from parent_spelling [OF path_eq_sym [OF eq] d(1)] obtain d' where d': "parent p = Some d'" "path_eq d d'" by blast
    from parent_spelling [OF d'(2) d(2)] obtain g' where "parent d' = Some g'" "path_eq g g'" by blast
    with d' Some root assms(3) has_conda_root_spelling [OF fs, of g g'] show ?thesis
      by (simp add: is_conda_install_def)
  qed
qed

lemma get_environments_self:
  assumes "is_conda_install (cx_fs cx) g" "get_environments cx g = Ret es"
  shows "path_contains es g"
  using assms(2) unfolding get_environments_install [OF assms(1)]
  by (auto simp: and_then_Ret path_contains_iff components_sort_dedup)

lemma get_environments_family:
  assumes "parent p = Some d" "parent d = Some g" "file_name d = Some ''envs''"
    and "is_conda_install (cx_fs cx) g" "is_conda_env (cx_fs cx) p" "get_environments cx p = Ret es"
  shows "path_contains es p \<and> path_contains es g"
proof -
  from assms(6) obtain gs where "get_environments cx g = Ret gs" "es = sort_dedup (p # gs)"
    unfolding get_environments_child [OF assms(1-5)] and_then_Ret by auto
  with get_environments_self [OF assms(4)] show ?thesis by (auto simp: path_contains_iff components_sort_dedup)
qed

lemma conda_search_root:
  assumes "\<not> is_wsl (cx_fs cx)" "p \<in> set (get_conda_envs_from_environment_txt cx)"
  shows "\<exists>q \<in> set (conda_search_roots cx exe). path_eq q p"
proof -
  have "components (norm_case p) \<in> components ` set (sort_dedup (map norm_case (
      get_conda_envs_from_environment_txt cx @ joined (get_conda_environment_paths_from_conda_rc cx)
      @ get_conda_environment_paths_from_known_paths cx @ get_known_conda_install_locations cx exe)))"
    using assms(2) by (simp add: components_sort_dedup)
  with assms(1) show ?thesis
    by (auto simp: conda_search_roots_def is_wsl_windows_drive_path_def path_eq_def norm_case_def)
qed

lemma environment_paths_member:
  assumes "get_conda_environment_paths cx exe = Ret ps" "p \<in> set (conda_search_roots cx exe)" "exists (cx_fs cx) p"
  obtains es where "get_environments cx p = Ret es" "\<And>q. path_contains es q \<Longrightarrow> path_contains ps q"
proof -
  from assms(1) obtain ess where ess: "ps = sort_dedup (concat ess)"
    "map_outcome (get_environments cx) (filter (exists (cx_fs cx)) (conda_search_roots cx exe)) = Ret ess"
    by (auto simp: get_conda_environment_paths_def and_then_Ret)
  have "p \<in> set (filter (exists (cx_fs cx)) (conda_search_roots cx exe))" using assms(2,3) by simp
  with ess(2) obtain es where "es \<in> set ess" "get_environments cx p = Ret es"
    using map_outcome_result by metis
  moreover from this ess(1) have "path_contains ps q" if "path_contains es q" for q
    using that by (auto simp: path_contains_iff components_sort_dedup)
  ultimately show thesis using that by blast
qed

lemma spelling_read [simp]: "spelling_independent (fs\<lparr>read_to_string := r\<rparr>) = spelling_independent fs"
  by (simp add: spelling_independent_def)

text \<open>When every settings file can be read, the search returns.\<close>

lemma conda_rc_returns:
  assumes "\<And>t. \<exists>ds. parse_conda_rc_contents (cx_vars cx) (cx_yaml cx) t = Ret ds"
  shows "\<exists>rc. conda_rc_from_path cx p = Ret rc"
proof -
  have "\<exists>rc. parse_conda_rc cx f = Ret rc" for f
    by (cases "read_to_string (cx_fs cx) f") (simp_all add: parse_conda_rc_def and_then_returns [OF assms])
  then have "\<exists>rcs. map_outcome (parse_conda_rc cx) fs = Ret rcs" for fs by (rule map_outcome_returns)
  then show ?thesis unfolding conda_rc_from_path_def Let_def by (rule and_then_returns) simp
qed

lemma get_environments_returns:
  assumes "\<And>t. \<exists>ds. parse_conda_rc_contents (cx_vars cx) (cx_yaml cx) t = Ret ds"
  shows "\<exists>es. get_environments cx p = Ret es"
proof -
  have install: "\<exists>es. get_environments cx p = Ret es" if "is_conda_install (cx_fs cx) p" for p
    using conda_rc_returns [OF assms, of p] by (auto simp: get_environments_install [OF that])
  show ?thesis
    using conda_rc_returns [OF assms, of p] install
    by (subst get_environments.simps) (auto simp: and_then_Ret split: option.splits)
qed

lemma get_conda_environment_paths_returns:
  assumes "\<And>t. \<exists>ds. parse_conda_rc_contents (cx_vars cx) (cx_yaml cx) t = Ret ds"
  shows "\<exists>ps. get_conda_environment_paths cx exe = Ret ps"
  unfolding get_conda_environment_paths_def
  by (rule and_then_returns [OF map_outcome_returns [OF get_environments_returns [OF assms]]]) simp

section \<open>Properties\<close>

text \<open>An environment that \<open>~/.conda/environments.txt\<close> lists and that lies in the \<open>envs\<close> folder of
  an installation is enough for the installation itself, the base environment, to be among the
  paths that are searched, whatever else the search finds.\<close>

theorem conda_base_found:
  assumes fs: "spelling_independent (cx_fs cx)" and wsl: "\<not> is_wsl (cx_fs cx)"
    and "cv_home (cx_env cx) = Some home"
    and "read_to_string (cx_fs cx) (path_join (path_join home ''.conda'') ''environments.txt'') = Some t"
    and "e \<in> set (lines t)" "exists (cx_fs cx) e" "is_conda_env (cx_fs cx) e"
    and "parent e = Some d" "file_name d = Some ''envs''" "parent d = Some g" "is_conda_install (cx_fs cx) g"
    and paths: "get_conda_environment_paths cx exe = Ret ps"
  shows "path_contains ps e \<and> path_contains ps g"
proof -
  have "e \<in> set (get_conda_envs_from_environment_txt cx)"
    using assms(3-6) by (simp add: get_conda_envs_from_environment_txt_def norm_case_def)
  with conda_search_root [OF wsl] obtain e' where e': "e' \<in> set (conda_search_roots cx exe)" "path_eq e e'"
    by (metis path_eq_sym)
  obtain d' where d': "parent e' = Some d'" "path_eq d d'" using parent_spelling [OF e'(2)] assms(8) by blast
  obtain g' where g': "parent d' = Some g'" "path_eq g g'" using parent_spelling [OF d'(2)] assms(10) by blast
  obtain es where es: "get_environments cx e' = Ret es" "\<And>q. path_contains es q \<Longrightarrow> path_contains ps q"
    using environment_paths_member [OF paths e'(1)] spelling_fs(3) [OF fs e'(2)] assms(6) by blast
  have "path_contains es e' \<and> path_contains es g'"
    using get_environments_family [OF d'(1) g'(1) _ _ _ es(1)] assms(7,9,11)
      file_name_spelling [OF d'(2)] is_conda_env_spelling [OF fs e'(2)] is_conda_install_spelling [OF fs g'(2)] by simp
  with es(2) e'(2) g'(2) show ?thesis by (auto simp: path_contains_iff path_eq_def)
qed

text \<open>An installation in \<open>/m\<close> with the environment \<open>/m/envs/a\<close>, and a home with the list.\<close>

definition listed_conda_fs :: file_system where
  "listed_conda_fs =
     (plain_fs [''/h/.conda/environments.txt'']
        [''/m'', ''/m/envs'', ''/m/conda-meta'', ''/m/envs/a'', ''/m/envs/a/conda-meta''])
       \<lparr>read_to_string := map_of [(''/h/.conda/environments.txt'', ''/m/envs/a'')]\<rparr>"

definition listed_conda_context :: conda_context where
  "listed_conda_context =
     \<lparr>cx_os = OtherUnix, cx_vars = map_of [(''HOME'', ''/h'')], cx_fs = listed_conda_fs, cx_yaml = (\<lambda>_. None),
      cx_meta = (\<lambda>_. None), cx_env = conda_vars_from [] (map_of [(''HOME'', ''/h'')])\<rparr>"

theorem conda_base_found_witness:
  "\<exists>ps. get_conda_environment_paths listed_conda_context None = Ret ps
        \<and> path_contains ps ''/m/envs/a'' \<and> path_contains ps ''/m''"
proof -
  obtain ps where ps: "get_conda_environment_paths listed_conda_context None = Ret ps"
    using get_conda_environment_paths_returns [of listed_conda_context None]
    by (auto simp: listed_conda_context_def parse_conda_rc_contents_def)
  have "path_contains ps ''/m/envs/a'' \<and> path_contains ps ''/m''"
  proof (rule conda_base_found [OF _ _ _ _ _ _ _ _ _ _ _ ps])
    show "spelling_independent (cx_fs listed_conda_context)"
      by (simp add: listed_conda_context_def listed_conda_fs_def spelling_plain_fs)
    show "cv_home (cx_env listed_conda_context) = Some ''/h''" by code_simp
    show "read_to_string (cx_fs listed_conda_context) (path_join (path_join ''/h'' ''.conda'') ''environments.txt'')
        = Some ''/m/envs/a''" by code_simp
    show "''/m/envs/a'' \<in> set (lines ''/m/envs/a'')" by code_simp
    show "parent ''/m/envs/a'' = Some ''/m/envs''" "parent ''/m/envs'' = Some ''/m''" by code_simp+
  qed code_simp+
  with ps show ?thesis by blast
qed

text \<open>A settings file in an installation whose \<open>envs_dirs\<close> has an entry that is not a text (an
  empty list item, a number) makes the whole search for Conda environments panic: no path is
  returned, those of other installations included.\<close>

theorem condarc_non_text_aborts:
  assumes "p \<in> set (conda_search_roots cx exe)" "exists (cx_fs cx) p" "is_conda_install (cx_fs cx) p"
    and "\<not> is_file (cx_fs cx) p" "is_dir (cx_fs cx) p" "read_dir (cx_fs cx) p = Some entries"
    and "f \<in> set entries" "is_file (cx_fs cx) f" "is_rc_file_name f"
    and "read_to_string (cx_fs cx) f = Some t" "cx_yaml cx t = Some (doc # docs)"
    and "yaml_vec (yaml_index ''envs_dirs'' doc) = Some items" "i \<in> set items" "yaml_str i = None"
  shows "\<exists>m. get_conda_environment_paths cx exe = Panic m"
proof -
  obtain m where "parse_conda_rc cx f = Panic m"
    using parse_conda_rc_contents_panics [of "cx_yaml cx" t doc docs items i "cx_vars cx"] assms(10-14)
    by (auto simp: parse_conda_rc_def)
  then obtain m where "conda_rc_from_path cx p = Panic m"
    using map_outcome_panics [of f "filter is_rc_file_name (filter (is_file (cx_fs cx)) entries)" "parse_conda_rc cx"] assms(4-9)
    by (auto simp: conda_rc_from_path_def)
  then have "get_environments cx p = Panic m" by (simp add: get_environments_install [OF assms(3)])
  with assms(1,2) show ?thesis
    using map_outcome_panics [of p "filter (exists (cx_fs cx)) (conda_search_roots cx exe)" "get_environments cx" m]
    by (auto simp: get_conda_environment_paths_def)
qed

definition bad_condarc_context :: conda_context where
  "bad_condarc_context =
     \<lparr>cx_os = OtherUnix, cx_vars = (\<lambda>_. None),
      cx_fs = (plain_fs [''/miniconda3/.condarc''] [''/miniconda3'', ''/miniconda3/envs'', ''/miniconda3/conda-meta''])
                \<lparr>read_to_string := map_of [(''/miniconda3/.condarc'', ''envs_dirs: [1]'')]\<rparr>,
      cx_yaml = map_of [(''envs_dirs: [1]'', [YHash [(YString ''envs_dirs'', YArray [YInteger 1])]])],
      cx_meta = (\<lambda>_. None), cx_env = conda_vars_from [] (\<lambda>_. None)\<rparr>"

theorem condarc_non_text_aborts_witness: "\<exists>m. get_conda_environment_paths bad_condarc_context None = Panic m"
proof (rule condarc_non_text_aborts [of "''/miniconda3''" _ _
    "[''/miniconda3/.condarc'', ''/miniconda3/envs'', ''/miniconda3/conda-meta'']" "''/miniconda3/.condarc''" "''envs_dirs: [1]''"
    "YHash [(YString ''envs_dirs'', YArray [YInteger 1])]" "[]" "[YInteger 1]" "YInteger 1"])
qed (code_simp+)

end
