(* ===== verification/Conda_Cache.thy ===== *)
theory Conda_Cache
  imports Conda_Files Transition
begin

text \<open>
  The cache of environment details that outlives a refresh (\<open>FileFingerprint\<close>,
  \<open>CondaEnvironmentFingerprint\<close> and \<open>get_or_load_environment_details\<close> of
  \<open>pet-conda/src/lib.rs\<close>): a function for one caller, and a machine in which callers interleave
  with each other and with changes of the disk. Reading details takes many system calls, so what a
  caller reads while the disk changes is left open; the two calls of a fingerprint are one step.
  Times are natural numbers.
\<close>

section \<open>Fingerprints\<close>

datatype metadata_result = MetaOk "nat option" nat | MetaNotFound | MetaError

record file_fingerprint =
  fp_modified :: nat
  fp_len :: nat

record conda_fingerprint =
  cf_conda_meta :: file_fingerprint
  cf_history :: "file_fingerprint option"

definition fingerprint_from_metadata :: "nat option \<Rightarrow> nat \<Rightarrow> file_fingerprint option" where
  "fingerprint_from_metadata modified len = map_option (\<lambda>m. \<lparr>fp_modified = m, fp_len = len\<rparr>) modified"

definition fingerprint_from_prefix :: "(path \<Rightarrow> metadata_result) \<Rightarrow> path \<Rightarrow> conda_fingerprint option" where
  "fingerprint_from_prefix metadata pre =
     (let conda_meta = path_join pre ''conda-meta''
      in Option.bind
           (case metadata (path_join conda_meta ''history'') of
              MetaOk modified len \<Rightarrow> map_option Some (fingerprint_from_metadata modified len)
            | MetaNotFound \<Rightarrow> Some None
            | MetaError \<Rightarrow> None)
           (\<lambda>history.
              case metadata conda_meta of
                MetaOk modified len \<Rightarrow>
                  map_option (\<lambda>f. \<lparr>cf_conda_meta = f, cf_history = history\<rparr>) (fingerprint_from_metadata modified len)
              | _ \<Rightarrow> None))"

section \<open>The cache\<close>

record conda_details =
  cd_environment :: python_environment
  cd_conda_dir :: "path option"

record cached_conda_environment =
  cc_fingerprint :: conda_fingerprint
  cc_details :: conda_details

type_synonym info_cache = "component list \<rightharpoonup> cached_conda_environment"

record disk =
  dk_fs :: file_system
  dk_metadata :: "path \<Rightarrow> metadata_result"

definition load_environment_details :: "meta_decoder \<Rightarrow> file_system \<Rightarrow> path \<Rightarrow> conda_details option" where
  "load_environment_details meta fs p =
     map_option (\<lambda>ce. \<lparr>cd_environment = to_python_environment fs None ce, cd_conda_dir = ce_conda_dir ce\<rparr>)
       (get_conda_environment_info meta fs p None)"

definition cached_details :: "info_cache \<Rightarrow> path \<Rightarrow> conda_fingerprint option \<Rightarrow> conda_details option" where
  "cached_details cache p before =
     Option.bind before (\<lambda>f.
     Option.bind (cache (components (norm_case p))) (\<lambda>e.
       if cc_fingerprint e = f
       then Some ((cc_details e)\<lparr>cd_environment := (cd_environment (cc_details e))\<lparr>env_prefix := Some p\<rparr>\<rparr>)
       else None))"

definition store_details ::
  "path \<Rightarrow> conda_fingerprint option \<Rightarrow> conda_fingerprint option \<Rightarrow> conda_details \<Rightarrow> info_cache \<Rightarrow> info_cache" where
  "store_details p before after d cache =
     cache(components (norm_case p) :=
       if before = after then map_option (\<lambda>f. \<lparr>cc_fingerprint = f, cc_details = d\<rparr>) after else None)"

text \<open>One call that is not disturbed.\<close>

definition get_environment_details :: "meta_decoder \<Rightarrow> disk \<Rightarrow> path \<Rightarrow> info_cache \<Rightarrow> info_cache \<times> conda_details option" where
  "get_environment_details meta dk p cache =
     (let fingerprint = fingerprint_from_prefix (dk_metadata dk) p
      in case cached_details cache p fingerprint of
           Some d \<Rightarrow> (cache, Some d)
         | None \<Rightarrow>
             (case load_environment_details meta (dk_fs dk) p of
                None \<Rightarrow> (cache(components (norm_case p) := None), None)
              | Some d \<Rightarrow> (store_details p fingerprint fingerprint d cache, Some d)))"

section \<open>Callers and a changing disk\<close>

text \<open>The positions of a call; the numbers are the moments at which it read the disk.\<close>

datatype info_pc =
    InfoStart
  | InfoLookup "conda_fingerprint option" nat
  | InfoLoad "conda_fingerprint option" nat
  | InfoLoaded "conda_fingerprint option" nat nat "conda_details option"
  | InfoStore "conda_fingerprint option" nat nat nat conda_details "conda_fingerprint option"
  | InfoHit conda_details
  | InfoRead "conda_details option"

record info_thread =
  it_path :: path
  it_start :: nat
  it_pc :: info_pc

text \<open>\<open>si_disks\<close> are the states of the disk so far, the last one is the present.\<close>

record info_system =
  si_disks :: "disk list"
  si_cache :: info_cache
  si_threads :: "info_thread list"

abbreviation present :: "info_system \<Rightarrow> nat" where
  "present s \<equiv> length (si_disks s) - 1"

definition fingerprint_at :: "disk list \<Rightarrow> path \<Rightarrow> nat \<Rightarrow> conda_fingerprint option" where
  "fingerprint_at ds p i = fingerprint_from_prefix (dk_metadata (ds ! i)) p"

definition details_at :: "meta_decoder \<Rightarrow> disk list \<Rightarrow> path \<Rightarrow> nat \<Rightarrow> conda_details option" where
  "details_at meta ds p i = load_environment_details meta (dk_fs (ds ! i)) p"

text \<open>What a load may see that runs from moment \<open>b\<close> to moment \<open>c\<close>: the details, if they stay the
  same, and anything otherwise.\<close>

definition may_load :: "meta_decoder \<Rightarrow> disk list \<Rightarrow> path \<Rightarrow> nat \<Rightarrow> nat \<Rightarrow> conda_details option \<Rightarrow> bool" where
  "may_load meta ds p b c r \<longleftrightarrow>
     (\<forall>i \<in> {b..c}. details_at meta ds p i = details_at meta ds p b) \<longrightarrow> r = details_at meta ds p b"

inductive info_step :: "meta_decoder \<Rightarrow> info_system \<Rightarrow> path \<Rightarrow> info_pc \<Rightarrow> info_cache \<Rightarrow> info_pc \<Rightarrow> bool"
  for meta s p where
  info_before:
    "info_step meta s p InfoStart (si_cache s) (InfoLookup (fingerprint_at (si_disks s) p (present s)) (present s))"
| info_hit:
    "cached_details (si_cache s) p before = Some d \<Longrightarrow> info_step meta s p (InfoLookup before b) (si_cache s) (InfoHit d)"
| info_miss:
    "cached_details (si_cache s) p before = None
     \<Longrightarrow> info_step meta s p (InfoLookup before b) (si_cache s) (InfoLoad before b)"
| info_load:
    "may_load meta (si_disks s) p b (present s) r
     \<Longrightarrow> info_step meta s p (InfoLoad before b) (si_cache s) (InfoLoaded before b (present s) r)"
| info_failed:
    "info_step meta s p (InfoLoaded before b c None) ((si_cache s)(components (norm_case p) := None)) (InfoRead None)"
| info_after:
    "info_step meta s p (InfoLoaded before b c (Some d)) (si_cache s)
       (InfoStore before b c (present s) d (fingerprint_at (si_disks s) p (present s)))"
| info_store:
    "info_step meta s p (InfoStore before b c a d after) (store_details p before after d (si_cache s)) (InfoRead (Some d))"

text \<open>Calls start, step, the disk changes, and a finished search drops the entries of paths it did
  not see (\<open>retain\<close>).\<close>

inductive info_sys_step :: "meta_decoder \<Rightarrow> path set \<Rightarrow> info_system \<Rightarrow> info_system \<Rightarrow> bool"
  for meta ps where
  info_call:
    "p \<in> ps \<Longrightarrow> info_sys_step meta ps s
       (s\<lparr>si_threads := si_threads s @ [\<lparr>it_path = p, it_start = present s, it_pc = InfoStart\<rparr>]\<rparr>)"
| info_thread_step:
    "i < length (si_threads s) \<Longrightarrow> th = si_threads s ! i \<Longrightarrow> info_step meta s (it_path th) (it_pc th) c pc
     \<Longrightarrow> info_sys_step meta ps s (s\<lparr>si_cache := c, si_threads := (si_threads s)[i := th\<lparr>it_pc := pc\<rparr>]\<rparr>)"
| info_change: "info_sys_step meta ps s (s\<lparr>si_disks := si_disks s @ [dk]\<rparr>)"
| info_retain: "info_sys_step meta ps s (s\<lparr>si_cache := si_cache s |` ks\<rparr>)"

inductive_cases info_stepE: "info_step meta s p pc c pc'"

definition info_init :: "info_system \<Rightarrow> bool" where
  "info_init s \<longleftrightarrow> si_disks s \<noteq> [] \<and> si_cache s = Map.empty \<and> si_threads s = []"

section \<open>What the cache relies on\<close>

text \<open>A fingerprint that is read twice stands for the same details, and the disk did not show
  another one in between: modification times do not come back.\<close>

definition fingerprints_identify :: "meta_decoder \<Rightarrow> path set \<Rightarrow> disk list \<Rightarrow> bool" where
  "fingerprints_identify meta ps ds \<longleftrightarrow>
     (\<forall>p \<in> ps. \<forall>i j. i \<le> j \<longrightarrow> j < length ds \<longrightarrow> fingerprint_at ds p i \<noteq> None
        \<longrightarrow> fingerprint_at ds p i = fingerprint_at ds p j
        \<longrightarrow> details_at meta ds p i = details_at meta ds p j
            \<and> (\<forall>k \<in> {i..j}. fingerprint_at ds p k = fingerprint_at ds p i))"

lemma at_append [simp]:
  assumes "i < length ds"
  shows "fingerprint_at (ds @ es) p i = fingerprint_at ds p i"
    and "details_at meta (ds @ es) p i = details_at meta ds p i"
  using assms by (simp_all add: fingerprint_at_def details_at_def nth_append)

lemma may_load_append:
  assumes "b \<le> c" "c < length ds"
  shows "may_load meta (ds @ es) p b c r = may_load meta ds p b c r"
proof -
  have "details_at meta (ds @ es) p i = details_at meta ds p i" if "i \<in> {b..c}" for i
    using that assms by simp
  moreover have "b \<in> {b..c}" using assms by simp
  ultimately show ?thesis unfolding may_load_def by metis
qed

lemma identifiesD:
  assumes "fingerprints_identify meta ps ds" "p \<in> ps" "i \<le> j" "j < length ds"
    "fingerprint_at ds p i \<noteq> None" "fingerprint_at ds p i = fingerprint_at ds p j"
  shows "details_at meta ds p i = details_at meta ds p j"
    and "k \<in> {i..j} \<Longrightarrow> fingerprint_at ds p k = fingerprint_at ds p i"
  using assms unfolding fingerprints_identify_def by blast+

lemma fingerprints_identify_append:
  assumes "fingerprints_identify meta ps (ds @ es)" shows "fingerprints_identify meta ps ds"
  unfolding fingerprints_identify_def
proof (intro ballI allI impI conjI)
  fix p i j
  assume p: "p \<in> ps" and ij: "i \<le> j" "j < length ds"
    and f: "fingerprint_at ds p i \<noteq> None" "fingerprint_at ds p i = fingerprint_at ds p j"
  have same: "fingerprint_at (ds @ es) p k = fingerprint_at ds p k"
    "details_at meta (ds @ es) p k = details_at meta ds p k" if "k \<le> j" for k
    using that ij by simp_all
  have j: "j < length (ds @ es)" using ij by simp
  note f' = f [folded same(1) [OF ij(1)] same(1) [OF order_refl]]
  show "details_at meta ds p i = details_at meta ds p j"
    using identifiesD(1) [OF assms p ij(1) j f'] same(2) [OF ij(1)] same(2) [OF order_refl] by argo
  fix k assume k: "k \<in> {i..j}"
  then have "k \<le> j" by simp
  from identifiesD(2) [OF assms p ij(1) j f' k] show "fingerprint_at ds p k = fingerprint_at ds p i"
    unfolding same(1) [OF \<open>k \<le> j\<close>] same(1) [OF ij(1)] .
qed

lemma identified:
  assumes "fingerprints_identify meta ps ds" "p \<in> ps" "i < length ds" "j < length ds"
    "fingerprint_at ds p i \<noteq> None" "fingerprint_at ds p i = fingerprint_at ds p j"
  shows "details_at meta ds p i = details_at meta ds p j"
proof (cases "i \<le> j")
  case True
  with assms show ?thesis by (rule_tac identifiesD(1))
next
  case False
  then have "j \<le> i" by simp
  moreover have "fingerprint_at ds p j \<noteq> None" "fingerprint_at ds p j = fingerprint_at ds p i" using assms(5,6) by argo+
  ultimately show ?thesis by (rule identifiesD(1) [OF assms(1,2) _ assms(3), symmetric])
qed

lemma unchanged_between:
  assumes "fingerprints_identify meta ps ds" "p \<in> ps" "b \<le> c" "c \<le> a" "a < length ds"
    "fingerprint_at ds p b \<noteq> None" "fingerprint_at ds p b = fingerprint_at ds p a" "may_load meta ds p b c r"
  shows "r = details_at meta ds p b"
proof -
  have "details_at meta ds p i = details_at meta ds p b" if "i \<in> {b..c}" for i
  proof -
    from that assms(3,4) have i: "i \<in> {b..a}" "i < length ds" "b < length ds" using assms(5) by auto
    have "fingerprint_at ds p i = fingerprint_at ds p b"
      using identifiesD(2) [OF assms(1,2) _ assms(5-7) i(1)] assms(3,4) by simp
    with identified [OF assms(1,2) i(3,2) assms(6)] show ?thesis by argo
  qed
  with assms(8) show ?thesis unfolding may_load_def by blast
qed

section \<open>The invariant\<close>

fun info_pc_ok :: "meta_decoder \<Rightarrow> disk list \<Rightarrow> path \<Rightarrow> nat \<Rightarrow> info_pc \<Rightarrow> bool" where
  "info_pc_ok meta ds p start InfoStart \<longleftrightarrow> start < length ds"
| "info_pc_ok meta ds p start (InfoLookup before b) \<longleftrightarrow>
     start \<le> b \<and> b < length ds \<and> before = fingerprint_at ds p b"
| "info_pc_ok meta ds p start (InfoLoad before b) \<longleftrightarrow>
     start \<le> b \<and> b < length ds \<and> before = fingerprint_at ds p b"
| "info_pc_ok meta ds p start (InfoLoaded before b c r) \<longleftrightarrow>
     b \<le> c \<and> c < length ds \<and> before = fingerprint_at ds p b \<and> may_load meta ds p b c r"
| "info_pc_ok meta ds p start (InfoStore before b c a d after) \<longleftrightarrow>
     b \<le> c \<and> c \<le> a \<and> a < length ds \<and> before = fingerprint_at ds p b \<and> after = fingerprint_at ds p a
     \<and> may_load meta ds p b c (Some d)"
| "info_pc_ok meta ds p start (InfoHit d) \<longleftrightarrow>
     (\<exists>j. start \<le> j \<and> j < length ds \<and> details_at meta ds p j = Some d)"
| "info_pc_ok meta ds p start (InfoRead r) \<longleftrightarrow> True"

definition info_entry_ok :: "meta_decoder \<Rightarrow> path set \<Rightarrow> disk list \<Rightarrow> component list \<Rightarrow> cached_conda_environment \<Rightarrow> bool" where
  "info_entry_ok meta ps ds k e \<longleftrightarrow>
     (\<exists>p \<in> ps. components p = k \<and> (\<exists>j < length ds.
        fingerprint_at ds p j = Some (cc_fingerprint e) \<and> details_at meta ds p j = Some (cc_details e)))"

definition info_good :: "meta_decoder \<Rightarrow> path set \<Rightarrow> info_system \<Rightarrow> bool" where
  "info_good meta ps s \<longleftrightarrow>
     si_disks s \<noteq> []
     \<and> (\<forall>k e. si_cache s k = Some e \<longrightarrow> info_entry_ok meta ps (si_disks s) k e)
     \<and> (\<forall>th \<in> set (si_threads s). it_path th \<in> ps \<and> info_pc_ok meta (si_disks s) (it_path th) (it_start th) (it_pc th))"

definition info_inv :: "meta_decoder \<Rightarrow> path set \<Rightarrow> info_system \<Rightarrow> bool" where
  "info_inv meta ps s \<longleftrightarrow>
     inj_on components ps \<longrightarrow> fingerprints_identify meta ps (si_disks s) \<longrightarrow> info_good meta ps s"

lemma info_pc_ok_append: "info_pc_ok meta ds p start pc \<Longrightarrow> info_pc_ok meta (ds @ es) p start pc"
proof (cases pc)
  case (InfoHit d)
  moreover assume "info_pc_ok meta ds p start pc"
  ultimately obtain j where "start \<le> j" "j < length ds" "details_at meta ds p j = Some d" by auto
  then have "start \<le> j \<and> j < length (ds @ es) \<and> details_at meta (ds @ es) p j = Some d" by simp
  with InfoHit show ?thesis by auto
qed (auto simp: may_load_append)

lemma info_entry_ok_append:
  assumes "info_entry_ok meta ps ds k e" shows "info_entry_ok meta ps (ds @ es) k e"
proof -
  from assms obtain p j where "p \<in> ps" "components p = k" "j < length ds"
    "fingerprint_at ds p j = Some (cc_fingerprint e)" "details_at meta ds p j = Some (cc_details e)"
    unfolding info_entry_ok_def by blast
  then have "p \<in> ps \<and> components p = k \<and> j < length (ds @ es) \<and>
      fingerprint_at (ds @ es) p j = Some (cc_fingerprint e) \<and> details_at meta (ds @ es) p j = Some (cc_details e)" by simp
  then show ?thesis unfolding info_entry_ok_def by blast
qed

lemma load_prefix:
  "load_environment_details meta fs p = Some d \<Longrightarrow> env_prefix (cd_environment d) = Some p"
  by (auto simp: load_environment_details_def get_conda_environment_info_def to_python_environment_def Let_def split: if_splits)

lemma cached_details_right:
  assumes ident: "fingerprints_identify meta ps ds" and inj: "inj_on components ps" and p: "p \<in> ps" and b: "b < length ds"
    and entries: "\<And>k e. cache k = Some e \<Longrightarrow> info_entry_ok meta ps ds k e"
    and hit: "cached_details cache p (fingerprint_at ds p b) = Some d"
  shows "details_at meta ds p b = Some d"
proof -
  from hit obtain e where e: "cache (components p) = Some e" "fingerprint_at ds p b = Some (cc_fingerprint e)"
    and d: "d = (cc_details e)\<lparr>cd_environment := (cd_environment (cc_details e))\<lparr>env_prefix := Some p\<rparr>\<rparr>"
    by (auto simp: cached_details_def norm_case_def bind_eq_Some_conv split: if_splits)
  from entries [OF e(1)] obtain q j where "q \<in> ps" "components q = components p" "j < length ds"
    and j: "fingerprint_at ds q j = Some (cc_fingerprint e)" "details_at meta ds q j = Some (cc_details e)"
    unfolding info_entry_ok_def by blast
  with inj p have q: "q = p" "j < length ds" by (auto dest: inj_onD)
  have "details_at meta ds p j = details_at meta ds p b"
    by (rule identified [OF ident p q(2) b]) (use j(1) q(1) e(2) in auto)
  with j(2) q(1) have "details_at meta ds p b = Some (cc_details e)" by simp
  moreover from this have "env_prefix (cd_environment (cc_details e)) = Some p"
    by (auto simp: details_at_def dest: load_prefix)
  ultimately show ?thesis using d by (simp add: conda_details.equality python_environment.equality)
qed

lemma store_details_ok:
  assumes "fingerprints_identify meta ps ds" "p \<in> ps" "b \<le> c" "c \<le> a" "a < length ds"
    and "may_load meta ds p b c (Some d)"
    and "\<And>k e. cache k = Some e \<Longrightarrow> info_entry_ok meta ps ds k e"
    and "store_details p (fingerprint_at ds p b) (fingerprint_at ds p a) d cache k = Some e"
  shows "info_entry_ok meta ps ds k e"
proof (cases "k = components p")
  case True
  with assms(8) have f: "fingerprint_at ds p b = fingerprint_at ds p a" "fingerprint_at ds p b \<noteq> None"
    and e: "fingerprint_at ds p b = Some (cc_fingerprint e)" "cc_details e = d"
    by (auto simp: store_details_def norm_case_def split: if_splits)
  have "Some d = details_at meta ds p b"
    using unchanged_between [OF assms(1-5) f(2,1) assms(6)] .
  with True e assms(2-5) show ?thesis unfolding info_entry_ok_def by (metis order.strict_trans1)
next
  case False
  with assms(7,8) show ?thesis by (simp add: store_details_def norm_case_def)
qed

lemma info_step_good:
  assumes ident: "fingerprints_identify meta ps (si_disks s)" and inj: "inj_on components ps" and p: "p \<in> ps"
    and ne: "si_disks s \<noteq> []"
    and entries: "\<And>k e. si_cache s k = Some e \<Longrightarrow> info_entry_ok meta ps (si_disks s) k e"
    and ok: "info_pc_ok meta (si_disks s) p start pc" and step: "info_step meta s p pc c pc'"
  shows "info_pc_ok meta (si_disks s) p start pc' \<and> (\<forall>k e. c k = Some e \<longrightarrow> info_entry_ok meta ps (si_disks s) k e)"
  using step
proof cases
  case info_before
  with ok ne entries show ?thesis by auto
next
  case (info_hit before d b)
  with ok have b: "start \<le> b" "b < length (si_disks s)" "before = fingerprint_at (si_disks s) p b" by auto
  with info_hit cached_details_right [OF ident inj p b(2) entries] entries show ?thesis by auto
next
  case (info_store before b c a d after)
  with ok have "b \<le> c" "c \<le> a" "a < length (si_disks s)" "may_load meta (si_disks s) p b c (Some d)"
    and eq: "before = fingerprint_at (si_disks s) p b" "after = fingerprint_at (si_disks s) p a" by auto
  from store_details_ok [OF ident p this(1-4) entries] eq info_store show ?thesis by auto
qed (use ok ne entries in \<open>auto simp: norm_case_def split: if_splits\<close>)

lemma info_inv_step:
  assumes inv: "info_inv meta ps s" and step: "info_sys_step meta ps s t"
  shows "info_inv meta ps t"
  unfolding info_inv_def
proof (intro impI)
  assume inj: "inj_on components ps" and ident: "fingerprints_identify meta ps (si_disks t)"
  have ident_s: "fingerprints_identify meta ps (si_disks s)"
    using step ident by cases (auto dest: fingerprints_identify_append)
  with inv inj have good: "info_good meta ps s" by (simp add: info_inv_def)
  from step show "info_good meta ps t"
  proof cases
    case (info_thread_step i th c pc)
    with good have "th \<in> set (si_threads s)" "it_path th \<in> ps"
      "info_pc_ok meta (si_disks s) (it_path th) (it_start th) (it_pc th)"
      unfolding info_good_def by auto
    with info_step_good [OF ident_s inj _ _ _ _ info_thread_step(4)] good
    have "info_pc_ok meta (si_disks s) (it_path th) (it_start th) pc"
      "\<forall>k e. c k = Some e \<longrightarrow> info_entry_ok meta ps (si_disks s) k e" "it_path th \<in> ps"
      unfolding info_good_def by blast+
    with info_thread_step(1) good show ?thesis
      unfolding info_good_def by (auto dest!: subsetD [OF set_update_subset_insert])
  next
    case (info_change dk)
    with good show ?thesis
      unfolding info_good_def by (auto intro: info_pc_ok_append info_entry_ok_append)
  qed (use good in \<open>auto simp: info_good_def restrict_map_def split: if_splits\<close>)
qed

interpretation conda_info: inv_system info_init "info_sys_step meta ps" "info_inv meta ps"
  for meta ps
proof
  show "info_inv meta ps s" if "info_init s" for s
    using that by (simp add: info_init_def info_inv_def info_good_def)
qed (rule info_inv_step)

text \<open>A second call for a path finds what the first has stored.\<close>

abbreviation info_state :: "disk \<Rightarrow> info_cache \<Rightarrow> path \<Rightarrow> info_pc list \<Rightarrow> info_system" where
  "info_state dk c p pcs \<equiv>
     \<lparr>si_disks = [dk], si_cache = c, si_threads = map (\<lambda>pc. \<lparr>it_path = p, it_start = 0, it_pc = pc\<rparr>) pcs\<rparr>"

lemma info_state_call:
  "p \<in> ps \<Longrightarrow> info_sys_step meta ps (info_state dk c p pcs) (info_state dk c p (pcs @ [InfoStart]))"
  using info_call [of p ps meta "info_state dk c p pcs"] by simp

lemma info_state_step:
  assumes "info_step meta (info_state dk c p (pcs @ [pc])) p pc c' pc'"
  shows "info_sys_step meta ps (info_state dk c p (pcs @ [pc])) (info_state dk c' p (pcs @ [pc']))"
  using info_thread_step [of "length pcs" "info_state dk c p (pcs @ [pc])" _ meta c' pc' ps] assms
  by (simp add: nth_append list_update_append)

lemma second_call_hits:
  assumes p: "p \<in> ps" and f: "fingerprint_from_prefix (dk_metadata dk) p = Some f"
    and d: "load_environment_details meta (dk_fs dk) p = Some d"
  shows "\<exists>c. (info_sys_step meta ps)\<^sup>*\<^sup>* (info_state dk Map.empty p []) (info_state dk c p [InfoRead (Some d), InfoHit d])"
proof -
  let ?S = "info_sys_step meta ps" and ?c = "store_details p (Some f) (Some f) d Map.empty"
  have at: "fingerprint_at [dk] p 0 = Some f" "details_at meta [dk] p 0 = Some d"
    using f d by (simp_all add: fingerprint_at_def details_at_def)
  have hit: "cached_details ?c p (Some f) = Some d"
    using load_prefix [OF d] by (simp add: cached_details_def store_details_def)
  have "?S (info_state dk Map.empty p []) (info_state dk Map.empty p [InfoStart])"
    using info_state_call [OF p, of meta dk _ "[]"] by simp
  moreover have "?S (info_state dk Map.empty p [InfoStart]) (info_state dk Map.empty p [InfoLookup (Some f) 0])"
    using info_state_step [of meta dk Map.empty p "[]" InfoStart Map.empty "InfoLookup (Some f) 0" ps]
      info_before [of meta "info_state dk Map.empty p [InfoStart]" p] at by simp
  moreover have "?S (info_state dk Map.empty p [InfoLookup (Some f) 0]) (info_state dk Map.empty p [InfoLoad (Some f) 0])"
    using info_state_step [of meta dk Map.empty p "[]" "InfoLookup (Some f) 0" Map.empty "InfoLoad (Some f) 0" ps]
      info_miss [of "info_state dk Map.empty p [InfoLookup (Some f) 0]" p "Some f" meta 0] by (simp add: cached_details_def)
  moreover have "?S (info_state dk Map.empty p [InfoLoad (Some f) 0]) (info_state dk Map.empty p [InfoLoaded (Some f) 0 0 (Some d)])"
    using info_state_step [of meta dk Map.empty p "[]" "InfoLoad (Some f) 0" Map.empty "InfoLoaded (Some f) 0 0 (Some d)" ps]
      info_load [of meta "info_state dk Map.empty p [InfoLoad (Some f) 0]" p 0 "Some d" "Some f"] at
    by (simp add: may_load_def)
  moreover have "?S (info_state dk Map.empty p [InfoLoaded (Some f) 0 0 (Some d)])
      (info_state dk Map.empty p [InfoStore (Some f) 0 0 0 d (Some f)])"
    using info_state_step [of meta dk Map.empty p "[]" "InfoLoaded (Some f) 0 0 (Some d)" Map.empty _ ps]
      info_after [of meta "info_state dk Map.empty p [InfoLoaded (Some f) 0 0 (Some d)]" p "Some f" 0 0 d] at by simp
  moreover have "?S (info_state dk Map.empty p [InfoStore (Some f) 0 0 0 d (Some f)]) (info_state dk ?c p [InfoRead (Some d)])"
    using info_state_step [of meta dk Map.empty p "[]" "InfoStore (Some f) 0 0 0 d (Some f)" ?c "InfoRead (Some d)" ps]
      info_store [of meta "info_state dk Map.empty p [InfoStore (Some f) 0 0 0 d (Some f)]" p "Some f" 0 0 0 d "Some f"] by simp
  moreover have "?S (info_state dk ?c p [InfoRead (Some d)]) (info_state dk ?c p [InfoRead (Some d), InfoStart])"
    using info_state_call [OF p, of meta dk _ "[InfoRead (Some d)]"] by simp
  moreover have "?S (info_state dk ?c p [InfoRead (Some d), InfoStart]) (info_state dk ?c p [InfoRead (Some d), InfoLookup (Some f) 0])"
    using info_state_step [of meta dk ?c p "[InfoRead (Some d)]" InfoStart ?c "InfoLookup (Some f) 0" ps]
      info_before [of meta "info_state dk ?c p [InfoRead (Some d), InfoStart]" p] at by simp
  moreover have "?S (info_state dk ?c p [InfoRead (Some d), InfoLookup (Some f) 0]) (info_state dk ?c p [InfoRead (Some d), InfoHit d])"
    using info_state_step [of meta dk ?c p "[InfoRead (Some d)]" "InfoLookup (Some f) 0" ?c "InfoHit d" ps]
      info_hit [of "info_state dk ?c p [InfoRead (Some d), InfoLookup (Some f) 0]" p "Some f" d meta 0] hit by simp
  ultimately have "?S\<^sup>*\<^sup>* (info_state dk Map.empty p []) (info_state dk ?c p [InfoRead (Some d), InfoHit d])"
    by (meson converse_rtranclp_into_rtranclp rtranclp.rtrancl_refl)
  then show ?thesis by blast
qed

section \<open>Properties\<close>


definition conda_disk :: disk where
  "conda_disk =
     \<lparr>dk_fs = plain_fs [] [''/e'', ''/e/conda-meta''],
      dk_metadata = (\<lambda>p. if p = ''/e/conda-meta'' then MetaOk (Some 1) 4096 else MetaNotFound)\<rparr>"


end
