(* ===== verification/Locator_Cache.thy ===== *)
theory Locator_Cache
  imports Refresh_Coordinator Transition
begin

text \<open>
  The cache shared by the locators, \<open>pet-core/src/cache.rs\<close>. The simple operations are
  functions on the map. \<open>get_or_insert_with\<close> is a thread machine: every critical section and
  the call of the closure is a step, callers of the same and of other keys interleave, and the
  result of the closure, a panic included, is chosen by the environment. Waiting on the
  condition variable is the step of a waiter that is enabled once its entry has a result.

  The read and write locks of the map are never held while foreign code runs, so they are not
  poisoned; the mutexes of the in-flight entries are recovered from poisoning by the code.
\<close>

section \<open>The map operations\<close>

type_synonym ('k, 'v) cache_map = "'k \<rightharpoonup> 'v"

definition cache_get :: "('k, 'v) cache_map \<Rightarrow> 'k \<Rightarrow> 'v option" where
  "cache_get c k = c k"

definition cache_contains_key :: "('k, 'v) cache_map \<Rightarrow> 'k \<Rightarrow> bool" where
  "cache_contains_key c k \<longleftrightarrow> c k \<noteq> None"

definition cache_insert :: "('k, 'v) cache_map \<Rightarrow> 'k \<Rightarrow> 'v \<Rightarrow> ('k, 'v) cache_map \<times> 'v option" where
  "cache_insert c k v = (c(k \<mapsto> v), c k)"

definition cache_insert_many :: "('k, 'v) cache_map \<Rightarrow> ('k \<times> 'v) list \<Rightarrow> ('k, 'v) cache_map" where
  "cache_insert_many c es = fold (\<lambda>(k, v) c. fst (cache_insert c k v)) es c"

definition cache_clear :: "('k, 'v) cache_map \<Rightarrow> ('k, 'v) cache_map" where
  "cache_clear c = Map.empty"

section \<open>In-flight entries\<close>

datatype 'v in_flight_result = FlightValue "'v option" | FlightPanicked

text \<open>
  Entries live in a heap, the \<open>Arc\<close>s are indices into it; the table maps a key to its entry.
\<close>

record ('k, 'v) locator_cache =
  lc_cache :: "('k, 'v) cache_map"
  lc_in_flight :: "'k \<rightharpoonup> nat"
  lc_entries :: "'v in_flight_result option list"

definition locator_cache_new :: "('k, 'v) locator_cache" where
  "locator_cache_new = \<lparr>lc_cache = Map.empty, lc_in_flight = Map.empty, lc_entries = []\<rparr>"

datatype in_flight_claim = Owner nat | Waiter nat

definition claim_in_flight :: "'k \<Rightarrow> ('k, 'v) locator_cache \<Rightarrow> ('k, 'v) locator_cache \<times> in_flight_claim" where
  "claim_in_flight k c =
     (case lc_in_flight c k of
        Some e \<Rightarrow> (c, Waiter e)
      | None \<Rightarrow>
          let e = length (lc_entries c)
          in (c\<lparr>lc_entries := lc_entries c @ [None], lc_in_flight := (lc_in_flight c)(k \<mapsto> e)\<rparr>, Owner e))"

text \<open>\<open>InFlightOwnerGuard::publish\<close>: the result is stored first, then the key is removed.\<close>

definition publish_store :: "nat \<Rightarrow> 'v in_flight_result \<Rightarrow> ('k, 'v) locator_cache \<Rightarrow> ('k, 'v) locator_cache" where
  "publish_store e r c = c\<lparr>lc_entries := (lc_entries c)[e := Some r]\<rparr>"

definition publish_remove :: "'k \<Rightarrow> ('k, 'v) locator_cache \<Rightarrow> ('k, 'v) locator_cache" where
  "publish_remove k c = c\<lparr>lc_in_flight := (lc_in_flight c)(k := None)\<rparr>"

text \<open>The write section after the closure returned a value: a value inserted meanwhile wins.\<close>

definition insert_computed :: "'k \<Rightarrow> 'v \<Rightarrow> ('k, 'v) locator_cache \<Rightarrow> ('k, 'v) locator_cache \<times> 'v" where
  "insert_computed k v c =
     (case lc_cache c k of
        Some existing \<Rightarrow> (c, existing)
      | None \<Rightarrow> (c\<lparr>lc_cache := (lc_cache c)(k \<mapsto> v)\<rparr>, v))"

section \<open>Threads in \<open>get_or_insert_with\<close>\<close>

datatype 'v cache_pc =
    GetRead | GetClaim | GetRecheck nat | GetCompute nat | GetInsert nat 'v
  | GetStore nat "'v in_flight_result" | GetRemove nat "'v in_flight_result"
  | GetWait nat | GetReturned "'v option" | GetPanicked

record ('k, 'v) cache_thread =
  ct_key :: 'k
  ct_pc :: "'v cache_pc"

fun result_pc :: "'v in_flight_result \<Rightarrow> 'v cache_pc" where
  "result_pc (FlightValue v) = GetReturned v"
| "result_pc FlightPanicked = GetPanicked"

text \<open>\<open>wait_for_in_flight\<close> returns what the entry holds once it holds something.\<close>

definition wait_for_in_flight :: "nat \<Rightarrow> ('k, 'v) locator_cache \<Rightarrow> 'v cache_pc option" where
  "wait_for_in_flight e c =
     (if e < length (lc_entries c) then map_option result_pc (lc_entries c ! e) else None)"

text \<open>One step of a caller; \<open>r\<close> is what the closure does if this step calls it.\<close>

fun get_or_insert_step ::
  "'v option outcome \<Rightarrow> 'k \<Rightarrow> 'v cache_pc \<Rightarrow> ('k, 'v) locator_cache
   \<Rightarrow> ('v cache_pc \<times> ('k, 'v) locator_cache) option" where
  "get_or_insert_step r k GetRead c =
     Some (case lc_cache c k of Some v \<Rightarrow> GetReturned (Some v) | None \<Rightarrow> GetClaim, c)"
| "get_or_insert_step r k GetClaim c =
     (case claim_in_flight k c of
        (c', Owner e) \<Rightarrow> Some (GetRecheck e, c')
      | (c', Waiter e) \<Rightarrow> Some (GetWait e, c'))"
| "get_or_insert_step r k (GetRecheck e) c =
     Some (case lc_cache c k of Some v \<Rightarrow> GetStore e (FlightValue (Some v)) | None \<Rightarrow> GetCompute e, c)"
| "get_or_insert_step r k (GetCompute e) c =
     Some (case r of
             Ret (Some v) \<Rightarrow> GetInsert e v
           | Ret None \<Rightarrow> GetStore e (FlightValue None)
           | Panic m \<Rightarrow> GetStore e FlightPanicked, c)"
| "get_or_insert_step r k (GetInsert e v) c =
     (case insert_computed k v c of (c', v') \<Rightarrow> Some (GetStore e (FlightValue (Some v')), c'))"
| "get_or_insert_step r k (GetStore e x) c = Some (GetRemove e x, publish_store e x c)"
| "get_or_insert_step r k (GetRemove e x) c = Some (result_pc x, publish_remove k c)"
| "get_or_insert_step r k (GetWait e) c = map_option (\<lambda>pc. (pc, c)) (wait_for_in_flight e c)"
| "get_or_insert_step r k (GetReturned v) c = None"
| "get_or_insert_step r k GetPanicked c = None"

section \<open>The system\<close>

text \<open>\<open>cs_computed\<close> lists the values that closures returned, with their keys.\<close>

record ('k, 'v) cache_system =
  cs_cache :: "('k, 'v) locator_cache"
  cs_threads :: "('k, 'v) cache_thread list"
  cs_computed :: "('k \<times> 'v) list"

definition computed_value :: "'v option outcome \<Rightarrow> 'v cache_pc \<Rightarrow> 'v list" where
  "computed_value r pc = (case (pc, r) of (GetCompute e, Ret (Some v)) \<Rightarrow> [v] | _ \<Rightarrow> [])"

definition cache_thread_step ::
  "'v option outcome \<Rightarrow> nat \<Rightarrow> ('k, 'v) cache_system \<Rightarrow> ('k, 'v) cache_system option" where
  "cache_thread_step r i s =
     (if i < length (cs_threads s) then
        let t = cs_threads s ! i
        in case get_or_insert_step r (ct_key t) (ct_pc t) (cs_cache s) of
             None \<Rightarrow> None
           | Some (pc', c') \<Rightarrow>
               Some (s\<lparr>cs_cache := c', cs_threads := (cs_threads s)[i := t\<lparr>ct_pc := pc'\<rparr>],
                       cs_computed := cs_computed s @ map (Pair (ct_key t)) (computed_value r (ct_pc t))\<rparr>)
      else None)"

definition cache_progress :: "('k, 'v) cache_system \<Rightarrow> ('k, 'v) cache_system \<Rightarrow> bool" where
  "cache_progress s s' \<longleftrightarrow> (\<exists>r i. cache_thread_step r i s = Some s')"

text \<open>Callers, and other code that inserts into the cache or clears it.\<close>

inductive cache_call_step :: "('k, 'v) cache_system \<Rightarrow> ('k, 'v) cache_system \<Rightarrow> bool" where
  thread: "cache_progress s s' \<Longrightarrow> cache_call_step s s'"
| call: "cache_call_step s (s\<lparr>cs_threads := cs_threads s @ [\<lparr>ct_key = k, ct_pc = GetRead\<rparr>]\<rparr>)"

inductive cache_sys_step :: "('k, 'v) cache_system \<Rightarrow> ('k, 'v) cache_system \<Rightarrow> bool" where
  caller: "cache_call_step s s' \<Longrightarrow> cache_sys_step s s'"
| insert: "cache_sys_step s
    (s\<lparr>cs_cache := (cs_cache s)\<lparr>lc_cache := fst (cache_insert (lc_cache (cs_cache s)) k v)\<rparr>\<rparr>)"
| clear: "cache_sys_step s
    (s\<lparr>cs_cache := (cs_cache s)\<lparr>lc_cache := cache_clear (lc_cache (cs_cache s))\<rparr>\<rparr>)"

definition cache_system_init :: "('k, 'v) cache_system" where
  "cache_system_init = \<lparr>cs_cache = locator_cache_new, cs_threads = [], cs_computed = []\<rparr>"

section \<open>Owners\<close>

text \<open>The entry a thread owns, from its claim until it removes the key again.\<close>

fun owned :: "'v cache_pc \<Rightarrow> nat option" where
  "owned (GetRecheck e) = Some e"
| "owned (GetCompute e) = Some e"
| "owned (GetInsert e v) = Some e"
| "owned (GetStore e x) = Some e"
| "owned (GetRemove e x) = Some e"
| "owned _ = None"

fun unpublished :: "'v cache_pc \<Rightarrow> bool" where
  "unpublished (GetRemove e x) \<longleftrightarrow> False"
| "unpublished pc \<longleftrightarrow> owned pc \<noteq> None"

definition conflict :: "('k, 'v) cache_thread \<Rightarrow> ('k, 'v) cache_thread \<Rightarrow> bool" where
  "conflict a b \<longleftrightarrow> owned (ct_pc a) \<noteq> None \<and> owned (ct_pc b) \<noteq> None \<and>
     (ct_key a = ct_key b \<or> owned (ct_pc a) = owned (ct_pc b))"

text \<open>
  An owner's key is in the table with its entry, and no other thread owns that key or that
  entry; every key in the table has an owner; an entry without a result has an owner that has
  not stored one yet.
\<close>

definition thread_ok :: "('k, 'v) locator_cache \<Rightarrow> ('k, 'v) cache_thread \<Rightarrow> bool" where
  "thread_ok c t \<longleftrightarrow>
     (\<forall>e. owned (ct_pc t) = Some e \<longrightarrow> lc_in_flight c (ct_key t) = Some e \<and> e < length (lc_entries c)) \<and>
     (\<forall>e x. ct_pc t = GetRemove e x \<longrightarrow> lc_entries c ! e = Some x) \<and>
     (\<forall>e. ct_pc t = GetWait e \<longrightarrow> e < length (lc_entries c))"

definition no_conflicts :: "('k, 'v) cache_thread list \<Rightarrow> bool" where
  "no_conflicts ts \<longleftrightarrow>
     (\<forall>i < length ts. \<forall>j < length ts. i \<noteq> j \<longrightarrow> \<not> conflict (ts ! i) (ts ! j))"

definition table_owned :: "('k, 'v) locator_cache \<Rightarrow> ('k, 'v) cache_thread list \<Rightarrow> bool" where
  "table_owned c ts \<longleftrightarrow>
     (\<forall>k e. lc_in_flight c k = Some e \<longrightarrow> (\<exists>t \<in> set ts. ct_key t = k \<and> owned (ct_pc t) = Some e))"

definition entries_owned :: "('k, 'v) locator_cache \<Rightarrow> ('k, 'v) cache_thread list \<Rightarrow> bool" where
  "entries_owned c ts \<longleftrightarrow>
     (\<forall>e < length (lc_entries c). lc_entries c ! e = None \<longrightarrow>
        (\<exists>t \<in> set ts. owned (ct_pc t) = Some e \<and> unpublished (ct_pc t)))"

lemma conflict_sym: "conflict a b = conflict b a"
  by (auto simp: conflict_def)

lemma no_conflicts_update:
  assumes "no_conflicts ts" "\<And>j. j < length ts \<Longrightarrow> j \<noteq> i \<Longrightarrow> \<not> conflict t' (ts ! j)"
  shows "no_conflicts (ts[i := t'])"
  unfolding no_conflicts_def
proof (intro allI impI)
  fix a b assume "a < length (ts[i := t'])" "b < length (ts[i := t'])" "a \<noteq> b"
  then show "\<not> conflict (ts[i := t'] ! a) (ts[i := t'] ! b)"
    using assms(1) assms(2) [of a] assms(2) [of b] conflict_sym [of t' "ts ! a"]
    by (cases "a = i"; cases "b = i") (simp_all add: no_conflicts_def)
qed

lemma step_shape:
  assumes "get_or_insert_step r k pc c = Some (pc', c')"
  shows "(lc_in_flight c' = lc_in_flight c \<and> lc_entries c' = lc_entries c \<and> owned pc' = owned pc \<and>
      unpublished pc' = unpublished pc \<and> (\<forall>e x. pc' \<noteq> GetRemove e x) \<and>
      (\<forall>e. pc' = GetWait e \<longrightarrow> lc_in_flight c k = Some e)) \<or>
    (pc = GetClaim \<and> lc_in_flight c k = None \<and> pc' = GetRecheck (length (lc_entries c)) \<and>
      c' = c\<lparr>lc_entries := lc_entries c @ [None],
              lc_in_flight := (lc_in_flight c)(k \<mapsto> length (lc_entries c))\<rparr>) \<or>
    (\<exists>e x. pc = GetStore e x \<and> pc' = GetRemove e x \<and> c' = publish_store e x c) \<or>
    (\<exists>e x. pc = GetRemove e x \<and> pc' = result_pc x \<and> c' = publish_remove k c)"
proof -
  have res: "owned (result_pc x) = None \<and> \<not> unpublished (result_pc x) \<and> (\<forall>e y. result_pc x \<noteq> GetRemove e y) \<and>
      (\<forall>e. result_pc x \<noteq> GetWait e)" for x :: "'v in_flight_result"
    by (cases x) simp_all
  show ?thesis
    using assms
    by (cases pc) (auto simp: claim_in_flight_def insert_computed_def wait_for_in_flight_def Let_def res
        split: option.splits outcome.splits if_splits)
qed

lemma thread_ok_cong:
  "lc_in_flight c' = lc_in_flight c \<Longrightarrow> lc_entries c' = lc_entries c \<Longrightarrow> thread_ok c' = thread_ok c"
  by (simp add: fun_eq_iff thread_ok_def)

text \<open>The invariant on a cache and a list of threads, and what each shape of step does to it.\<close>

definition flight_ok :: "('k, 'v) locator_cache \<Rightarrow> ('k, 'v) cache_thread list \<Rightarrow> bool" where
  "flight_ok c ts \<longleftrightarrow>
     list_all (thread_ok c) ts \<and> no_conflicts ts \<and> table_owned c ts \<and> entries_owned c ts"

lemma flight_okD:
  assumes "flight_ok c ts"
  shows "j < length ts \<Longrightarrow> thread_ok c (ts ! j)" "no_conflicts ts" "table_owned c ts" "entries_owned c ts"
  using assms by (simp_all add: flight_ok_def list_all_length)

lemma flight_ok_update:
  assumes "\<And>j. j < length ts \<Longrightarrow> j \<noteq> i \<Longrightarrow> thread_ok c' (ts ! j)" "thread_ok c' t'"
    and "no_conflicts (ts[i := t'])" "table_owned c' (ts[i := t'])" "entries_owned c' (ts[i := t'])"
  shows "flight_ok c' (ts[i := t'])"
proof -
  have "thread_ok c' (ts[i := t'] ! n)" if "n < length ts" for n
    using assms(1,2) that by (cases "n = i") simp_all
  with assms(3-5) show ?thesis by (simp add: flight_ok_def list_all_length)
qed

lemma no_conflict_other:
  "no_conflicts ts \<Longrightarrow> i < length ts \<Longrightarrow> j < length ts \<Longrightarrow> j \<noteq> i \<Longrightarrow> \<not> conflict (ts ! i) (ts ! j)"
  by (simp add: no_conflicts_def)

lemma flight_ok_same:
  assumes ok: "flight_ok c ts" and i: "i < length ts"
    and c': "lc_in_flight c' = lc_in_flight c" "lc_entries c' = lc_entries c"
    and pc': "owned pc' = owned (ct_pc (ts ! i))" "unpublished pc' = unpublished (ct_pc (ts ! i))"
      "\<forall>e x. pc' \<noteq> GetRemove e x" "\<forall>e. pc' = GetWait e \<longrightarrow> lc_in_flight c (ct_key (ts ! i)) = Some e"
  shows "flight_ok c' (ts[i := (ts ! i)\<lparr>ct_pc := pc'\<rparr>])"
proof (rule flight_ok_update)
  note oks = flight_okD(1) [OF ok] and nc = flight_okD(2) [OF ok]
  show "thread_ok c' (ts ! j)" if "j < length ts" for j
    using oks that by (simp add: thread_ok_cong [OF c'])
  have "e < length (lc_entries c)" if "lc_in_flight c k = Some e" for k e
  proof -
    from flight_okD(3) [OF ok] that obtain j where "j < length ts" "owned (ct_pc (ts ! j)) = Some e"
      by (fastforce simp: table_owned_def in_set_conv_nth)
    with oks [of j] show ?thesis by (simp add: thread_ok_def)
  qed
  then show "thread_ok c' ((ts ! i)\<lparr>ct_pc := pc'\<rparr>)"
    using oks [OF i] pc' c' by (auto simp: thread_ok_def)
  show "no_conflicts (ts[i := (ts ! i)\<lparr>ct_pc := pc'\<rparr>])"
    using no_conflict_other [OF nc i] pc'(1) by (intro no_conflicts_update [OF nc]) (auto simp: conflict_def)
  show "table_owned c' (ts[i := (ts ! i)\<lparr>ct_pc := pc'\<rparr>])"
    using flight_okD(3) [OF ok] pc' c' i by (auto simp: table_owned_def intro!: bex_update)
  show "entries_owned c' (ts[i := (ts ! i)\<lparr>ct_pc := pc'\<rparr>])"
    using flight_okD(4) [OF ok] pc' c' i by (auto simp: entries_owned_def intro!: bex_update)
qed

lemma flight_ok_claim:
  assumes ok: "flight_ok c ts" and i: "i < length ts"
    and pc: "ct_pc (ts ! i) = GetClaim" "lc_in_flight c (ct_key (ts ! i)) = None"
  shows "flight_ok (c\<lparr>lc_entries := lc_entries c @ [None],
                     lc_in_flight := (lc_in_flight c)(ct_key (ts ! i) \<mapsto> length (lc_entries c))\<rparr>)
           (ts[i := (ts ! i)\<lparr>ct_pc := GetRecheck (length (lc_entries c))\<rparr>])" (is "flight_ok ?c (ts[i := ?t])")
proof (rule flight_ok_update)
  note oks = flight_okD(1) [OF ok] and nc = flight_okD(2) [OF ok]
  have other: "ct_key (ts ! j) \<noteq> ct_key (ts ! i) \<and> e < length (lc_entries c)"
    if "j < length ts" "owned (ct_pc (ts ! j)) = Some e" for j e
    using oks [OF that(1)] that(2) pc(2) by (auto simp: thread_ok_def)
  show "thread_ok ?c (ts ! j)" if "j < length ts" for j
    using oks [OF that] other [OF that] by (auto simp: thread_ok_def nth_append)
  show "thread_ok ?c ?t" by (simp add: thread_ok_def)
  show "no_conflicts (ts[i := ?t])"
    using other by (intro no_conflicts_update [OF nc]) (fastforce simp: conflict_def)
  have t: "?t \<in> set (ts[i := ?t])" using i by (rule set_update_memI)
  have "\<exists>u \<in> set (ts[i := ?t]). ct_key u = k \<and> owned (ct_pc u) = Some e"
    if "lc_in_flight c k = Some e" for k e
    using flight_okD(3) [OF ok] that pc i by (intro bex_update) (auto simp: table_owned_def)
  moreover have "\<exists>u \<in> set (ts[i := ?t]). ct_key u = ct_key (ts ! i) \<and> owned (ct_pc u) = Some (length (lc_entries c))"
    using t by (rule bexI [rotated]) simp
  ultimately show "table_owned ?c (ts[i := ?t])" by (simp add: table_owned_def)
  have "\<exists>u \<in> set (ts[i := ?t]). owned (ct_pc u) = Some e \<and> unpublished (ct_pc u)"
    if "e < length (lc_entries c)" "lc_entries c ! e = None" for e
    using flight_okD(4) [OF ok] that pc i by (intro bex_update) (auto simp: entries_owned_def)
  moreover have "\<exists>u \<in> set (ts[i := ?t]). owned (ct_pc u) = Some (length (lc_entries c)) \<and> unpublished (ct_pc u)"
    using t by (rule bexI [rotated]) simp
  ultimately show "entries_owned ?c (ts[i := ?t])"
    by (simp add: entries_owned_def nth_append less_Suc_eq)
qed

lemma flight_ok_store:
  assumes ok: "flight_ok c ts" and i: "i < length ts" and pc: "ct_pc (ts ! i) = GetStore e x"
  shows "flight_ok (publish_store e x c) (ts[i := (ts ! i)\<lparr>ct_pc := GetRemove e x\<rparr>])"
proof (rule flight_ok_update)
  note oks = flight_okD(1) [OF ok] and nc = flight_okD(2) [OF ok]
  have e: "e < length (lc_entries c)" "lc_in_flight c (ct_key (ts ! i)) = Some e"
    using oks [OF i] pc by (auto simp: thread_ok_def)
  show "thread_ok (publish_store e x c) (ts ! j)" if "j < length ts" "j \<noteq> i" for j
    using oks [OF that(1)] no_conflict_other [OF nc i that] pc
    by (auto simp: thread_ok_def publish_store_def conflict_def nth_list_update)
  show "thread_ok (publish_store e x c) ((ts ! i)\<lparr>ct_pc := GetRemove e x\<rparr>)"
    using e by (simp add: thread_ok_def publish_store_def)
  show "no_conflicts (ts[i := (ts ! i)\<lparr>ct_pc := GetRemove e x\<rparr>])"
    using no_conflict_other [OF nc i] pc by (intro no_conflicts_update [OF nc]) (auto simp: conflict_def)
  show "table_owned (publish_store e x c) (ts[i := (ts ! i)\<lparr>ct_pc := GetRemove e x\<rparr>])"
    using flight_okD(3) [OF ok] pc i by (auto simp: table_owned_def publish_store_def intro!: bex_update)
  show "entries_owned (publish_store e x c) (ts[i := (ts ! i)\<lparr>ct_pc := GetRemove e x\<rparr>])"
    unfolding entries_owned_def
  proof (intro allI impI)
    fix e' assume "e' < length (lc_entries (publish_store e x c))" "lc_entries (publish_store e x c) ! e' = None"
    then have "e' < length (lc_entries c)" "lc_entries c ! e' = None" "e' \<noteq> e"
      using e by (auto simp: publish_store_def nth_list_update split: if_splits)
    then show "\<exists>t \<in> set (ts[i := (ts ! i)\<lparr>ct_pc := GetRemove e x\<rparr>]). owned (ct_pc t) = Some e' \<and> unpublished (ct_pc t)"
      using flight_okD(4) [OF ok] pc i by (intro bex_update) (auto simp: entries_owned_def)
  qed
qed

lemma flight_ok_remove:
  assumes ok: "flight_ok c ts" and i: "i < length ts" and pc: "ct_pc (ts ! i) = GetRemove e x"
  shows "flight_ok (publish_remove (ct_key (ts ! i)) c) (ts[i := (ts ! i)\<lparr>ct_pc := result_pc x\<rparr>])"
proof (rule flight_ok_update)
  note oks = flight_okD(1) [OF ok] and nc = flight_okD(2) [OF ok]
  have res: "owned (result_pc x) = None" "result_pc x \<noteq> GetRemove e' y" "result_pc x \<noteq> GetWait e'" for e' y
    by (cases x; simp)+
  show "thread_ok (publish_remove (ct_key (ts ! i)) c) (ts ! j)" if "j < length ts" "j \<noteq> i" for j
    using oks [OF that(1)] no_conflict_other [OF nc i that] pc
    by (auto simp: thread_ok_def publish_remove_def conflict_def)
  show "thread_ok (publish_remove (ct_key (ts ! i)) c) ((ts ! i)\<lparr>ct_pc := result_pc x\<rparr>)"
    by (simp add: thread_ok_def res)
  show "no_conflicts (ts[i := (ts ! i)\<lparr>ct_pc := result_pc x\<rparr>])"
    using res by (intro no_conflicts_update [OF nc]) (auto simp: conflict_def)
  show "table_owned (publish_remove (ct_key (ts ! i)) c) (ts[i := (ts ! i)\<lparr>ct_pc := result_pc x\<rparr>])"
    using flight_okD(3) [OF ok] pc i by (auto simp: table_owned_def publish_remove_def intro!: bex_update)
  have "\<not> unpublished (ct_pc (ts ! i))" using pc by simp
  then show "entries_owned (publish_remove (ct_key (ts ! i)) c) (ts[i := (ts ! i)\<lparr>ct_pc := result_pc x\<rparr>])"
    using flight_okD(4) [OF ok] i by (auto simp: entries_owned_def publish_remove_def intro!: bex_update)
qed

lemma cache_thread_stepE:
  assumes "cache_thread_step r i s = Some s'"
  obtains t pc' c' where "i < length (cs_threads s)" "t = cs_threads s ! i"
    "get_or_insert_step r (ct_key t) (ct_pc t) (cs_cache s) = Some (pc', c')"
    "cs_cache s' = c'" "cs_threads s' = (cs_threads s)[i := t\<lparr>ct_pc := pc'\<rparr>]"
    "cs_computed s' = cs_computed s @ map (Pair (ct_key t)) (computed_value r (ct_pc t))"
  using assms by (auto simp: cache_thread_step_def Let_def split: if_splits option.splits)

definition flight_inv :: "('k, 'v) cache_system \<Rightarrow> bool" where
  "flight_inv s \<longleftrightarrow> flight_ok (cs_cache s) (cs_threads s)"

lemma flight_inv_thread:
  assumes inv: "flight_inv s" and step: "cache_thread_step r i s = Some s'"
  shows "flight_inv s'"
proof -
  from step obtain t pc' c' where i: "i < length (cs_threads s)" and t: "t = cs_threads s ! i"
    and f: "get_or_insert_step r (ct_key t) (ct_pc t) (cs_cache s) = Some (pc', c')"
    and s': "cs_cache s' = c'" "cs_threads s' = (cs_threads s)[i := t\<lparr>ct_pc := pc'\<rparr>]"
    by (rule cache_thread_stepE)
  from inv have ok: "flight_ok (cs_cache s) (cs_threads s)" by (simp add: flight_inv_def)
  show ?thesis
    unfolding flight_inv_def s' t
    using step_shape [OF f] flight_ok_same [OF ok i, of c' pc'] flight_ok_claim [OF ok i]
      flight_ok_store [OF ok i] flight_ok_remove [OF ok i]
    unfolding t by (elim disjE exE conjE) simp_all
qed

lemma flight_inv_sys: "cache_sys_step s s' \<Longrightarrow> flight_inv s \<Longrightarrow> flight_inv s'"
proof (induction rule: cache_sys_step.induct)
  case (caller s s')
  then show ?case
  proof (induction rule: cache_call_step.induct)
    case (thread s s')
    then show ?case by (auto simp: cache_progress_def intro: flight_inv_thread)
  next
    case (call s k)
    then show ?case
      by (auto simp: flight_inv_def flight_ok_def thread_ok_def no_conflicts_def nth_append conflict_def
          table_owned_def entries_owned_def)
  qed
next
  case (insert s k v)
  then show ?case
    by (simp add: flight_inv_def flight_ok_def table_owned_def entries_owned_def
        thread_ok_cong [of "cs_cache s\<lparr>lc_cache := _\<rparr>"])
next
  case (clear s)
  then show ?case
    by (simp add: flight_inv_def flight_ok_def table_owned_def entries_owned_def
        thread_ok_cong [of "cs_cache s\<lparr>lc_cache := _\<rparr>"])
qed

section \<open>Every caller gets an answer\<close>

fun cache_rank :: "'v cache_pc \<Rightarrow> nat" where
  "cache_rank GetRead = 8"
| "cache_rank GetClaim = 7"
| "cache_rank (GetRecheck e) = 6"
| "cache_rank (GetCompute e) = 5"
| "cache_rank (GetInsert e v) = 4"
| "cache_rank (GetStore e x) = 3"
| "cache_rank (GetRemove e x) = 2"
| "cache_rank (GetWait e) = 1"
| "cache_rank (GetReturned v) = 0"
| "cache_rank GetPanicked = 0"

definition cache_finished :: "('k, 'v) cache_system \<Rightarrow> bool" where
  "cache_finished s \<longleftrightarrow> list_all (\<lambda>t. cache_rank (ct_pc t) = 0) (cs_threads s)"

definition cache_work :: "('k, 'v) cache_system \<Rightarrow> nat" where
  "cache_work s = sum_list (map (\<lambda>t. cache_rank (ct_pc t)) (cs_threads s))"

lemma cache_rank_step:
  assumes "get_or_insert_step r k pc c = Some (pc', c')"
  shows "cache_rank pc' < cache_rank pc"
proof -
  have "cache_rank (result_pc x) = 0" for x :: "'v in_flight_result" by (cases x) simp_all
  with assms show ?thesis
    by (cases pc) (auto simp: claim_in_flight_def insert_computed_def wait_for_in_flight_def Let_def
        split: option.splits outcome.splits if_splits prod.splits)
qed

lemma sum_list_update_less:
  fixes f :: "'a \<Rightarrow> nat"
  assumes "i < length xs" "f x < f (xs ! i)"
  shows "sum_list (map f (xs[i := x])) < sum_list (map f xs)"
  using assms by (induction xs arbitrary: i) (auto split: nat.splits)

lemma cache_work_decreases: "cache_progress s s' \<Longrightarrow> cache_work s' < cache_work s"
  by (auto simp: cache_progress_def cache_work_def elim!: cache_thread_stepE
      intro!: sum_list_update_less dest!: cache_rank_step)

lemma enabled_unless_waiting:
  assumes "cache_rank pc \<noteq> 0" "\<And>e. pc = GetWait e \<Longrightarrow> e < length (lc_entries c) \<and> lc_entries c ! e \<noteq> None"
  shows "get_or_insert_step r k pc c \<noteq> None"
  using assms
  by (cases pc) (auto simp: wait_for_in_flight_def split: prod.splits in_flight_claim.splits)

lemma cache_progress_enabled:
  assumes "flight_inv s" "\<not> cache_finished s"
  shows "\<exists>s'. cache_progress s s'"
proof -
  have en: "\<exists>s'. cache_progress s s'"
    if "i < length (cs_threads s)"
      "get_or_insert_step (Ret None) (ct_key (cs_threads s ! i)) (ct_pc (cs_threads s ! i)) (cs_cache s) \<noteq> None" for i
    using that by (force simp: cache_progress_def cache_thread_step_def Let_def intro!: exI [of _ "Ret None"] exI [of _ i])
  from assms(2) obtain i where i: "i < length (cs_threads s)" "cache_rank (ct_pc (cs_threads s ! i)) \<noteq> 0"
    by (auto simp: cache_finished_def list_all_length)
  from assms(1) have ok: "flight_ok (cs_cache s) (cs_threads s)" by (simp add: flight_inv_def)
  show ?thesis
  proof (cases "\<exists>e. ct_pc (cs_threads s ! i) = GetWait e \<and> lc_entries (cs_cache s) ! e = None")
    case False
    have "e < length (lc_entries (cs_cache s))" if "ct_pc (cs_threads s ! i) = GetWait e" for e
      using flight_okD(1) [OF ok i(1)] that by (simp add: thread_ok_def)
    with False i show ?thesis by (intro en [OF i(1)] enabled_unless_waiting) auto
  next
    case True
    then obtain e where e: "ct_pc (cs_threads s ! i) = GetWait e" "lc_entries (cs_cache s) ! e = None" by blast
    with flight_okD(1) [OF ok i(1)] flight_okD(4) [OF ok] obtain j where
      "j < length (cs_threads s)" "owned (ct_pc (cs_threads s ! j)) = Some e"
      by (fastforce simp: thread_ok_def entries_owned_def in_set_conv_nth)
    then show ?thesis
      by (intro en [of j] enabled_unless_waiting) (cases "ct_pc (cs_threads s ! j)"; auto)+
  qed
qed

interpretation flight: live_system "\<lambda>s. s = cache_system_init" cache_sys_step flight_inv
    cache_progress cache_finished "measure cache_work"
proof unfold_locales
  show "flight_inv s" if "s = cache_system_init" for s :: "('a, 'b) cache_system"
    using that by (simp add: cache_system_init_def flight_inv_def flight_ok_def no_conflicts_def
        table_owned_def entries_owned_def locator_cache_new_def)
  show "flight_inv t" if "flight_inv s" "cache_sys_step s t" for s t :: "('a, 'b) cache_system"
    using that flight_inv_sys by blast
  show "cache_sys_step s t" if "cache_progress s t" for s t :: "('a, 'b) cache_system"
    using that by (blast intro: cache_sys_step.intros cache_call_step.intros)
  show "(t, s) \<in> measure cache_work" if "cache_progress s t" for s t :: "('a, 'b) cache_system"
    using that by (simp add: cache_work_decreases)
qed (simp_all add: cache_progress_enabled)

section \<open>The values callers get\<close>

text \<open>
  Without other code that changes the cache: a value that is being published, was returned or
  is waited for is the cached one; a key that is being computed is not cached and has not been
  computed before; a waiter waits on the entry of its own key.
\<close>

definition value_ok :: "('k, 'v) locator_cache \<Rightarrow> ('k \<times> 'v) list \<Rightarrow> ('k, 'v) cache_thread \<Rightarrow> bool" where
  "value_ok c log t \<longleftrightarrow>
     (case ct_pc t of
        GetCompute e \<Rightarrow> lc_cache c (ct_key t) = None \<and> ct_key t \<notin> fst ` set log
      | GetInsert e v \<Rightarrow> lc_cache c (ct_key t) = None \<and> (ct_key t, v) \<in> set log
      | GetStore e (FlightValue (Some v)) \<Rightarrow> lc_cache c (ct_key t) = Some v
      | GetRemove e (FlightValue (Some v)) \<Rightarrow> lc_cache c (ct_key t) = Some v
      | GetReturned (Some v) \<Rightarrow> lc_cache c (ct_key t) = Some v
      | GetWait e \<Rightarrow> (\<forall>v. lc_entries c ! e = Some (FlightValue (Some v)) \<longrightarrow> lc_cache c (ct_key t) = Some v)
      | _ \<Rightarrow> True) \<and>
     (unpublished (ct_pc t) \<longrightarrow> (\<forall>e. owned (ct_pc t) = Some e \<longrightarrow> lc_entries c ! e = None))"

definition waits_ok :: "('k, 'v) cache_thread list \<Rightarrow> bool" where
  "waits_ok ts \<longleftrightarrow>
     (\<forall>t \<in> set ts. \<forall>u \<in> set ts. \<forall>e. owned (ct_pc t) = Some e \<and> ct_pc u = GetWait e \<longrightarrow> ct_key t = ct_key u)"

definition log_ok :: "('k, 'v) locator_cache \<Rightarrow> ('k, 'v) cache_thread list \<Rightarrow> ('k \<times> 'v) list \<Rightarrow> bool" where
  "log_ok c ts log \<longleftrightarrow> distinct (map fst log) \<and>
     (\<forall>k v. lc_cache c k = Some v \<longrightarrow> (k, v) \<in> set log) \<and>
     (\<forall>(k, v) \<in> set log. lc_cache c k = Some v \<or>
        (\<exists>t \<in> set ts. ct_key t = k \<and> (\<exists>e. ct_pc t = GetInsert e v)))"

definition value_inv :: "('k, 'v) cache_system \<Rightarrow> bool" where
  "value_inv s \<longleftrightarrow> flight_inv s \<and> list_all (value_ok (cs_cache s) (cs_computed s)) (cs_threads s) \<and>
     waits_ok (cs_threads s) \<and> log_ok (cs_cache s) (cs_threads s) (cs_computed s)"

lemma result_pc_owned: "owned (result_pc x) = None" "result_pc x \<noteq> GetWait e" "GetWait e \<noteq> result_pc x"
  by (cases x; simp)+

lemma value_ok_result:
  "value_ok c log (t\<lparr>ct_pc := result_pc x\<rparr>) \<longleftrightarrow>
   (\<forall>v. x = FlightValue (Some v) \<longrightarrow> lc_cache c (ct_key t) = Some v)"
  by (cases x; cases "case x of FlightValue v \<Rightarrow> v") (auto simp: value_ok_def split: option.splits)

text \<open>A thread that is not the one that moved keeps its part of the invariant.\<close>

lemma value_ok_other:
  assumes step: "get_or_insert_step r (ct_key t) (ct_pc t) c = Some (pc', c')"
    and nc: "\<not> conflict t u" and tok: "thread_ok c t" "value_ok c log t"
    and uok: "thread_ok c u" "value_ok c log u"
    and wait: "\<And>e. owned (ct_pc t) = Some e \<Longrightarrow> ct_pc u = GetWait e \<Longrightarrow> ct_key t = ct_key u"
  shows "value_ok c' (log @ map (Pair (ct_key t)) (computed_value r (ct_pc t))) u"
proof (cases "ct_pc t")
  case (GetCompute e)
  with step nc uok show ?thesis
    by (cases "ct_pc u") (auto simp: value_ok_def conflict_def computed_value_def
        split: in_flight_result.splits option.splits outcome.splits)
next
  case (GetInsert e v)
  with step nc uok tok show ?thesis
    by (cases "ct_pc u") (auto simp: value_ok_def conflict_def computed_value_def insert_computed_def
        split: in_flight_result.splits option.splits outcome.splits)
next
  case (GetStore e x)
  with step nc uok tok wait show ?thesis
    by (cases "ct_pc u") (auto simp: value_ok_def conflict_def computed_value_def publish_store_def
        thread_ok_def nth_list_update split: in_flight_result.splits option.splits if_splits)
next
  case GetClaim
  with step uok show ?thesis
    by (cases "ct_pc u") (auto simp: value_ok_def computed_value_def claim_in_flight_def Let_def
        thread_ok_def nth_append split: in_flight_result.splits option.splits)
qed (use step uok in \<open>auto simp: value_ok_def computed_value_def publish_remove_def
      split: cache_pc.splits in_flight_result.splits option.splits\<close>)

lemma value_ok_self:
  assumes ok: "flight_ok c ts" and i: "i < length ts" and vok: "list_all (value_ok c log) ts"
    and lok: "log_ok c ts log"
    and step: "get_or_insert_step r (ct_key (ts ! i)) (ct_pc (ts ! i)) c = Some (pc', c')"
  shows "value_ok c' (log @ map (Pair (ct_key (ts ! i))) (computed_value r (ct_pc (ts ! i))))
           ((ts ! i)\<lparr>ct_pc := pc'\<rparr>)"
proof -
  let ?t = "ts ! i"
  have v: "value_ok c log ?t" and th: "thread_ok c ?t"
    using vok i flight_okD(1) [OF ok i] by (simp_all add: list_all_length)
  show ?thesis
  proof (cases "ct_pc ?t")
    case GetClaim
    show ?thesis
    proof (cases "lc_in_flight c (ct_key ?t)")
      case (Some e)
      with flight_okD(3) [OF ok] obtain j where j: "j < length ts" "ct_key (ts ! j) = ct_key ?t"
        "owned (ct_pc (ts ! j)) = Some e" by (fastforce simp: table_owned_def in_set_conv_nth)
      then have "thread_ok c (ts ! j)" "value_ok c log (ts ! j)"
        using vok flight_okD(1) [OF ok] by (simp_all add: list_all_length)
      with j Some GetClaim step show ?thesis
        by (cases "ct_pc (ts ! j)") (auto simp: claim_in_flight_def computed_value_def value_ok_def thread_ok_def)
    qed (use GetClaim step in \<open>auto simp: claim_in_flight_def computed_value_def value_ok_def Let_def\<close>)
  next
    case (GetRecheck e)
    have "ct_key ?t \<notin> fst ` set log" if "lc_cache c (ct_key ?t) = None"
    proof
      assume "ct_key ?t \<in> fst ` set log"
      with lok that obtain u e' w where "u \<in> set ts" "ct_key u = ct_key ?t" "ct_pc u = GetInsert e' w"
        by (fastforce simp: log_ok_def)
      moreover from this obtain j where "j < length ts" "u = ts ! j" by (auto simp: in_set_conv_nth)
      ultimately show False
        using no_conflict_other [OF flight_okD(2) [OF ok] i, of j] GetRecheck
        by (cases "j = i") (auto simp: conflict_def)
    qed
    with GetRecheck step v show ?thesis
      by (auto simp: computed_value_def value_ok_def split: option.splits)
  qed (use step v th in \<open>auto simp: value_ok_result computed_value_def insert_computed_def publish_store_def
        publish_remove_def wait_for_in_flight_def thread_ok_def,
      auto simp: value_ok_def split: option.splits outcome.splits in_flight_result.splits\<close>)
qed

lemma waits_ok_step:
  assumes ok: "flight_ok c ts" and i: "i < length ts" and w: "waits_ok ts"
    and step: "get_or_insert_step r (ct_key (ts ! i)) (ct_pc (ts ! i)) c = Some (pc', c')"
  shows "waits_ok (ts[i := (ts ! i)\<lparr>ct_pc := pc'\<rparr>])"
proof -
  let ?t = "ts ! i"
  have old: "ct_key t = ct_key u" if "t \<in> set ts" "u \<in> set ts" "owned (ct_pc t) = Some e" "ct_pc u = GetWait e" for t u e
    using w that by (auto simp: waits_ok_def)
  have less: "e < length (lc_entries c)" if "u \<in> set ts" "ct_pc u = GetWait e" for u e
    using flight_okD(1) [OF ok] that by (auto simp: in_set_conv_nth thread_ok_def)
  have key: "ct_key t = k" if "t \<in> set ts" "owned (ct_pc t) = Some e" "lc_in_flight c k = Some e" for t e k
  proof -
    from that flight_okD(3) [OF ok] obtain a b where ab: "a < length ts" "t = ts ! a" "b < length ts"
      "ct_key (ts ! b) = k" "owned (ct_pc (ts ! b)) = Some e" by (fastforce simp: table_owned_def in_set_conv_nth)
    with that no_conflict_other [OF flight_okD(2) [OF ok], of a b] show ?thesis
      by (cases "b = a") (auto simp: conflict_def)
  qed
  have "ct_key ?t = ct_key u" if "u \<in> set ts" "owned pc' = Some e" "ct_pc u = GetWait e" for u e
    using step_shape [OF step] old [of ?t u] that less [of u] i
    by (elim disjE exE conjE) (auto simp: result_pc_owned)
  moreover have "ct_key t = ct_key ?t" if "t \<in> set ts" "owned (ct_pc t) = Some e" "pc' = GetWait e" for t e
    using step_shape [OF step] key [of t e "ct_key ?t"] that
    by (elim disjE exE conjE) (auto simp: result_pc_owned)
  ultimately show ?thesis
    using old unfolding waits_ok_def
    by (auto dest!: subsetD [OF set_update_subset_insert])
qed

lemma log_ok_step:
  assumes ok: "flight_ok c ts" and i: "i < length ts" and v: "value_ok c log (ts ! i)" and l: "log_ok c ts log"
    and step: "get_or_insert_step r (ct_key (ts ! i)) (ct_pc (ts ! i)) c = Some (pc', c')"
  shows "log_ok c' (ts[i := (ts ! i)\<lparr>ct_pc := pc'\<rparr>])
           (log @ map (Pair (ct_key (ts ! i))) (computed_value r (ct_pc (ts ! i))))"
proof -
  let ?t = "ts ! i" and ?ts = "ts[i := (ts ! i)\<lparr>ct_pc := pc'\<rparr>]"
  from l have d: "distinct (map fst log)" and c: "\<And>k v. lc_cache c k = Some v \<Longrightarrow> (k, v) \<in> set log"
    and e: "\<And>k v. (k, v) \<in> set log \<Longrightarrow> lc_cache c k = Some v \<or>
        (\<exists>t \<in> set ts. ct_key t = k \<and> (\<exists>e. ct_pc t = GetInsert e v))"
    by (auto simp: log_ok_def)
  have t': "?t\<lparr>ct_pc := pc'\<rparr> \<in> set ?ts" using i by (rule set_update_memI)
  show ?thesis
  proof (cases "\<exists>e v. ct_pc ?t = GetInsert e v")
    case True
    then obtain f w where pc: "ct_pc ?t = GetInsert f w" by blast
    with v have new: "lc_cache c (ct_key ?t) = None" "(ct_key ?t, w) \<in> set log" by (auto simp: value_ok_def)
    with step pc have c': "c' = c\<lparr>lc_cache := (lc_cache c)(ct_key ?t \<mapsto> w)\<rparr>"
      by (auto simp: insert_computed_def)
    have "lc_cache c' k = Some x \<or> (\<exists>t \<in> set ?ts. ct_key t = k \<and> (\<exists>e. ct_pc t = GetInsert e x))"
      if "(k, x) \<in> set log" for k x
    proof (cases "k = ct_key ?t")
      case True
      with that new(2) d have "x = w" by (metis eq_key_imp_eq_value)
      with True c' show ?thesis by simp
    next
      case False
      with e [OF that] c' pc i show ?thesis by (auto intro!: bex_update)
    qed
    with pc c' c new d show ?thesis by (auto simp: log_ok_def computed_value_def)
  next
    case False
    have c': "lc_cache c' = lc_cache c"
      using step False by (cases "ct_pc ?t") (auto simp: claim_in_flight_def publish_store_def
          publish_remove_def Let_def split: option.splits)
    have old: "lc_cache c' k = Some x \<or> (\<exists>t \<in> set ?ts. ct_key t = k \<and> (\<exists>e. ct_pc t = GetInsert e x))"
      if "(k, x) \<in> set log" for k x
      using e [OF that] c' False i by (auto intro!: bex_update)
    show ?thesis
    proof (cases "computed_value r (ct_pc ?t)")
      case Nil
      with old c c' d show ?thesis by (auto simp: log_ok_def)
    next
      case (Cons w ws)
      then obtain f where pc: "ct_pc ?t = GetCompute f" "r = Ret (Some w)" "ws = []"
        by (auto simp: computed_value_def split: cache_pc.splits outcome.splits option.splits)
      with step v have "pc' = GetInsert f w" "ct_key ?t \<notin> fst ` set log" by (auto simp: value_ok_def)
      with old c c' d t' Cons pc show ?thesis by (force simp: log_ok_def)
    qed
  qed
qed

lemma value_inv_thread:
  assumes inv: "value_inv s" and step: "cache_thread_step r i s = Some s'"
  shows "value_inv s'"
proof -
  from step obtain t pc' c' where i: "i < length (cs_threads s)" and t: "t = cs_threads s ! i"
    and f: "get_or_insert_step r (ct_key t) (ct_pc t) (cs_cache s) = Some (pc', c')"
    and s': "cs_cache s' = c'" "cs_threads s' = (cs_threads s)[i := t\<lparr>ct_pc := pc'\<rparr>]"
      "cs_computed s' = cs_computed s @ map (Pair (ct_key t)) (computed_value r (ct_pc t))"
    by (rule cache_thread_stepE)
  from inv have ok: "flight_ok (cs_cache s) (cs_threads s)"
    and vok: "list_all (value_ok (cs_cache s) (cs_computed s)) (cs_threads s)"
    and w: "waits_ok (cs_threads s)" and l: "log_ok (cs_cache s) (cs_threads s) (cs_computed s)"
    by (auto simp: value_inv_def flight_inv_def)
  have vi: "value_ok (cs_cache s) (cs_computed s) (cs_threads s ! i)" using vok i by (simp add: list_all_length)
  have "value_ok c' (cs_computed s') (cs_threads s' ! j)" if j: "j < length (cs_threads s)" for j
  proof (cases "j = i")
    case True
    with value_ok_self [OF ok i vok l f [unfolded t]] i show ?thesis by (simp add: s' t)
  next
    case False
    have "value_ok c' (cs_computed s') (cs_threads s ! j)"
      unfolding s'(3)
      by (rule value_ok_other [OF f])
        (use j i t False vok vi w flight_okD(1) [OF ok] no_conflict_other [OF flight_okD(2) [OF ok] i j False]
          in \<open>auto simp: list_all_length waits_ok_def\<close>)
    with False show ?thesis by (simp add: s')
  qed
  with flight_inv_thread [OF _ step] inv waits_ok_step [OF ok i w f [unfolded t]] log_ok_step [OF ok i vi l f [unfolded t]]
  show ?thesis by (simp add: value_inv_def s' t list_all_length)
qed

interpretation cached_vals: inv_system "\<lambda>s. s = cache_system_init" cache_call_step value_inv
proof unfold_locales
  show "value_inv s" if "s = cache_system_init" for s :: "('a, 'b) cache_system"
    using that flight.inv_init [OF that]
    by (simp add: value_inv_def cache_system_init_def waits_ok_def log_ok_def locator_cache_new_def)
  show "value_inv t" if "value_inv s" "cache_call_step s t" for s t :: "('a, 'b) cache_system"
    using that(2,1)
  proof cases
    case thread
    with that(1) show ?thesis by (auto simp: cache_progress_def intro: value_inv_thread)
  next
    case (call k)
    have "flight_inv t" using that flight_inv_sys cache_sys_step.caller value_inv_def by blast
    with that(1) call show ?thesis
      by (auto simp: value_inv_def value_ok_def waits_ok_def log_ok_def)
  qed
qed

section \<open>Schedules\<close>

datatype ('k, 'v) cache_event = Call 'k | Run nat "'v option outcome" | Clear

fun cache_event_step :: "('k, 'v) cache_event \<Rightarrow> ('k, 'v) cache_system \<Rightarrow> ('k, 'v) cache_system option" where
  "cache_event_step (Call k) s = Some (s\<lparr>cs_threads := cs_threads s @ [\<lparr>ct_key = k, ct_pc = GetRead\<rparr>]\<rparr>)"
| "cache_event_step (Run i r) s = cache_thread_step r i s"
| "cache_event_step Clear s =
     Some (s\<lparr>cs_cache := (cs_cache s)\<lparr>lc_cache := cache_clear (lc_cache (cs_cache s))\<rparr>\<rparr>)"

fun cache_schedule :: "('k, 'v) cache_event list \<Rightarrow> ('k, 'v) cache_system \<Rightarrow> ('k, 'v) cache_system option" where
  "cache_schedule [] s = Some s"
| "cache_schedule (e # es) s =
     (case cache_event_step e s of Some s' \<Rightarrow> cache_schedule es s' | None \<Rightarrow> None)"

lemma cache_progressI: "cache_thread_step r i s = Some t \<Longrightarrow> cache_progress s t"
  by (auto simp: cache_progress_def)

lemma cache_schedule_call:
  "list_all (\<lambda>e. e \<noteq> Clear) es \<Longrightarrow> cache_schedule es s = Some s' \<Longrightarrow> cache_call_step\<^sup>*\<^sup>* s s'"
proof (induction es arbitrary: s)
  case (Cons e es)
  then obtain t where t: "cache_event_step e s = Some t" "cache_schedule es t = Some s'"
    by (auto split: option.splits)
  then have "cache_call_step s t"
    using Cons.prems(1) by (cases e) (auto intro: cache_call_step.intros cache_progressI)
  with Cons t show ?case by (auto intro: converse_rtranclp_into_rtranclp)
qed simp

lemma cache_schedule_sys:
  "cache_schedule es s = Some s' \<Longrightarrow> cache_sys_step\<^sup>*\<^sup>* s s'"
proof (induction es arbitrary: s)
  case (Cons e es)
  then obtain t where t: "cache_event_step e s = Some t" "cache_schedule es t = Some s'"
    by (auto split: option.splits)
  then have "cache_sys_step s t"
    by (cases e) (auto intro: cache_sys_step.intros cache_call_step.intros cache_progressI)
  with Cons t show ?case by (auto intro: converse_rtranclp_into_rtranclp)
qed simp

lemmas cache_run_defs =
  cache_thread_step_def cache_system_init_def locator_cache_new_def claim_in_flight_def
  insert_computed_def publish_store_def publish_remove_def wait_for_in_flight_def computed_value_def
  cache_clear_def

section \<open>Properties\<close>

text \<open>C13: Whatever callers, insertions and clearings of the cache interleave, at most one closure
  is running for a key at any time.\<close>

theorem cache_single_computation:
  assumes "cache_sys_step\<^sup>*\<^sup>* cache_system_init s"
    and "i < length (cs_threads s)" "ct_pc (cs_threads s ! i) = GetCompute e"
    and "j < length (cs_threads s)" "ct_pc (cs_threads s ! j) = GetCompute f"
    and "ct_key (cs_threads s ! i) = ct_key (cs_threads s ! j)"
  shows "i = j"
proof (rule ccontr)
  assume "i \<noteq> j"
  moreover have "no_conflicts (cs_threads s)"
    using flight.inv_reachable [OF refl assms(1)] by (simp add: flight_inv_def flight_ok_def)
  ultimately show False using assms(2-) no_conflict_other [of "cs_threads s" j i] by (simp add: conflict_def)
qed

definition computing_twice :: "(nat, string) cache_event list" where
  "computing_twice = [Call 1, Call 1, Call 2, Run 0 (Ret None), Run 1 (Ret None), Run 0 (Ret None),
     Run 1 (Ret None), Run 0 (Ret None), Run 2 (Ret None), Run 2 (Ret None), Run 2 (Ret None)]"

theorem cache_single_computation_witness:
  "\<exists>s. cache_schedule computing_twice cache_system_init = Some s \<and>
       map ct_pc (cs_threads s) = [GetCompute 0, GetWait 0, GetCompute 1] \<and>
       (\<forall>j < length (cs_threads s). ct_pc (cs_threads s ! j) = GetCompute 0 \<longrightarrow> j = 0)"
proof -
  obtain s where s: "cache_schedule computing_twice cache_system_init = Some s"
    "map ct_pc (cs_threads s) = [GetCompute 0, GetWait 0, GetCompute 1]"
    "map ct_key (cs_threads s) = [1, 1, 2]"
    by (simp add: computing_twice_def cache_run_defs)
  then obtain a b c where ts: "cs_threads s = [a, b, c]" "ct_pc a = GetCompute 0" "ct_key a = 1"
    "ct_pc b = GetWait 0" "ct_pc c = GetCompute 1" by auto
  then have "j = 0" if "j < length (cs_threads s)" "ct_pc (cs_threads s ! j) = GetCompute 0" for j
    using that cache_single_computation [OF cache_schedule_sys [OF s(1)], of 0 0 j 0]
    by (auto simp: less_Suc_eq)
  with s show ?thesis by (intro exI [of _ s]) simp
qed

text \<open>C14: No caller waits for ever: from every reachable state the callers can run until each has
  returned or panicked, and no sequence of their steps is infinite.\<close>

theorem cache_callers_finish:
  assumes "cache_sys_step\<^sup>*\<^sup>* cache_system_init s"
  shows "(\<exists>t. cache_progress\<^sup>*\<^sup>* s t \<and> cache_finished t) \<and>
         (\<forall>f. f 0 = s \<longrightarrow> (\<exists>n. \<not> cache_progress (f n) (f (Suc n))))"
  using flight.inv_reachable [OF refl assms] flight.finishes [of s] flight.no_infinite_run by auto

theorem cache_callers_finish_witness:
  "\<exists>s. cache_schedule computing_twice cache_system_init = Some s \<and> \<not> cache_finished s \<and>
       (\<exists>t. cache_progress\<^sup>*\<^sup>* s t \<and> cache_finished t)"
proof -
  obtain s where s: "cache_schedule computing_twice cache_system_init = Some s" "\<not> cache_finished s"
    by (simp add: computing_twice_def cache_run_defs cache_finished_def)
  with cache_callers_finish [OF cache_schedule_sys [OF s(1)]] show ?thesis by blast
qed

text \<open>As long as the cache is not changed from outside, a closure produces a value at most once
  per key, and every caller that gets a value gets the one produced for its key.\<close>

theorem cache_value_shared:
  assumes "cache_call_step\<^sup>*\<^sup>* cache_system_init s"
  shows "distinct (map fst (cs_computed s)) \<and>
    (\<forall>t v. t \<in> set (cs_threads s) \<and> ct_pc t = GetReturned (Some v) \<longrightarrow> (ct_key t, v) \<in> set (cs_computed s))"
proof -
  from cached_vals.inv_reachable [OF refl assms] have
    v: "list_all (value_ok (cs_cache s) (cs_computed s)) (cs_threads s)"
    and l: "log_ok (cs_cache s) (cs_threads s) (cs_computed s)" by (simp_all add: value_inv_def)
  have "lc_cache (cs_cache s) (ct_key t) = Some v"
    if "t \<in> set (cs_threads s)" "ct_pc t = GetReturned (Some v)" for t v
    using v that by (auto simp: list_all_iff value_ok_def)
  with l show ?thesis by (auto simp: log_ok_def)
qed

definition shared_value :: "(nat, string) cache_event list" where
  "shared_value = [Call 1, Run 0 (Ret None), Run 0 (Ret None), Run 0 (Ret None), Call 1,
     Run 1 (Ret None), Run 1 (Ret None), Run 0 (Ret (Some ''x'')), Run 0 (Ret None), Run 0 (Ret None),
     Run 1 (Ret None), Run 0 (Ret None), Call 1, Run 2 (Ret (Some ''y''))]"

theorem cache_value_shared_witness:
  "\<exists>s. cache_schedule shared_value cache_system_init = Some s \<and>
       map ct_pc (cs_threads s) = replicate 3 (GetReturned (Some ''x'')) \<and>
       distinct (map fst (cs_computed s)) \<and> cs_computed s = [(1, ''x'')]"
proof -
  obtain s where s: "cache_schedule shared_value cache_system_init = Some s"
    "map ct_pc (cs_threads s) = replicate 3 (GetReturned (Some ''x''))" "cs_computed s = [(1, ''x'')]"
    by (simp add: shared_value_def cache_run_defs numeral_3_eq_3)
  moreover have "list_all (\<lambda>e. e \<noteq> Clear) shared_value" by (simp add: shared_value_def)
  ultimately show ?thesis using cache_value_shared [OF cache_schedule_call] by blast
qed

end
