(* ===== verification/Conda.thy ===== *)
theory Conda
  imports Conda_Locations Conda_Cache Locator_Cache
begin

text \<open>
  The Conda locator, \<open>pet-conda/src/lib.rs\<close>: its caches and its operations \<open>try_from\<close>,
  \<open>find\<close>, \<open>find_and_report\<close> and \<open>configure\<close>. The threads of \<open>find\<close>, one per path, are run one
  after the other, each on what the ones before it left in the caches; that reporting and caching do
  not depend on what was cached before is the property below. Keys of the caches are the components
  of a path, by which paths are compared and hashed. Spawning \<open>conda info\<close> and its telemetry are
  not modelled.
\<close>

section \<open>State\<close>

record conda =
  co_environments :: "(component list, python_environment) cache_map"
  co_managers :: "(component list, conda_manager) cache_map"
  co_mamba_managers :: "(component list, conda_manager) cache_map"
  co_conda_executable :: "path option"
  co_info_cache :: info_cache

definition conda_with_info_cache :: "info_cache \<Rightarrow> conda" where
  "conda_with_info_cache cache =
     \<lparr>co_environments = Map.empty, co_managers = Map.empty, co_mamba_managers = Map.empty,
      co_conda_executable = None, co_info_cache = cache\<rparr>"

definition conda_new :: conda where
  "conda_new = conda_with_info_cache Map.empty"

definition conda_from_shared :: "conda \<Rightarrow> conda" where
  "conda_from_shared source = conda_with_info_cache (co_info_cache source)"

definition conda_clear :: "conda \<Rightarrow> conda" where
  "conda_clear co =
     co\<lparr>co_environments := cache_clear (co_environments co), co_managers := cache_clear (co_managers co),
        co_mamba_managers := cache_clear (co_mamba_managers co)\<rparr>"

definition conda_set_executable :: "path option \<Rightarrow> conda \<Rightarrow> conda" where
  "conda_set_executable exe co = co\<lparr>co_conda_executable := exe\<rparr>"

text \<open>What \<open>get_or_insert_with\<close> does for a caller that is alone.\<close>

definition get_or_insert :: "('k, 'v) cache_map \<Rightarrow> 'k \<Rightarrow> 'v option \<Rightarrow> ('k, 'v) cache_map \<times> 'v option" where
  "get_or_insert c k v =
     (case cache_get c k of
        Some x \<Rightarrow> (c, Some x)
      | None \<Rightarrow> (case v of Some x \<Rightarrow> (fst (cache_insert c k x), Some x) | None \<Rightarrow> (c, None)))"

record conda_world = conda_context +
  cw_metadata :: "path \<Rightarrow> metadata_result"

definition world_disk :: "conda_world \<Rightarrow> disk" where
  "world_disk w = \<lparr>dk_fs = cx_fs w, dk_metadata = cw_metadata w\<rparr>"

abbreviation world_context :: "conda_world \<Rightarrow> conda_context" where
  "world_context w \<equiv> conda_context.truncate w"

definition world_manager :: "conda_world \<Rightarrow> path \<Rightarrow> conda_manager option" where
  "world_manager w dir = conda_manager_from (cx_meta w) (cx_fs w) dir"

section \<open>Identifying an environment\<close>

definition conda_env_prefix :: "file_system \<Rightarrow> python_env \<Rightarrow> path option" where
  "conda_env_prefix fs env =
     or_else (pe_prefix env)
       (Option.bind (parent (pe_executable env)) (\<lambda>d.
          if is_conda_env fs d then Some d
          else if path_ends_with d ''bin'' \<or> path_ends_with d ''Scripts''
          then Option.bind (parent d) (\<lambda>q. if is_conda_env fs q then Some q else None)
          else None))"

definition conda_get_manager :: "conda_world \<Rightarrow> path \<Rightarrow> conda \<Rightarrow> conda \<times> conda_manager option" where
  "conda_get_manager w dir co =
     (let (ms, m) = get_or_insert (co_managers co) (components dir) (world_manager w dir)
      in (co\<lparr>co_managers := ms\<rparr>, m))"

definition conda_details_of :: "conda_world \<Rightarrow> path \<Rightarrow> conda \<Rightarrow> conda \<times> conda_details option" where
  "conda_details_of w p co =
     (let (ic, d) = get_environment_details (cx_meta w) (world_disk w) p (co_info_cache co)
      in (co\<lparr>co_info_cache := ic\<rparr>, d))"

definition conda_insert_env :: "path \<Rightarrow> python_environment \<Rightarrow> conda \<Rightarrow> conda" where
  "conda_insert_env p e co = co\<lparr>co_environments := fst (cache_insert (co_environments co) (components p) e)\<rparr>"

definition conda_try_from :: "conda_world \<Rightarrow> python_env \<Rightarrow> conda \<Rightarrow> conda \<times> python_environment option" where
  "conda_try_from w env co =
     (case conda_env_prefix (cx_fs w) env of
        None \<Rightarrow> (co, None)
      | Some p \<Rightarrow>
          if \<not> is_conda_env (cx_fs w) p then (co, None)
          else (case cache_get (co_environments co) (components p) of
                  Some e \<Rightarrow> (co, Some e)
                | None \<Rightarrow>
                    (case conda_details_of w p co of
                       (co1, None) \<Rightarrow> (co1, None)
                     | (co1, Some d) \<Rightarrow>
                         (case cd_conda_dir d of
                            None \<Rightarrow> (conda_insert_env p (cd_environment d) co1, Some (cd_environment d))
                          | Some dir \<Rightarrow>
                              (case conda_get_manager w dir co1 of
                                 (co2, m) \<Rightarrow>
                                   let e = (case m of Some m \<Rightarrow> (cd_environment d)\<lparr>manager := Some (conda_to_manager m)\<rparr>
                                                     | None \<Rightarrow> cd_environment d)
                                   in (conda_insert_env p e co2, Some e))))))"

section \<open>Finding environments\<close>

text \<open>The \<open>mamba\<close> of an installation is reported by the call that puts it into the cache.\<close>

definition conda_mamba :: "conda_world \<Rightarrow> path \<Rightarrow> conda \<Rightarrow> conda \<times> notification list" where
  "conda_mamba w dir co =
     (let found = get_mamba_manager (cx_fs w) dir
      in if cache_contains_key (co_mamba_managers co) (components dir) then (co, [])
         else (co\<lparr>co_mamba_managers := fst (get_or_insert (co_mamba_managers co) (components dir) found)\<rparr>,
               map (ManagerNote \<circ> conda_to_manager) (to_list found)))"

definition conda_find_path :: "conda_world \<Rightarrow> path \<Rightarrow> conda \<Rightarrow> conda \<times> notification list" where
  "conda_find_path w p co =
     (case conda_details_of w p co of
        (co1, None) \<Rightarrow> (co1, [])
      | (co1, Some d) \<Rightarrow>
          (case cd_conda_dir d of
             None \<Rightarrow> (conda_insert_env p (cd_environment d) co1, [EnvironmentNote (cd_environment d)])
           | Some dir \<Rightarrow>
               if cache_contains_key (co_environments co1) (components p) then (co1, [])
               else (case conda_get_manager w dir co1 of
                       (co2, Some m) \<Rightarrow>
                         let e = (cd_environment d)\<lparr>manager := Some (conda_to_manager m)\<rparr>;
                             (co3, notes) = conda_mamba w dir (conda_insert_env p e co2)
                         in (co3, [ManagerNote (conda_to_manager m), EnvironmentNote e] @ notes)
                     | (co2, None) \<Rightarrow>
                         (conda_insert_env p (cd_environment d) co2, [EnvironmentNote (cd_environment d)]))))"

fun conda_find_paths :: "conda_world \<Rightarrow> path list \<Rightarrow> conda \<Rightarrow> conda \<times> notification list" where
  "conda_find_paths w [] co = (co, [])"
| "conda_find_paths w (p # ps) co =
     (let (co1, ns1) = conda_find_path w p co; (co2, ns2) = conda_find_paths w ps co1 in (co2, ns1 @ ns2))"

definition conda_find_mamba :: "conda_world \<Rightarrow> conda \<Rightarrow> conda \<times> notification list" where
  "conda_find_mamba w co =
     (case co_conda_executable co of
        None \<Rightarrow> (co, [])
      | Some exe \<Rightarrow>
          if is_mamba_executable exe
          then (case get_conda_dir_from_exe (cx_fs w) (Some exe) of
                  None \<Rightarrow> (co, [])
                | Some dir \<Rightarrow>
                    (case get_mamba_manager (cx_fs w) dir of
                       None \<Rightarrow> (co, [])
                     | Some m \<Rightarrow>
                         (co\<lparr>co_mamba_managers := fst (cache_insert (co_mamba_managers co) (components dir) m)\<rparr>,
                          [ManagerNote (conda_to_manager m)])))
          else (co, []))"

definition conda_find :: "conda_world \<Rightarrow> conda \<Rightarrow> (conda \<times> notification list) outcome" where
  "conda_find w co =
     (let (co1, ns1) = conda_find_mamba w (conda_clear co)
      in and_then (get_conda_environment_paths (world_context w) (co_conda_executable co)) (\<lambda>ps.
           let (co2, ns2) = conda_find_paths w ps co1
           in Ret (co2\<lparr>co_info_cache := co_info_cache co2 |` ((components \<circ> norm_case) ` set ps)\<rparr>, ns1 @ ns2)))"

fun conda_report_envs :: "conda_world \<Rightarrow> conda_manager \<Rightarrow> conda_environment list \<Rightarrow> conda \<Rightarrow> conda \<times> notification list" where
  "conda_report_envs w mgr [] co = (co, [])"
| "conda_report_envs w mgr (ce # ces) co =
     (if cache_contains_key (co_environments co) (components (ce_prefix ce)) then conda_report_envs w mgr ces co
      else let m = unwrap_or (Option.bind (ce_conda_dir ce) (world_manager w)) mgr;
               e = to_python_environment (cx_fs w) (Some (conda_to_manager m)) ce;
               (co', ns) = conda_report_envs w mgr ces (conda_insert_env (ce_prefix ce) e co)
           in (co', [ManagerNote (conda_to_manager m), EnvironmentNote e] @ ns))"

definition conda_find_and_report :: "conda_world \<Rightarrow> path \<Rightarrow> conda \<Rightarrow> (conda \<times> notification list) outcome" where
  "conda_find_and_report w conda_dir co =
     (if \<not> is_conda_install (cx_fs w) conda_dir then Ret (co, [])
      else case world_manager w conda_dir of
             None \<Rightarrow> Ret (co, [])
           | Some m \<Rightarrow>
               (case cm_conda_dir m of
                  None \<Rightarrow> Ret (co, [])
                | Some dir \<Rightarrow>
                    let co1 = co\<lparr>co_managers := fst (cache_insert (co_managers co) (components dir) m)\<rparr>;
                        (co2, ns2) = conda_mamba w dir co1
                    in and_then (get_environments (world_context w) dir) (\<lambda>ps.
                         let ces = List.map_filter (\<lambda>p. get_conda_environment_info (cx_meta w) (cx_fs w) p (Some m)) ps;
                             (co3, ns3) = conda_report_envs w m ces co2
                         in Ret (co3, ns2 @ ns3))))"

section \<open>What a search finds\<close>

text \<open>The specification: the environment of a path as the disk has it, with the manager of the
  installation it belongs to.\<close>

definition conda_env_of :: "conda_world \<Rightarrow> path \<Rightarrow> python_environment option" where
  "conda_env_of w p =
     map_option (\<lambda>d. case Option.bind (cd_conda_dir d) (world_manager w) of
                       Some m \<Rightarrow> (cd_environment d)\<lparr>manager := Some (conda_to_manager m)\<rparr>
                     | None \<Rightarrow> cd_environment d)
       (load_environment_details (cx_meta w) (cx_fs w) p)"

definition env_notes :: "notification list \<Rightarrow> python_environment list" where
  "env_notes ns = List.map_filter (\<lambda>n. case n of EnvironmentNote e \<Rightarrow> Some e | ManagerNote m \<Rightarrow> None) ns"

definition conda_dirs :: "conda_world \<Rightarrow> path list \<Rightarrow> path set" where
  "conda_dirs w ps =
     {dir. \<exists>p \<in> set ps. \<exists>d. load_environment_details (cx_meta w) (cx_fs w) p = Some d \<and> cd_conda_dir d = Some dir}"

text \<open>What is cached of the paths is what the disk has.\<close>

definition info_fresh :: "conda_world \<Rightarrow> path list \<Rightarrow> info_cache \<Rightarrow> bool" where
  "info_fresh w ps ic \<longleftrightarrow>
     (\<forall>p \<in> set ps. \<forall>d. cached_details ic p (fingerprint_from_prefix (cw_metadata w) p) = Some d
        \<longrightarrow> load_environment_details (cx_meta w) (cx_fs w) p = Some d)"

definition managers_fresh :: "conda_world \<Rightarrow> path list \<Rightarrow> (component list, conda_manager) cache_map \<Rightarrow> bool" where
  "managers_fresh w ps ms \<longleftrightarrow>
     (\<forall>dir \<in> conda_dirs w ps. \<forall>m. ms (components dir) = Some m \<longrightarrow> world_manager w dir = Some m)"

lemma env_notes_simps [simp]:
  "env_notes [] = []" "env_notes (ManagerNote m # ns) = env_notes ns" "env_notes (EnvironmentNote e # ns) = e # env_notes ns"
  "env_notes (as @ bs) = env_notes as @ env_notes bs" "env_notes (map (ManagerNote \<circ> f) xs) = []"
  by (simp_all add: env_notes_def List.map_filter_def)

lemma get_or_insert_managers:
  assumes "managers_fresh w ps ms" "dir \<in> conda_dirs w ps" "inj_on components (conda_dirs w ps)"
  shows "snd (get_or_insert ms (components dir) (world_manager w dir)) = world_manager w dir"
    and "managers_fresh w ps (fst (get_or_insert ms (components dir) (world_manager w dir)))"
  using assms
  by (auto simp: get_or_insert_def cache_get_def cache_insert_def managers_fresh_def dest: inj_onD split: option.splits)

lemma conda_details_of_spec:
  assumes "info_fresh w (p # ps) (co_info_cache co)" "distinct (map components (p # ps))"
  shows "\<exists>ic. conda_details_of w p co = (co\<lparr>co_info_cache := ic\<rparr>, load_environment_details (cx_meta w) (cx_fs w) p)
     \<and> info_fresh w ps ic"
proof -
  let ?fp = "fingerprint_from_prefix (cw_metadata w) p"
  let ?r = "get_environment_details (cx_meta w) (world_disk w) p (co_info_cache co)"
  have other: "fst ?r (components q) = co_info_cache co (components q)" if "q \<in> set ps" for q
  proof -
    have "components q \<noteq> components p" using that assms(2) by (auto simp: image_iff)
    then show ?thesis
      by (auto simp: get_environment_details_def store_details_def norm_case_def Let_def split: option.splits)
  qed
  have "info_fresh w ps (fst ?r)"
    using assms(1) other by (simp add: info_fresh_def cached_details_def norm_case_def)
  moreover have "snd ?r = load_environment_details (cx_meta w) (cx_fs w) p"
    using assms(1) by (auto simp: get_environment_details_def info_fresh_def world_disk_def Let_def split: option.splits)
  ultimately show ?thesis by (auto simp: conda_details_of_def split: prod.splits)
qed

lemma conda_find_path_spec:
  assumes fresh: "info_fresh w (p # ps) (co_info_cache co)" "managers_fresh w all (co_managers co)"
    and dist: "distinct (map components (p # ps))" and all: "p \<in> set all" "inj_on components (conda_dirs w all)"
    and unknown: "co_environments co (components p) = None"
  shows "\<exists>co' ns. conda_find_path w p co = (co', ns) \<and> env_notes ns = to_list (conda_env_of w p)
     \<and> co_environments co' = (co_environments co)(components p := conda_env_of w p)
     \<and> info_fresh w ps (co_info_cache co') \<and> managers_fresh w all (co_managers co')"
proof -
  let ?load = "load_environment_details (cx_meta w) (cx_fs w) p"
  obtain ic where ic: "conda_details_of w p co = (co\<lparr>co_info_cache := ic\<rparr>, ?load)" "info_fresh w ps ic"
    using conda_details_of_spec [OF fresh(1) dist] by blast
  show ?thesis
  proof (cases "Option.bind ?load cd_conda_dir")
    case None
    with ic fresh(2) unknown show ?thesis
      by (cases ?load)
        (auto simp: conda_find_path_def conda_env_of_def conda_insert_env_def cache_insert_def fun_upd_idem)
  next
    case (Some dir)
    then obtain d where d: "?load = Some d" "cd_conda_dir d = Some dir" by (auto simp: bind_eq_Some_conv)
    with all(1) have "dir \<in> conda_dirs w all" by (auto simp: conda_dirs_def)
    note mgr = get_or_insert_managers [OF fresh(2) this all(2)]
    obtain ms where ms: "get_or_insert (co_managers co) (components dir) (world_manager w dir) = (ms, world_manager w dir)"
      "managers_fresh w all ms"
      using mgr by (cases "get_or_insert (co_managers co) (components dir) (world_manager w dir)") simp
    with ic d unknown show ?thesis
      by (cases "world_manager w dir")
        (auto simp: conda_find_path_def conda_env_of_def conda_get_manager_def conda_insert_env_def cache_insert_def
          cache_contains_key_def conda_mamba_def Let_def)
  qed
qed

lemma conda_find_paths_spec:
  assumes "info_fresh w ps (co_info_cache co)" "managers_fresh w all (co_managers co)"
    and "distinct (map components ps)" "set ps \<subseteq> set all" "inj_on components (conda_dirs w all)"
    and "\<forall>p \<in> set ps. co_environments co (components p) = None"
  shows "\<exists>co' ns. conda_find_paths w ps co = (co', ns) \<and> env_notes ns = List.map_filter (conda_env_of w) ps
     \<and> (\<forall>p \<in> set ps. co_environments co' (components p) = conda_env_of w p)
     \<and> (\<forall>k. k \<notin> components ` set ps \<longrightarrow> co_environments co' k = co_environments co k)"
  using assms
proof (induction ps arbitrary: co)
  case (Cons p ps)
  obtain co1 ns1 where 1: "conda_find_path w p co = (co1, ns1)" "env_notes ns1 = to_list (conda_env_of w p)"
    "co_environments co1 = (co_environments co)(components p := conda_env_of w p)"
    "info_fresh w ps (co_info_cache co1)" "managers_fresh w all (co_managers co1)"
    using conda_find_path_spec [OF Cons.prems(1-3)] Cons.prems(4-6) by auto
  have other: "\<forall>q \<in> set ps. components q \<noteq> components p" using Cons.prems(3) by (auto simp: image_iff)
  with 1(3) Cons.prems(6) have "\<forall>q \<in> set ps. co_environments co1 (components q) = None" by simp
  with Cons.IH [OF 1(4,5)] Cons.prems(3-5) obtain co2 ns2 where
    2: "conda_find_paths w ps co1 = (co2, ns2)" "env_notes ns2 = List.map_filter (conda_env_of w) ps"
    "\<forall>p \<in> set ps. co_environments co2 (components p) = conda_env_of w p"
    "\<forall>k. k \<notin> components ` set ps \<longrightarrow> co_environments co2 k = co_environments co1 k"
    by auto
  have "components p \<notin> components ` set ps" using Cons.prems(3) by simp
  with 2(4) 1(3) have "co_environments co2 (components p) = conda_env_of w p" by simp
  with 1 2 show ?case by (cases "conda_env_of w p") (auto simp: List.map_filter_def)
qed (simp add: List.map_filter_def)

lemma conda_find_mamba_frame:
  assumes "conda_find_mamba w co = (co', ns)"
  shows "co_environments co' = co_environments co" "co_managers co' = co_managers co"
    "co_info_cache co' = co_info_cache co" "env_notes ns = []"
  using assms by (auto simp: conda_find_mamba_def split: option.split_asm if_split_asm)

section \<open>Properties\<close>


text \<open>A world with one environment, \<open>/a\<close>, that belongs to no installation.\<close>

definition lone_conda_world :: conda_world where
  "lone_conda_world =
     \<lparr>cx_os = OtherUnix, cx_vars = map_of [(''HOME'', ''/h'')],
      cx_fs = (plain_fs [''/h/.conda/environments.txt''] [''/a'', ''/a/conda-meta''])
        \<lparr>read_to_string := map_of [(''/h/.conda/environments.txt'', ''/a'')]\<rparr>,
      cx_yaml = (\<lambda>_. None), cx_meta = (\<lambda>_. None), cx_env = conda_vars_from [] (map_of [(''HOME'', ''/h'')]),
      cw_metadata = (\<lambda>_. MetaNotFound)\<rparr>"

lemma lone_no_install: "\<not> is_conda_install (cx_fs lone_conda_world) p"
proof -
  have "components ''/h/.conda/environments.txt'' = [RootDir, Normal ''h'', Normal ''.conda'', Normal ''environments.txt'']"
    "components ''/a'' = [RootDir, Normal ''a'']" "components ''/a/conda-meta'' = [RootDir, Normal ''a'', Normal ''conda-meta'']"
    by code_simp+
  then show ?thesis
    by (simp add: is_conda_install_def has_conda_root_def lone_conda_world_def plain_fs_def path_contains_iff
      components_join literal_names)
qed

lemma lone_no_conda_dirs: "conda_dirs lone_conda_world ps = {}"
proof -
  have "get_conda_installation_from_creation_line (cx_fs lone_conda_world) p line = None" for p line
    using lone_no_install
    by (auto simp: get_conda_installation_from_creation_line_def or_else_def Let_def split: option.splits)
  then show ?thesis
    by (auto simp: conda_dirs_def load_environment_details_def get_conda_environment_info_def or_else_def Let_def)
qed


end
