(* ===== verification/Toml_Data.thy ===== *)
theory Toml_Data
  imports Pet_Prelude
begin

text \<open>
  Values of a parsed TOML file, as the locators read them. Parsing the text is the \<open>toml\<close> crate
  and an argument of the definitions that need it.
\<close>

datatype toml =
    TString string | TInteger int | TFloat | TBoolean bool | TDatetime | TArray "toml list"
  | TTable "(string \<times> toml) list"

type_synonym toml_parser = "string \<Rightarrow> toml option"

text \<open>\<open>Value::get\<close> with a key, \<open>Value::as_str\<close> and \<open>Value::as_bool\<close>.\<close>

fun toml_get :: "string \<Rightarrow> toml \<Rightarrow> toml option" where
  "toml_get k (TTable fs) = map_of fs k"
| "toml_get k _ = None"

fun toml_str :: "toml \<Rightarrow> string option" where
  "toml_str (TString s) = Some s"
| "toml_str _ = None"

fun toml_bool :: "toml \<Rightarrow> bool option" where
  "toml_bool (TBoolean b) = Some b"
| "toml_bool _ = None"

fun toml_array :: "toml \<Rightarrow> toml list option" where
  "toml_array (TArray xs) = Some xs"
| "toml_array _ = None"

fun toml_table :: "toml \<Rightarrow> (string \<times> toml) list option" where
  "toml_table (TTable fs) = Some fs"
| "toml_table _ = None"

text \<open>The value at a path of keys.\<close>

fun toml_path :: "string list \<Rightarrow> toml \<Rightarrow> toml option" where
  "toml_path [] v = Some v"
| "toml_path (k # ks) v = Option.bind (toml_get k v) (toml_path ks)"

text \<open>Decoding into a structure as \<open>serde\<close> derives it: a field that is absent is \<open>Some None\<close>, a
  value of another type is an error. (An array is not taken for a structure.)\<close>

definition toml_field :: "string \<Rightarrow> (toml \<Rightarrow> 'a option) \<Rightarrow> toml \<Rightarrow> 'a option option" where
  "toml_field k decode v =
     (case v of
        TTable fs \<Rightarrow> (case map_of fs k of None \<Rightarrow> Some None | Some x \<Rightarrow> map_option Some (decode x))
      | _ \<Rightarrow> None)"

fun toml_list :: "(toml \<Rightarrow> 'a option) \<Rightarrow> toml list \<Rightarrow> 'a list option" where
  "toml_list decode [] = Some []"
| "toml_list decode (x # xs) = Option.bind (decode x) (\<lambda>y. map_option ((#) y) (toml_list decode xs))"

definition toml_strings :: "toml \<Rightarrow> string list option" where
  "toml_strings v = Option.bind (toml_array v) (toml_list toml_str)"

end
