(* ===== verification/Poetry.thy ===== *)
theory Poetry
  imports Virtual_Envs Platform_Dirs Toml_Data "HOL-Library.Product_Lexorder" "HOL-Library.Option_ord"
begin

text \<open>
  The Poetry locator, \<open>pet-poetry\<close>, in its Unix configurations: the settings
  (\<open>config.rs\<close> and \<open>env_variables.rs\<close>), the manager
  (\<open>manager.rs\<close>), project names (\<open>pyproject_toml.rs\<close>), the environments of a workspace
  (\<open>environment_locations.rs\<close>, \<open>environment.rs\<close>) and the locator with its cached search
  result (\<open>lib.rs\<close>). The SHA-256 digest in URL-safe base64 and the TOML parser are arguments.
\<close>

section \<open>Environment variables\<close>

record poetry_vars =
  pv_home :: "path option"
  pv_virtualenvs_path :: "path option"
  pv_poetry_home :: "path option"
  pv_config_dir :: "path option"
  pv_cache_dir :: "path option"
  pv_in_project :: "bool option"
  pv_path :: "string option"

definition poetry_vars_from :: "path option \<Rightarrow> env_vars \<Rightarrow> poetry_vars" where
  "poetry_vars_from home vars =
     \<lparr>pv_home = home,
      pv_virtualenvs_path = vars ''POETRY_VIRTUALENVS_PATH'',
      pv_poetry_home =
        (case (home, vars ''POETRY_HOME'') of
           (Some h, Some v) \<Rightarrow> Some (if prefix ''~'' v then str_replace ''~'' h v else v)
         | _ \<Rightarrow> None),
      pv_config_dir = vars ''POETRY_CONFIG_DIR'',
      pv_cache_dir = vars ''POETRY_CACHE_DIR'',
      pv_in_project = map_option (\<lambda>v. v = ''1'' \<or> to_lowercase v = ''true'') (vars ''POETRY_VIRTUALENVS_IN_PROJECT''),
      pv_path = vars ''PATH''\<rparr>"

section \<open>Settings\<close>

record poetry_config =
  pc_in_project :: "bool option"
  pc_virtualenvs_path :: path
  pc_cache_dir :: "path option"
  pc_file :: "path option"

record config_toml =
  ct_in_project :: "bool option"
  ct_cache_dir :: "path option"
  ct_virtualenvs_path :: "path option"

definition config_parse_contents :: "toml_parser \<Rightarrow> string \<Rightarrow> config_toml option" where
  "config_parse_contents toml contents =
     map_option (\<lambda>v.
       let virtualenvs_path = map_option trim (Option.bind (toml_path [''virtualenvs'', ''path''] v) toml_str);
           in_project = Option.bind (toml_path [''virtualenvs'', ''in-project''] v) toml_bool;
           cache_dir = map_option trim (Option.bind (toml_get ''cache-dir'' v) toml_str)
       in \<lparr>ct_in_project = in_project, ct_cache_dir = cache_dir,
           ct_virtualenvs_path =
             or_else virtualenvs_path (map_option (\<lambda>d. path_join d ''virtualenvs'') cache_dir)\<rparr>)
       (toml contents)"

definition config_parse :: "toml_parser \<Rightarrow> file_system \<Rightarrow> path \<Rightarrow> config_toml option" where
  "config_parse toml fs file = Option.bind (read_to_string fs file) (config_parse_contents toml)"

text \<open>The settings read from a file system, the process environment and the variables.\<close>

definition get_cache_dir ::
  "target_os \<Rightarrow> env_vars \<Rightarrow> file_system \<Rightarrow> config_toml option \<Rightarrow> poetry_vars \<Rightarrow> path option" where
  "get_cache_dir os vars fs cfg pv =
     (case pv_cache_dir pv of
        Some d \<Rightarrow> if is_dir fs d then Some d
                  else (case Option.bind cfg ct_cache_dir of
                          Some e \<Rightarrow> if is_dir fs e then Some e else user_cache_dir os vars ''pypoetry''
                        | None \<Rightarrow> user_cache_dir os vars ''pypoetry'')
      | None \<Rightarrow> (case Option.bind cfg ct_cache_dir of
                   Some e \<Rightarrow> if is_dir fs e then Some e else user_cache_dir os vars ''pypoetry''
                 | None \<Rightarrow> user_cache_dir os vars ''pypoetry''))"

definition get_config_dir :: "target_os \<Rightarrow> env_vars \<Rightarrow> file_system \<Rightarrow> poetry_vars \<Rightarrow> path option" where
  "get_config_dir os vars fs pv =
     (case pv_config_dir pv of
        Some d \<Rightarrow> if is_dir fs d then Some d else user_config_path os vars ''pypoetry''
      | None \<Rightarrow> user_config_path os vars ''pypoetry'')"

definition find_config_file :: "target_os \<Rightarrow> env_vars \<Rightarrow> file_system \<Rightarrow> poetry_vars \<Rightarrow> path option" where
  "find_config_file os vars fs pv =
     Option.bind (get_config_dir os vars fs pv) (\<lambda>d.
       let f = path_join d ''config.toml'' in if exists fs f then Some f else None)"

text \<open>The test ignores case, the replacement does not.\<close>

definition resolve_virtualenvs_path :: "path \<Rightarrow> path option \<Rightarrow> path" where
  "resolve_virtualenvs_path p cache_dir =
     (if str_contains ''{cache-dir}'' (to_lowercase p)
      then case cache_dir of Some d \<Rightarrow> str_replace ''{cache-dir}'' d p | None \<Rightarrow> p
      else p)"

definition create_config ::
  "toml_parser \<Rightarrow> target_os \<Rightarrow> env_vars \<Rightarrow> file_system \<Rightarrow> path option \<Rightarrow> poetry_vars \<Rightarrow> poetry_config option" where
  "create_config toml os vars fs file pv =
     (let cfg = Option.bind file (config_parse toml fs);
          cache_dir = get_cache_dir os vars fs cfg pv;
          from_var = map_option (\<lambda>p. resolve_virtualenvs_path p cache_dir) (pv_virtualenvs_path pv);
          in_project = Option.bind cfg ct_in_project;
          default = map_option (\<lambda>d. \<lparr>pc_in_project = None, pc_virtualenvs_path = path_join d ''virtualenvs'',
                                     pc_cache_dir = Some d, pc_file = file\<rparr>) cache_dir
      in case Option.bind cfg ct_virtualenvs_path of
           Some p \<Rightarrow>
             Some \<lparr>pc_in_project = in_project,
                   pc_virtualenvs_path = unwrap_or from_var (resolve_virtualenvs_path p cache_dir),
                   pc_cache_dir = cache_dir, pc_file = file\<rparr>
         | None \<Rightarrow>
             (case from_var of
                Some p \<Rightarrow>
                  if exists fs p
                  then Some \<lparr>pc_in_project = in_project, pc_virtualenvs_path = p,
                             pc_cache_dir = cache_dir, pc_file = file\<rparr>
                  else default
              | None \<Rightarrow> default))"

definition find_global ::
  "toml_parser \<Rightarrow> target_os \<Rightarrow> env_vars \<Rightarrow> file_system \<Rightarrow> poetry_vars \<Rightarrow> poetry_config option" where
  "find_global toml os vars fs pv = create_config toml os vars fs (find_config_file os vars fs pv) pv"

definition find_local ::
  "toml_parser \<Rightarrow> target_os \<Rightarrow> env_vars \<Rightarrow> file_system \<Rightarrow> path \<Rightarrow> poetry_vars \<Rightarrow> poetry_config option" where
  "find_local toml os vars fs p pv =
     (let file = path_join p ''poetry.toml''
      in if is_file fs file then create_config toml os vars fs (Some file) pv else None)"

section \<open>Projects\<close>

definition is_name_separator :: "char \<Rightarrow> bool" where
  "is_name_separator c \<longleftrightarrow> c = CHR ''-'' \<or> c = CHR ''_'' \<or> c = CHR ''.''"

text \<open>Every run of separators becomes one dash.\<close>

fun collapse_separators :: "string \<Rightarrow> string" where
  "collapse_separators [] = []"
| "collapse_separators [c] = [if is_name_separator c then CHR ''-'' else c]"
| "collapse_separators (c # d # cs) =
     (if \<not> is_name_separator c then c # collapse_separators (d # cs)
      else if is_name_separator d then collapse_separators (d # cs)
      else CHR ''-'' # collapse_separators (d # cs))"

definition project_name_new :: "string \<Rightarrow> string" where
  "project_name_new name = collapse_separators (to_lowercase name)"

definition pyproject_parse_contents :: "toml_parser \<Rightarrow> string \<Rightarrow> string option" where
  "pyproject_parse_contents toml contents =
     Option.bind (toml contents) (\<lambda>v.
       map_option project_name_new
         (or_else (Option.bind (toml_path [''tool'', ''poetry'', ''name''] v) toml_str)
            (Option.bind (toml_path [''project'', ''name''] v) toml_str)))"

definition pyproject_find :: "toml_parser \<Rightarrow> file_system \<Rightarrow> path \<Rightarrow> string option" where
  "pyproject_find toml fs p =
     Option.bind (read_to_string fs (path_join p ''pyproject.toml'')) (pyproject_parse_contents toml)"

text \<open>\<open>SANITIZE_NAME\<close>: in the class of the regular expression the backslash escapes the carriage
  return that follows it.\<close>

definition sanitize_char :: "char \<Rightarrow> char" where
  "sanitize_char c = (if c \<in> set ('' $`!*@'' @ [CHR 0x22, CHR 0x0D, CHR 0x0A, CHR 0x09]) then CHR ''_'' else c)"

definition generate_env_name :: "(string \<Rightarrow> string) \<Rightarrow> string \<Rightarrow> path \<Rightarrow> string" where
  "generate_env_name digest name cwd =
     take 42 (map sanitize_char (to_lowercase name)) @ ''-'' @ take 8 (digest (norm_case cwd)) @ ''-py''"

section \<open>The manager\<close>

record poetry_manager =
  pm_executable :: path
  pm_version :: "string option"

definition extract_version_from_path :: "file_system \<Rightarrow> path \<Rightarrow> string option" where
  "extract_version_from_path fs exe =
     find_map (\<lambda>t. Option.bind (strip_prefix_str ''/Cellar/poetry/'' t) (\<lambda>v.
                 map_option (\<lambda>rest. take (length v - length rest) v) (match_triple v)))
       (tails (unwrap_or (resolve_any_symlink fs exe) exe))"

definition poetry_search_paths :: "target_os \<Rightarrow> path \<Rightarrow> poetry_vars \<Rightarrow> path list" where
  "poetry_search_paths os home pv =
     [foldl path_join home [''.poetry'', ''bin'', ''poetry''],
      foldl path_join home [''.local'', ''pipx'', ''venvs'', ''poetry'', ''bin'', ''poetry'']]
     @ (case pv_poetry_home pv of
          Some p \<Rightarrow> [foldl path_join p [''bin'', ''poetry''], foldl path_join p [''venv'', ''bin'', ''poetry'']]
        | None \<Rightarrow> [])
     @ (if os = MacOs
        then [foldl path_join home [''Library'', ''Application Support'', ''pypoetry'', ''venv'', ''bin'', ''poetry'']]
        else [foldl path_join home [''.local'', ''share'', ''pypoetry'', ''venv'', ''bin'', ''poetry'']])
     @ [foldl path_join home [''.local'', ''bin'', ''poetry'']]"

definition poetry_manager_find ::
  "target_os \<Rightarrow> file_system \<Rightarrow> path option \<Rightarrow> poetry_vars \<Rightarrow> poetry_manager option" where
  "poetry_manager_find os fs exe pv =
     (let configured = (case exe of Some e \<Rightarrow> if is_file fs e then [e] else [] | None \<Rightarrow> []);
          searched = (case pv_home pv of
                        None \<Rightarrow> []
                      | Some home \<Rightarrow>
                          poetry_search_paths os home pv
                          @ (case pv_path pv of
                               Some v \<Rightarrow> map (\<lambda>d. path_join d ''poetry'') (split_on (CHR '':'') v) | None \<Rightarrow> []))
      in map_option (\<lambda>e. \<lparr>pm_executable = e, pm_version = extract_version_from_path fs e\<rparr>)
           (List.find (is_file fs) (configured @ searched)))"

definition to_manager :: "poetry_manager \<Rightarrow> env_manager" where
  "to_manager m = \<lparr>mgr_executable = pm_executable m, mgr_version = pm_version m, mgr_tool = MgrPoetry\<rparr>"

section \<open>The environments of a workspace\<close>

definition create_poetry_env ::
  "decoder \<Rightarrow> file_system \<Rightarrow> path \<Rightarrow> path \<Rightarrow> poetry_manager option \<Rightarrow> python_environment option outcome" where
  "create_poetry_env decode fs pre project_dir mgr =
     (if \<not> exists fs pre then Ret None
      else case find_executables fs pre of
             [] \<Rightarrow> Ret None
           | exe # exes \<Rightarrow>
               and_then (from_creator_for_virtual_env decode fs pre) (\<lambda>ver.
                 Ret (Some (build (with_symlinks (Some (exe # exes)) (with_project (Some project_dir)
                   (with_manager (map_option to_manager mgr) (with_version ver (with_prefix (Some pre)
                   (with_executable (Some exe) (builder_new (Some Poetry)))))))))))) "

definition should_use_local_venv_as_poetry_env ::
  "poetry_config option \<Rightarrow> poetry_config option \<Rightarrow> poetry_vars \<Rightarrow> bool" where
  "should_use_local_venv_as_poetry_env global local pv =
     unwrap_or (or_else (Option.bind local pc_in_project)
                 (or_else (pv_in_project pv) (Option.bind global pc_in_project))) False"

definition list_all_environments_from_config :: "file_system \<Rightarrow> poetry_config \<Rightarrow> path list option" where
  "list_all_environments_from_config fs cfg =
     map_option (filter (is_dir fs)) (read_dir fs (pc_virtualenvs_path cfg))"

definition list_all_environments_from_project_config ::
  "file_system \<Rightarrow> poetry_config option \<Rightarrow> poetry_config option \<Rightarrow> path \<Rightarrow> poetry_vars \<Rightarrow> path list" where
  "list_all_environments_from_project_config fs global local p pv =
     (case local of Some c \<Rightarrow> unwrap_or (list_all_environments_from_config fs c) [] | None \<Rightarrow> [])
     @ (let venv = path_join p ''.venv''
        in if should_use_local_venv_as_poetry_env global local pv \<and> is_dir fs venv then [venv] else [])"

text \<open>Everything a search reads besides the workspace folders.\<close>

record poetry_context =
  px_os :: target_os
  px_vars :: env_vars
  px_fs :: file_system
  px_toml :: toml_parser
  px_decode :: decoder
  px_digest :: "string \<Rightarrow> string"

abbreviation px_poetry_vars :: "poetry_context \<Rightarrow> poetry_vars" where
  "px_poetry_vars px \<equiv> poetry_vars_from (map_option norm_case (px_vars px ''HOME'')) (px_vars px)"

text \<open>The directories that belong to a project, in the order in which they are tried.\<close>

definition project_env_dirs :: "poetry_context \<Rightarrow> poetry_config option \<Rightarrow> path \<Rightarrow> string \<Rightarrow> path list" where
  "project_env_dirs px global workspace_dir name =
     (let pv = px_poetry_vars px;
          global_envs = (case global of
                           Some c \<Rightarrow> unwrap_or (list_all_environments_from_config (px_fs px) c) [] | None \<Rightarrow> []);
          local = find_local (px_toml px) (px_os px) (px_vars px) (px_fs px) workspace_dir pv
      in filter (\<lambda>d. prefix (generate_env_name (px_digest px) name workspace_dir) (unwrap_or (file_name d) [])
                     \<or> prefix ''.venv'' (unwrap_or (file_name d) []))
           (list_all_environments_from_project_config (px_fs px) global local workspace_dir pv @ global_envs))"

definition list_environments ::
  "poetry_context \<Rightarrow> path list \<Rightarrow> poetry_manager option \<Rightarrow> python_environment list option outcome" where
  "list_environments px workspace_dirs mgr =
     (if workspace_dirs = [] then Ret None
      else let projects = List.map_filter (\<lambda>w. map_option (Pair w) (pyproject_find (px_toml px) (px_fs px) w)) workspace_dirs;
               global = find_global (px_toml px) (px_os px) (px_vars px) (px_fs px) (px_poetry_vars px);
               dirs = concat (map (\<lambda>(w, name). map (Pair w) (project_env_dirs px global w name)) projects)
           in and_then (map_outcome (\<lambda>(w, d). create_poetry_env (px_decode px) (px_fs px) d w mgr) dirs)
                (\<lambda>envs. Ret (Some (List.map_filter id envs))))"

section \<open>Recognising an environment by its place\<close>

definition is_hash_char :: "char \<Rightarrow> bool" where
  "is_hash_char c \<longleftrightarrow>
     is_digit c \<or> (CHR ''a'' \<le> c \<and> c \<le> CHR ''z'') \<or> (CHR ''A'' \<le> c \<and> c \<le> CHR ''Z'') \<or> c = CHR ''_'' \<or> c = CHR ''-''"

text \<open>\<open>POETRY_ENV_NAME_PATTERN\<close> is \<open>^.+-[A-Za-z0-9_-]{8}-py\d+\.\d+$\<close>; first what follows
  the first part.\<close>

definition poetry_name_rest :: "string \<Rightarrow> bool" where
  "poetry_name_rest r \<longleftrightarrow>
     (case strip_prefix_str ''-'' r of
        None \<Rightarrow> False
      | Some r1 \<Rightarrow>
          8 \<le> length r1 \<and> list_all is_hash_char (take 8 r1)
          \<and> Option.bind (strip_prefix_str ''-py'' (drop 8 r1)) (\<lambda>r2.
              Option.bind (match_digits r2) (\<lambda>r3. Option.bind (match_char (CHR ''.'') r3) match_digits)) = Some [])"

definition poetry_env_name :: "string \<Rightarrow> bool" where
  "poetry_env_name n \<longleftrightarrow>
     list_ex (\<lambda>i. CHR 0x0A \<notin> set (take i n) \<and> poetry_name_rest (drop i n)) [1..<Suc (length n)]"

fun poetry_cache_components :: "bool \<Rightarrow> string list \<Rightarrow> bool" where
  "poetry_cache_components found [] \<longleftrightarrow> False"
| "poetry_cache_components found (c # cs) \<longleftrightarrow>
     (if eq_ignore_ascii_case c ''pypoetry'' then poetry_cache_components True cs
      else (found \<and> eq_ignore_ascii_case c ''virtualenvs'') \<or> poetry_cache_components found cs)"

definition has_poetry_cache_components :: "path \<Rightarrow> bool" where
  "has_poetry_cache_components p = poetry_cache_components False (map component_text (components p))"

definition is_poetry_cache_environment :: "path \<Rightarrow> bool" where
  "is_poetry_cache_environment p \<longleftrightarrow>
     has_poetry_cache_components p \<and> (case file_name p of Some n \<Rightarrow> poetry_env_name n | None \<Rightarrow> False)"

definition is_in_project_poetry_environment :: "file_system \<Rightarrow> path \<Rightarrow> bool" where
  "is_in_project_poetry_environment fs p \<longleftrightarrow>
     unwrap_or (file_name p) [] = ''.venv'' \<and>
     (case parent p of
        None \<Rightarrow> False
      | Some d \<Rightarrow>
          is_file fs (path_join d ''poetry.toml'') \<or>
          (let f = path_join d ''pyproject.toml''
           in is_file fs f \<and>
              (case read_to_string fs f of
                 None \<Rightarrow> False
               | Some t \<Rightarrow> str_contains ''[tool.poetry]'' t \<or> str_contains ''poetry.core.masonry.api'' t
                           \<or> str_contains ''poetry-core'' t)))"

section \<open>The locator\<close>

record locator_result =
  lr_managers :: "env_manager list"
  lr_environments :: "python_environment list"

record poetry =
  po_workspace_directories :: "path list"
  po_executable :: "path option"
  po_search_result :: "locator_result option"

definition poetry_new :: poetry where
  "poetry_new = \<lparr>po_workspace_directories = [], po_executable = None, po_search_result = None\<rparr>"

definition poetry_configure :: "path list option \<Rightarrow> path option \<Rightarrow> poetry \<Rightarrow> poetry" where
  "poetry_configure workspace_dirs exe po =
     po\<lparr>po_workspace_directories := unwrap_or workspace_dirs [], po_executable := exe\<rparr>"

definition poetry_clear :: "poetry \<Rightarrow> poetry" where
  "poetry_clear po = po\<lparr>po_search_result := None\<rparr>"

definition sync_search_result_from :: "poetry \<Rightarrow> poetry \<Rightarrow> poetry" where
  "sync_search_result_from source po = po\<lparr>po_search_result := po_search_result source\<rparr>"

definition manager_sort_key :: "env_manager \<Rightarrow> component list \<times> string option \<times> string" where
  "manager_sort_key m = (components (mgr_executable m), mgr_version m, manager_debug (mgr_tool m))"

definition merge_search_result_from :: "poetry \<Rightarrow> poetry \<Rightarrow> poetry" where
  "merge_search_result_from source po =
     (case po_search_result source of
        None \<Rightarrow> po
      | Some r \<Rightarrow>
          let old = unwrap_or (po_search_result po) \<lparr>lr_managers = [], lr_environments = []\<rparr>
          in po\<lparr>po_search_result := Some
               \<lparr>lr_managers = dedup_by env_manager_eq (sort_key manager_sort_key (lr_managers old @ lr_managers r)),
                lr_environments = dedup_by environment_eq (sort_key env_sort_key (lr_environments old @ lr_environments r))\<rparr>\<rparr>)"

text \<open>An empty result is remembered, but the call that found it returns nothing.\<close>

definition poetry_find_with_cache :: "poetry_context \<Rightarrow> poetry \<Rightarrow> (poetry \<times> locator_result option) outcome" where
  "poetry_find_with_cache px po =
     (case po_search_result po of
        Some r \<Rightarrow> Ret (po, Some r)
      | None \<Rightarrow>
          let mgr = poetry_manager_find (px_os px) (px_fs px) (po_executable po) (px_poetry_vars px)
          in and_then (list_environments px (po_workspace_directories po) mgr) (\<lambda>envs.
               let r = \<lparr>lr_managers = to_list (map_option to_manager mgr), lr_environments = unwrap_or envs []\<rparr>
               in Ret (po\<lparr>po_search_result := Some r\<rparr>,
                       if lr_managers r = [] \<and> lr_environments r = [] then None else Some r)))"

definition poetry_fallback :: "poetry_context \<Rightarrow> python_env \<Rightarrow> python_environment option outcome" where
  "poetry_fallback px env =
     (case pe_prefix env of
        None \<Rightarrow> Ret None
      | Some pre \<Rightarrow>
          if is_poetry_cache_environment pre then create_poetry_env (px_decode px) (px_fs px) pre pre None
          else if is_in_project_poetry_environment (px_fs px) pre
          then create_poetry_env (px_decode px) (px_fs px) pre (unwrap_or (parent pre) pre) None
          else Ret None)"

definition knows_executable :: "path \<Rightarrow> python_environment \<Rightarrow> bool" where
  "knows_executable exe e \<longleftrightarrow> (case symlinks e of Some ls \<Rightarrow> path_contains ls exe | None \<Rightarrow> False)"

definition poetry_try_from ::
  "poetry_context \<Rightarrow> python_env \<Rightarrow> poetry \<Rightarrow> (poetry \<times> python_environment option) outcome" where
  "poetry_try_from px env po =
     (if \<not> is_virtualenv (px_fs px) env then Ret (po, None)
      else and_then (poetry_find_with_cache px po) (\<lambda>(po', r).
             case Option.bind r (\<lambda>r. List.find (knows_executable (pe_executable env)) (lr_environments r)) of
               Some e \<Rightarrow> Ret (po', Some e)
             | None \<Rightarrow> and_then (poetry_fallback px env) (\<lambda>e. Ret (po', e))))"

definition poetry_find :: "poetry_context \<Rightarrow> poetry \<Rightarrow> (poetry \<times> env_manager list \<times> python_environment list) outcome" where
  "poetry_find px po =
     and_then (poetry_find_with_cache px (poetry_clear po)) (\<lambda>(po', r).
       Ret (po', case r of Some r \<Rightarrow> (lr_managers r, lr_environments r) | None \<Rightarrow> ([], [])))"

section \<open>Recognising names\<close>

lemma match_digits_digits [simp]:
  assumes "ds \<noteq> []" "list_all is_digit ds" "rest = [] \<or> \<not> is_digit (hd rest)"
  shows "match_digits (ds @ rest) = Some rest"
proof -
  have "takeWhile is_digit (ds @ rest) = ds" "dropWhile is_digit (ds @ rest) = rest"
    using assms by (cases rest; simp add: list_all_iff takeWhile_append dropWhile_append)+
  with assms(1) show ?thesis by (simp add: match_digits_def)
qed

lemma poetry_name_rest_version:
  assumes "length h = 8" "list_all is_hash_char h"
  shows "poetry_name_rest (''-'' @ h @ ''-py'' @ show_nat ma @ ''.'' @ show_nat mi)"
proof -
  have d: "match_digits (show_nat ma @ CHR ''.'' # show_nat mi) = Some (CHR ''.'' # show_nat mi)"
    by (rule match_digits_digits) (simp_all add: is_digit_def show_nat_ne show_nat_digits)
  have e: "match_digits (show_nat mi) = Some []"
    using match_digits_digits [of "show_nat mi" "[]"] by (simp add: show_nat_ne show_nat_digits)
  show ?thesis
    using assms d e by (simp add: poetry_name_rest_def strip_prefix_str_def match_char_def)
qed

lemma poetry_env_nameI:
  assumes "a \<noteq> []" "CHR 0x0A \<notin> set a" "poetry_name_rest r"
  shows "poetry_env_name (a @ r)"
  unfolding poetry_env_name_def list_ex_iff
  using assms by (intro bexI [of _ "length a"]) (simp_all add: Suc_le_eq)

lemma sanitize_char_slash [simp]: "sanitize_char c = CHR ''/'' \<longleftrightarrow> c = CHR ''/''"
  by (auto simp: sanitize_char_def)

lemma sanitize_no_slash: 
  assumes "CHR ''/'' \<notin> set name" shows "CHR ''/'' \<notin> set (map sanitize_char (to_lowercase name))"
proof
  assume "CHR ''/'' \<in> set (map sanitize_char (to_lowercase name))"
  then obtain c where c: "c \<in> set name" "CHR ''/'' = sanitize_char (to_lower_char c)"
    by (auto simp: to_lowercase_def)
  from c(2) [symmetric] have "c = CHR ''/''" by simp
  with c(1) assms show False by simp
qed

lemma sanitize_no_newline: "CHR 0x0A \<notin> set (map sanitize_char s)"
  by (auto simp: sanitize_char_def)

lemma poetry_cache_components_append:
  "poetry_cache_components found cs \<Longrightarrow> poetry_cache_components found (cs @ ds)"
  by (induction found cs rule: poetry_cache_components.induct) auto

lemma has_poetry_cache_components_join:
  "has_poetry_cache_components d \<Longrightarrow> simple_name n \<Longrightarrow> has_poetry_cache_components (path_join d n)"
  by (simp add: has_poetry_cache_components_def components_join poetry_cache_components_append)

section \<open>The search result\<close>

definition poetry_env_ok :: "python_environment \<Rightarrow> bool" where
  "poetry_env_ok e \<longleftrightarrow> env_wf e \<and> kind e = Some Poetry \<and> executable e \<noteq> None"

definition poetry_ok :: "poetry \<Rightarrow> bool" where
  "poetry_ok po \<longleftrightarrow>
     (case po_search_result po of None \<Rightarrow> True | Some r \<Rightarrow> list_all poetry_env_ok (lr_environments r))"

lemma poetry_env_ok_build [simp]:
  "poetry_env_ok (build b) \<longleftrightarrow> kind b = Some Poetry \<and> executable b \<noteq> None"
  by (simp add: poetry_env_ok_def env_wf_build del: not_None_eq)

lemma create_poetry_env_ok: "create_poetry_env decode fs pre d mgr = Ret (Some e) \<Longrightarrow> poetry_env_ok e"
  by (auto simp: create_poetry_env_def and_then_Ret simp del: not_None_eq split: if_split_asm list.split_asm)

lemma list_environments_ok:
  assumes "list_environments px ws mgr = Ret (Some envs)" and "e \<in> set envs"
  shows "poetry_env_ok e"
proof -
  from assms obtain dirs es where
    es: "map_outcome (\<lambda>(w, d). create_poetry_env (px_decode px) (px_fs px) d w mgr) dirs = Ret es"
    and envs: "envs = List.map_filter id es"
    by (auto simp: list_environments_def Let_def and_then_Ret split: if_split_asm)
  from assms(2) envs have "Some e \<in> set es" by (auto simp: List.map_filter_def)
  with es obtain w d where "create_poetry_env (px_decode px) (px_fs px) d w mgr = Ret (Some e)"
    by (auto dest: map_outcome_member)
  then show ?thesis by (rule create_poetry_env_ok)
qed

lemma poetry_find_with_cache_ok:
  assumes "poetry_ok po" and "poetry_find_with_cache px po = Ret (po', r)"
  shows "poetry_ok po'" and "\<And>res e. r = Some res \<Longrightarrow> e \<in> set (lr_environments res) \<Longrightarrow> poetry_env_ok e"
proof -
  have "poetry_ok po' \<and> (\<forall>res. r = Some res \<longrightarrow> list_all poetry_env_ok (lr_environments res))"
  proof (cases "po_search_result po")
    case (Some res)
    with assms show ?thesis by (auto simp: poetry_find_with_cache_def poetry_ok_def split: option.split)
  next
    case None
    let ?mgr = "poetry_manager_find (px_os px) (px_fs px) (po_executable po) (px_poetry_vars px)"
    from assms(2) None obtain envs where envs: "list_environments px (po_workspace_directories po) ?mgr = Ret envs"
      and po': "po_search_result po' = Some \<lparr>lr_managers = to_list (map_option to_manager ?mgr), lr_environments = unwrap_or envs []\<rparr>"
      and r: "r = None \<or> r = po_search_result po'"
      by (auto simp: poetry_find_with_cache_def Let_def and_then_Ret split: if_split_asm)
    have "list_all poetry_env_ok (unwrap_or envs [])"
      using list_environments_ok envs by (cases envs) (auto simp: list_all_iff)
    with po' r show ?thesis by (auto simp: poetry_ok_def)
  qed
  then show "poetry_ok po'" and "\<And>res e. r = Some res \<Longrightarrow> e \<in> set (lr_environments res) \<Longrightarrow> poetry_env_ok e"
    by (auto simp: list_all_iff)
qed

lemma poetry_fallback_ok: "poetry_fallback px env = Ret (Some e) \<Longrightarrow> poetry_env_ok e"
  by (auto simp: poetry_fallback_def intro: create_poetry_env_ok split: option.split_asm if_split_asm)

lemma poetry_try_from_ok:
  assumes "poetry_ok po" and "poetry_try_from px env po = Ret (po', r)"
  shows "poetry_ok po'" and "\<And>e. r = Some e \<Longrightarrow> poetry_env_ok e"
proof -
  have "poetry_ok po' \<and> (\<forall>e. r = Some e \<longrightarrow> poetry_env_ok e)"
  proof (cases "is_virtualenv (px_fs px) env")
    case False
    with assms show ?thesis by (simp add: poetry_try_from_def)
  next
    case True
    with assms(2) obtain p res where f: "poetry_find_with_cache px po = Ret (p, res)"
      by (auto simp: poetry_try_from_def and_then_Ret)
    note ok = poetry_find_with_cache_ok [OF assms(1) f]
    show ?thesis
    proof (cases "Option.bind res (\<lambda>r. List.find (knows_executable (pe_executable env)) (lr_environments r))")
      case None
      with assms(2) True f ok poetry_fallback_ok show ?thesis
        by (auto simp: poetry_try_from_def and_then_Ret)
    next
      case (Some e)
      then obtain rr where "res = Some rr" "e \<in> set (lr_environments rr)"
        by (auto simp: bind_eq_Some_conv find_Some_iff in_set_conv_nth)
      with ok assms(2) True f Some show ?thesis by (auto simp: poetry_try_from_def)
    qed
  qed
  then show "poetry_ok po'" and "\<And>e. r = Some e \<Longrightarrow> poetry_env_ok e" by auto
qed

text \<open>The operations on the state keep the invariant.\<close>

lemma poetry_ok_operations:
  "poetry_ok poetry_new" "poetry_ok po \<Longrightarrow> poetry_ok (poetry_configure ws exe po)"
  "poetry_ok (poetry_clear po)" "poetry_ok source \<Longrightarrow> poetry_ok (sync_search_result_from source po)"
  by (simp_all add: poetry_ok_def poetry_new_def poetry_configure_def poetry_clear_def sync_search_result_from_def)

lemma poetry_ok_merge:
  assumes "poetry_ok source" "poetry_ok po"
  shows "poetry_ok (merge_search_result_from source po)"
proof (cases "po_search_result source")
  case (Some r)
  let ?old = "unwrap_or (po_search_result po) \<lparr>lr_managers = [], lr_environments = []\<rparr>"
  have "list_all poetry_env_ok (lr_environments ?old @ lr_environments r)"
    using assms Some by (cases "po_search_result po") (simp_all add: poetry_ok_def)
  then have "list_all poetry_env_ok (dedup_by environment_eq (sort_key env_sort_key (lr_environments ?old @ lr_environments r)))"
    using set_dedup_by_subset [of environment_eq "sort_key env_sort_key (lr_environments ?old @ lr_environments r)"]
    by (auto simp: list_all_iff)
  with Some show ?thesis by (simp add: merge_search_result_from_def poetry_ok_def Let_def)
qed (use assms in \<open>simp add: merge_search_result_from_def\<close>)

text \<open>Whatever the state of the cache, what the locator claims keeps the contract of a locator.\<close>

lemma poetry_building_locator:
  assumes "poetry_ok po"
  shows "building_locator (\<lambda>env. and_then (poetry_try_from px env po) (\<lambda>(_, e). Ret e)) [Poetry]"
proof -
  have "poetry_env_ok e" if "and_then (poetry_try_from px env po) (\<lambda>(_, e). Ret e) = Ret (Some e)" for env e
    using that poetry_try_from_ok(2) [OF assms] by (auto simp: and_then_Ret)
  then show ?thesis by unfold_locales (auto simp: poetry_env_ok_def)
qed

interpretation new_poetry: building_locator
  "\<lambda>env. and_then (poetry_try_from px env (poetry_configure ws exe poetry_new)) (\<lambda>(_, e). Ret e)" "[Poetry]"
  for px ws exe
  by (rule poetry_building_locator) (simp add: poetry_ok_operations)

section \<open>Properties\<close>

text \<open>C20: The environment directories that Poetry creates are recognised: the name generated for a
  project, followed by the version of the interpreter, matches the pattern for environments in the
  cache directory, and a directory of that name below a cache directory is taken for a Poetry
  environment. The digest need only begin with eight characters of the URL-safe base64 alphabet.\<close>

theorem poetry_name_recognised:
  assumes "name \<noteq> []" and "CHR ''/'' \<notin> set name"
    and "8 \<le> length (digest (norm_case cwd))" and "list_all is_hash_char (take 8 (digest (norm_case cwd)))"
    and "has_poetry_cache_components cache"
  shows "let n = generate_env_name digest name cwd @ show_nat major @ ''.'' @ show_nat minor
         in poetry_env_name n \<and> is_poetry_cache_environment (path_join cache n)"
proof -
  let ?a = "take 42 (map sanitize_char (to_lowercase name))"
  let ?h = "take 8 (digest (norm_case cwd))"
  let ?r = "''-'' @ ?h @ ''-py'' @ show_nat major @ ''.'' @ show_nat minor"
  have n: "generate_env_name digest name cwd @ show_nat major @ ''.'' @ show_nat minor = ?a @ ?r"
    by (simp add: generate_env_name_def)
  have a: "?a \<noteq> []" using assms(1) by (simp add: to_lowercase_def)
  have nl: "CHR 0x0A \<notin> set ?a" using sanitize_no_newline [of "to_lowercase name"] by (auto dest: in_set_takeD)
  have r: "poetry_name_rest ?r" by (rule poetry_name_rest_version) (use assms in simp_all)
  have ok: "poetry_env_name (?a @ ?r)" by (rule poetry_env_nameI [OF a nl r])
  have slash: "CHR ''/'' \<notin> set ?a"
    using sanitize_no_slash [OF assms(2)] by (auto dest: in_set_takeD)
  have digits: "CHR ''/'' \<notin> set (show_nat k)" for k
    using show_nat_digits [of k] by (auto simp: list_all_iff is_digit_def)
  have hash: "CHR ''/'' \<notin> set ?h" using assms(4) by (auto simp: list_all_iff is_hash_char_def is_digit_def)
  have "simple_name (?a @ ?r)"
    using a slash digits hash by (auto simp: simple_name_def append_eq_Cons_conv)
  with assms(5) ok show ?thesis
    unfolding n by (simp add: is_poetry_cache_environment_def has_poetry_cache_components_join file_name_join)
qed

theorem poetry_name_recognised_witness:
  "is_poetry_cache_environment (path_join ''/h/.cache/pypoetry/virtualenvs'' ''my-app-ABCDEFGH-py3.11'')"
proof -
  have c: "has_poetry_cache_components ''/h/.cache/pypoetry/virtualenvs''" by code_simp
  have n: "generate_env_name (\<lambda>_. ''ABCDEFGHIJ'') ''my-app'' ''/p'' @ show_nat 3 @ ''.'' @ show_nat 11 = ''my-app-ABCDEFGH-py3.11''"
    by code_simp
  show ?thesis
    using poetry_name_recognised [of "''my-app''" "\<lambda>_. ''ABCDEFGHIJ''" "''/p''" _ 3 11, OF _ _ _ _ c] n
    by (simp add: is_hash_char_def is_digit_def less_eq_char_def Let_def)
qed

text \<open>The setting \<open>virtualenvs.in-project\<close> of a project's \<open>poetry.toml\<close> has no effect unless the
  file also sets \<open>virtualenvs.path\<close> or \<open>cache-dir\<close> (or the variable names an existing directory):
  whether \<open>.venv\<close> is used is then decided by the environment variable and the global settings.\<close>

theorem poetry_in_project_ignored:
  assumes "is_file fs (path_join p ''poetry.toml'')"
    and "config_parse toml fs (path_join p ''poetry.toml'') = Some cfg"
    and "ct_virtualenvs_path cfg = None" and "pv_virtualenvs_path pv = None"
  shows "should_use_local_venv_as_poetry_env global (find_local toml os vars fs p pv) pv =
         unwrap_or (or_else (pv_in_project pv) (Option.bind global pc_in_project)) False"
proof -
  have "Option.bind (find_local toml os vars fs p pv) pc_in_project = None"
    using assms by (cases "get_cache_dir os vars fs (Some cfg) pv") (simp_all add: find_local_def create_config_def Let_def)
  then show ?thesis by (simp add: should_use_local_venv_as_poetry_env_def or_else_def)
qed

theorem poetry_in_project_ignored_witness:
  "\<not> should_use_local_venv_as_poetry_env None
      (find_local (\<lambda>_. Some (TTable [(''virtualenvs'', TTable [(''in-project'', TBoolean True)])])) OtherUnix
         (\<lambda>_. None) (text_fs [(''/p/poetry.toml'', ''[virtualenvs]'')]) ''/p'' (poetry_vars_from None (\<lambda>_. None)))
      (poetry_vars_from None (\<lambda>_. None))"
proof -
  let ?toml = "\<lambda>_. Some (TTable [(''virtualenvs'', TTable [(''in-project'', TBoolean True)])])"
  let ?fs = "text_fs [(''/p/poetry.toml'', ''[virtualenvs]'')]"
  have f: "is_file ?fs (path_join ''/p'' ''poetry.toml'')" by code_simp
  have c: "config_parse ?toml ?fs (path_join ''/p'' ''poetry.toml'') =
      Some \<lparr>ct_in_project = Some True, ct_cache_dir = None, ct_virtualenvs_path = None\<rparr>" by code_simp
  show ?thesis
    using poetry_in_project_ignored [OF f c, of "poetry_vars_from None (\<lambda>_. None)" None OtherUnix "\<lambda>_. None"]
    by (simp add: poetry_vars_from_def or_else_def)
qed


definition sample_poetry_env :: "string \<Rightarrow> python_environment" where
  "sample_poetry_env v = env_default\<lparr>executable := Some ''/v/bin/python'', env_prefix := Some ''/v'',
     version := Some v, symlinks := Some [''/v/bin/python'']\<rparr>"

definition sample_poetry :: "string \<Rightarrow> poetry" where
  "sample_poetry v =
     poetry_new\<lparr>po_search_result := Some \<lparr>lr_managers = [], lr_environments = [sample_poetry_env v]\<rparr>\<rparr>"


end
