(* ===== verification/Refresh_Sync.thy ===== *)
theory Refresh_Sync
  imports Conda Poetry
begin

text \<open>
  The end of a refresh, \<open>sync_refresh_locator_state\<close> of \<open>pet/src/jsonrpc.rs\<close>: what the transient
  locators of a refresh have found is handed to the long-lived ones, according to the scope of the
  refresh and only if no newer configuration has been published. Each locator with state to hand over
  implements \<open>sync_refresh_state_from\<close>; the contract these share is a locale. The cache of Conda
  details is one object that both locators refer to, so it takes no part.
\<close>

section \<open>Scopes\<close>

datatype sync_scope = SyncFull | SyncGlobalFiltered environment_kind | SyncWorkspace

fun refresh_state_sync_scope :: "search_scope option \<Rightarrow> sync_scope" where
  "refresh_state_sync_scope (Some ScopeWorkspace) = SyncWorkspace"
| "refresh_state_sync_scope (Some (ScopeGlobal k)) = SyncGlobalFiltered k"
| "refresh_state_sync_scope None = SyncFull"

datatype persistence = Stateless | ConfiguredOnly | SelfHydratingCache | SyncedDiscoveryState

section \<open>The locators with state to hand over\<close>

definition conda_sync :: "sync_scope \<Rightarrow> conda \<Rightarrow> conda \<Rightarrow> conda" where
  "conda_sync scope source co =
     (case scope of
        SyncFull \<Rightarrow>
          co\<lparr>co_environments := cache_clear (co_environments co) ++ co_environments source,
             co_managers := cache_clear (co_managers co) ++ co_managers source,
             co_mamba_managers := cache_clear (co_mamba_managers co) ++ co_mamba_managers source\<rparr>
      | SyncGlobalFiltered k \<Rightarrow>
          if k \<in> set [environment_kind.Conda]
          then co\<lparr>co_environments := co_environments co ++ co_environments source,
                  co_managers := co_managers co ++ co_managers source,
                  co_mamba_managers := co_mamba_managers co ++ co_mamba_managers source\<rparr>
          else co
      | SyncWorkspace \<Rightarrow> co)"

definition poetry_sync :: "sync_scope \<Rightarrow> poetry \<Rightarrow> poetry \<Rightarrow> poetry" where
  "poetry_sync scope source po =
     (case scope of
        SyncFull \<Rightarrow> sync_search_result_from source po
      | SyncGlobalFiltered k \<Rightarrow>
          if k \<in> set [environment_kind.Poetry] then sync_search_result_from source po else po
      | SyncWorkspace \<Rightarrow> merge_search_result_from source po)"

text \<open>The three Windows locators replace one cached value.\<close>

definition replace_sync :: "environment_kind list \<Rightarrow> sync_scope \<Rightarrow> 'a \<Rightarrow> 'a \<Rightarrow> 'a" where
  "replace_sync supported scope source target =
     (case scope of
        SyncFull \<Rightarrow> source
      | SyncGlobalFiltered k \<Rightarrow> if k \<in> set supported then source else target
      | SyncWorkspace \<Rightarrow> target)"

record cached_registry_walk =
  rw_result :: locator_result
  rw_conda_install_dirs :: "path list"

record cached_store_environment =
  cse_environment :: python_environment
  cse_normalized_symlinks :: "path list"

datatype locator_state =
    CondaState conda
  | PoetryState poetry
  | RegistryState "cached_registry_walk option"
  | StoreState "cached_store_environment list option"
  | WinPythonState "python_environment list option"
  | OtherState locator_kind

fun state_kind :: "locator_state \<Rightarrow> locator_kind" where
  "state_kind (CondaState _) = LConda"
| "state_kind (PoetryState _) = LPoetry"
| "state_kind (RegistryState _) = LWindowsRegistry"
| "state_kind (StoreState _) = LWindowsStore"
| "state_kind (WinPythonState _) = LWinPython"
| "state_kind (OtherState k) = k"

fun synced_categories :: "locator_state \<Rightarrow> environment_kind list" where
  "synced_categories (CondaState _) = [environment_kind.Conda]"
| "synced_categories (PoetryState _) = [environment_kind.Poetry]"
| "synced_categories (RegistryState _) = [WindowsRegistry, environment_kind.Conda]"
| "synced_categories (StoreState _) = [WindowsStore]"
| "synced_categories (WinPythonState _) = [WinPython]"
| "synced_categories (OtherState _) = []"

fun refresh_state :: "locator_kind \<Rightarrow> persistence" where
  "refresh_state LConda = SyncedDiscoveryState"
| "refresh_state LPoetry = SyncedDiscoveryState"
| "refresh_state LWindowsRegistry = SyncedDiscoveryState"
| "refresh_state LWindowsStore = SyncedDiscoveryState"
| "refresh_state LWinPython = SyncedDiscoveryState"
| "refresh_state LHatch = ConfiguredOnly"
| "refresh_state LPipEnv = ConfiguredOnly"
| "refresh_state LUv = ConfiguredOnly"
| "refresh_state LLinuxGlobal = SelfHydratingCache"
| "refresh_state LPyEnv = SelfHydratingCache"
| "refresh_state _ = Stateless"

text \<open>\<open>sync_refresh_state_from\<close>: a source of another type makes the downcast panic.\<close>

fun locator_sync :: "sync_scope \<Rightarrow> locator_state \<Rightarrow> locator_state \<Rightarrow> locator_state outcome" where
  "locator_sync scope (CondaState t) (CondaState s) = Ret (CondaState (conda_sync scope s t))"
| "locator_sync scope (PoetryState t) (PoetryState s) = Ret (PoetryState (poetry_sync scope s t))"
| "locator_sync scope (RegistryState t) (RegistryState s) =
     Ret (RegistryState (replace_sync [WindowsRegistry, environment_kind.Conda] scope s t))"
| "locator_sync scope (StoreState t) (StoreState s) = Ret (StoreState (replace_sync [WindowsStore] scope s t))"
| "locator_sync scope (WinPythonState t) (WinPythonState s) = Ret (WinPythonState (replace_sync [WinPython] scope s t))"
| "locator_sync scope (OtherState k) _ = Ret (OtherState k)"
| "locator_sync scope _ _ = Panic ''attempted to sync state from another locator''"

section \<open>The two graphs of locators\<close>

text \<open>The loop; a panic leaves the locators before it synced.\<close>

fun sync_loop :: "sync_scope \<Rightarrow> locator_state list \<Rightarrow> locator_state list \<Rightarrow> locator_state list \<times> string option" where
  "sync_loop scope (t # ts) (s # ss) =
     (if state_kind t \<noteq> state_kind s then (t # ts, Some ''refresh locator order drifted'')
      else case locator_sync scope t s of
             Panic m \<Rightarrow> (t # ts, Some m)
           | Ret t' \<Rightarrow> let (ts', m) = sync_loop scope ts ss in (t' # ts', m))"
| "sync_loop scope ts _ = (ts, None)"

definition sync_refresh_locator_state ::
  "locator_state list \<Rightarrow> locator_state list \<Rightarrow> search_scope option \<Rightarrow> locator_state list \<times> string option" where
  "sync_refresh_locator_state targets sources scope =
     (if length targets \<noteq> length sources then (targets, Some ''refresh locator graphs drifted'')
      else sync_loop (refresh_state_sync_scope scope) targets sources)"

text \<open>The result is the generation found instead, or what the synchronisation did.\<close>

definition sync_refresh_locator_state_if_current ::
  "configuration_state \<Rightarrow> generation \<Rightarrow> locator_state list \<Rightarrow> locator_state list \<Rightarrow> search_scope option
   \<Rightarrow> locator_state list \<times> (generation + string option)" where
  "sync_refresh_locator_state_if_current conf refresh_generation targets sources scope =
     (if generation conf \<noteq> refresh_generation then (targets, Inl (generation conf))
      else let (ts, m) = sync_refresh_locator_state targets sources scope in (ts, Inr m))"

section \<open>The contract\<close>

locale synced_state =
  fixes sync :: "sync_scope \<Rightarrow> 's \<Rightarrow> 's \<Rightarrow> 's"
    and discovery :: "'s \<Rightarrow> 'd" and settings :: "'s \<Rightarrow> 'c" and supported :: "environment_kind list"
  assumes sync_full: "discovery (sync SyncFull source target) = discovery source"
    and sync_settings: "settings (sync scope source target) = settings target"
    and sync_unsupported: "k \<notin> set supported \<Longrightarrow> sync (SyncGlobalFiltered k) source target = target"
begin

text \<open>A full refresh makes what earlier refreshes have handed over irrelevant.\<close>

lemma full_forgets:
  "discovery (sync SyncFull b (sync scope a target)) = discovery (sync SyncFull b target)"
  by (simp add: sync_full)

end

locale global_state = synced_state +
  assumes sync_workspace: "sync SyncWorkspace source target = target"

definition conda_discovery where
  "conda_discovery co = (co_environments co, co_managers co, co_mamba_managers co)"

definition conda_settings where
  "conda_settings co = (co_conda_executable co, co_info_cache co)"

definition poetry_settings where
  "poetry_settings po = (po_workspace_directories po, po_executable po)"

interpretation conda_state: global_state conda_sync conda_discovery conda_settings "[environment_kind.Conda]"
  by unfold_locales
    (auto simp: conda_sync_def conda_discovery_def conda_settings_def cache_clear_def split: sync_scope.split)

interpretation poetry_state: synced_state poetry_sync po_search_result poetry_settings "[environment_kind.Poetry]"
  by unfold_locales
    (auto simp: poetry_sync_def poetry_settings_def sync_search_result_from_def merge_search_result_from_def Let_def
      split: sync_scope.split option.split)

interpretation replaced_state: global_state "replace_sync supported" "\<lambda>s. s" "\<lambda>s. ()" supported
  for supported
  by unfold_locales (auto simp: replace_sync_def)

text \<open>What a locator has discovered, and what it was configured with.\<close>

datatype discovered =
    CondaFound "(component list \<rightharpoonup> python_environment) \<times> (component list \<rightharpoonup> conda_manager) \<times> (component list \<rightharpoonup> conda_manager)"
  | PoetryFound "locator_result option"
  | RegistryFound "cached_registry_walk option"
  | StoreFound "cached_store_environment list option"
  | WinPythonFound "python_environment list option"
  | NothingFound

fun discovery_of :: "locator_state \<Rightarrow> discovered" where
  "discovery_of (CondaState co) = CondaFound (conda_discovery co)"
| "discovery_of (PoetryState po) = PoetryFound (po_search_result po)"
| "discovery_of (RegistryState w) = RegistryFound w"
| "discovery_of (StoreState es) = StoreFound es"
| "discovery_of (WinPythonState es) = WinPythonFound es"
| "discovery_of (OtherState k) = NothingFound"

datatype configured =
    CondaSettings "path option \<times> info_cache"
  | PoetrySettings "path list \<times> path option"
  | NoSettings locator_kind

fun settings_of :: "locator_state \<Rightarrow> configured" where
  "settings_of (CondaState co) = CondaSettings (conda_settings co)"
| "settings_of (PoetryState po) = PoetrySettings (poetry_settings po)"
| "settings_of s = NoSettings (state_kind s)"

text \<open>Only a locator without discovery state is kept as its kind alone.\<close>

fun state_wf :: "locator_state \<Rightarrow> bool" where
  "state_wf (OtherState k) \<longleftrightarrow> refresh_state k \<noteq> SyncedDiscoveryState"
| "state_wf _ \<longleftrightarrow> True"

definition synced_to :: "search_scope option \<Rightarrow> locator_state \<Rightarrow> locator_state \<Rightarrow> locator_state \<Rightarrow> bool" where
  "synced_to scope t s t' \<longleftrightarrow>
     state_kind t' = state_kind t \<and> settings_of t' = settings_of t
     \<and> (scope = None \<longrightarrow> discovery_of t' = discovery_of s)
     \<and> (\<forall>k. scope = Some (ScopeGlobal k) \<longrightarrow> k \<notin> set (synced_categories t) \<longrightarrow> t' = t)
     \<and> (scope = Some ScopeWorkspace \<longrightarrow> state_kind t \<noteq> LPoetry \<longrightarrow> t' = t)"

lemmas sync_laws =
  conda_state.sync_full conda_state.sync_settings conda_state.sync_unsupported conda_state.sync_workspace
  poetry_state.sync_full poetry_state.sync_settings poetry_state.sync_unsupported
  replaced_state.sync_full replaced_state.sync_unsupported replaced_state.sync_workspace

lemma locator_sync_synced:
  assumes "state_kind t = state_kind s" "state_wf t" "state_wf s"
  shows "\<exists>t'. locator_sync (refresh_state_sync_scope scope) t s = Ret t' \<and> synced_to scope t s t'"
proof -
  have "\<exists>t'. locator_sync (refresh_state_sync_scope scope) t s = Ret t'"
    using assms by (cases t; cases s; simp; metis)
  then obtain t' where t': "locator_sync (refresh_state_sync_scope scope) t s = Ret t'" by blast
  have "synced_to scope t s t'"
    using assms t' by (cases t; cases s; cases scope rule: refresh_state_sync_scope.cases)
      (auto simp: synced_to_def sync_laws)
  with t' show ?thesis by blast
qed

lemma sync_loop_synced:
  assumes "map state_kind ts = map state_kind ss" "list_all state_wf ts" "list_all state_wf ss"
  shows "\<exists>ts'. sync_loop (refresh_state_sync_scope scope) ts ss = (ts', None) \<and> length ts' = length ts
     \<and> (\<forall>i < length ts. synced_to scope (ts ! i) (ss ! i) (ts' ! i))"
  using assms
proof (induction ts arbitrary: ss)
  case (Cons t ts)
  then obtain s ss' where ss: "ss = s # ss'" "state_kind t = state_kind s" by auto
  with Cons.prems locator_sync_synced [of t s scope] obtain t' where
    t': "locator_sync (refresh_state_sync_scope scope) t s = Ret t'" "synced_to scope t s t'" by auto
  from Cons.IH [of ss'] Cons.prems ss obtain ts' where
    "sync_loop (refresh_state_sync_scope scope) ts ss' = (ts', None)" "length ts' = length ts"
    "\<forall>i < length ts. synced_to scope (ts ! i) (ss' ! i) (ts' ! i)" by auto
  with t' ss show ?case by (auto simp: nth_Cons split: nat.split)
qed simp

section \<open>Properties\<close>

text \<open>C24: A refresh hands over its discoveries completely or not at all. If a newer configuration
  has been published, no locator changes. Otherwise, for graphs of the same locators, nothing panics,
  every locator keeps its kind and its settings, and: after a full refresh each knows exactly what
  its transient counterpart found; after one that was filtered by kind the locators that do not
  support the kind are unchanged; after one of the workspace only the Poetry locator may change.\<close>

theorem refresh_sync_contract:
  assumes "map state_kind ts = map state_kind ss" "list_all state_wf ts" "list_all state_wf ss"
    and "sync_refresh_locator_state_if_current conf g ts ss scope = (ts', r)"
  shows "(generation conf \<noteq> g \<longrightarrow> ts' = ts \<and> r = Inl (generation conf))
     \<and> (generation conf = g \<longrightarrow> r = Inr None \<and> length ts' = length ts
          \<and> (\<forall>i < length ts. synced_to scope (ts ! i) (ss ! i) (ts' ! i)))"
proof -
  have "length ts = length ss" using map_eq_imp_length_eq [OF assms(1)] .
  with sync_loop_synced [OF assms(1-3), of scope] assms(4) show ?thesis
    by (auto simp: sync_refresh_locator_state_if_current_def sync_refresh_locator_state_def split: prod.splits if_splits)
qed

theorem refresh_sync_contract_witness:
  "\<exists>ts'. sync_refresh_locator_state_if_current \<lparr>generation = 1, config = configuration_default\<rparr> 1
      [CondaState conda_new, OtherState LVenv] [CondaState (conda_insert_env ''/e'' env_default conda_new), OtherState LVenv] None
      = (ts', Inr None)
    \<and> discovery_of (ts' ! 0) = discovery_of (CondaState (conda_insert_env ''/e'' env_default conda_new))"
proof -
  let ?ts = "[CondaState conda_new, OtherState LVenv]"
  let ?ss = "[CondaState (conda_insert_env ''/e'' env_default conda_new), OtherState LVenv]"
  let ?c = "\<lparr>generation = 1, config = configuration_default\<rparr>"
  obtain ts' r where r: "sync_refresh_locator_state_if_current ?c 1 ?ts ?ss None = (ts', r)" by fastforce
  have "map state_kind ?ts = map state_kind ?ss" "list_all state_wf ?ts" "list_all state_wf ?ss" by simp_all
  from refresh_sync_contract [OF this r] have "r = Inr None" "synced_to None (?ts ! 0) (?ss ! 0) (ts' ! 0)" by auto
  with r show ?thesis by (auto simp: synced_to_def)
qed

end
