(* ===== verification/Windows_Registry.thy ===== *)
theory Windows_Registry
  imports Refresh_Sync
begin

text \<open>
  The locator of interpreters in the registry of Windows, \<open>pet-windows-registry/src/lib.rs\<close> and
  \<open>environments.rs\<close>: the walk over the keys of both hives, which survives a panic in one company,
  and the cache of its result, which every search and every identification share without holding
  the lock during a walk. The keys are data; normalising the case of a path is an argument, and so
  is what the Conda locator reports of an installation.
\<close>

section \<open>The registry\<close>

record install_path_key =
  ipk_default :: "string option"
  ipk_executable_path :: "string option"

record install_key =
  ik_install_path :: "install_path_key option"
  ik_version :: "string option"
  ik_sys_architecture :: "string option"
  ik_display_name :: "string option"

text \<open>A key that cannot be opened is \<open>None\<close>.\<close>

type_synonym company_key = "install_key option list"

type_synonym hive = "company_key option list option"

record registry_view =
  rg_fs :: file_system
  rg_norm_case :: "path \<Rightarrow> path"
  rg_conda_report :: "path \<Rightarrow> notification list \<times> bool"
  rg_hklm :: hive
  rg_hkcu :: hive

definition is_windows_app_folder_in_program_files :: "path \<Rightarrow> bool" where
  "is_windows_app_folder_in_program_files p \<longleftrightarrow>
     (case to_lowercase p of
        [] \<Rightarrow> False
      | _ # rest \<Rightarrow> prefix ('':'' @ [CHR 0x5C] @ ''program files'' @ [CHR 0x5C] @ ''windowsapps'') rest)"

section \<open>The walk\<close>

datatype registry_item = RegistryConda path | RegistryEnvironment python_environment

definition registry_architecture :: "string \<Rightarrow> architecture option" where
  "registry_architecture a =
     (if str_contains ''32'' a then Some X86 else if str_contains ''64'' a then Some X64 else None)"

definition walk_install_path :: "registry_view \<Rightarrow> install_key \<Rightarrow> install_path_key \<Rightarrow> registry_item option" where
  "walk_install_path v k ip =
     (let raw = unwrap_or (ipk_default ip) []; env_path = rg_norm_case v raw;
          raw_exe = unwrap_or (ipk_executable_path ip) []; exe = rg_norm_case v raw_exe;
          ver = unwrap_or (ik_version k) []
      in if raw = [] then None
         else if is_windows_app_folder_in_program_files env_path then None
         else if is_conda_env (rg_fs v) env_path then Some (RegistryConda env_path)
         else if raw_exe = [] then None
         else if \<not> exists (rg_fs v) exe then None
         else Some (RegistryEnvironment (build
                (with_arch (registry_architecture (unwrap_or (ik_sys_architecture k) []))
                (with_prefix (if exists (rg_fs v) env_path then Some env_path else None)
                (with_version (if ver = [] then None else Some ver)
                (with_executable (Some exe)
                (with_display_name (Some (unwrap_or (ik_display_name k) [])) (builder_new (Some WindowsRegistry))))))))))"

definition walk_install :: "registry_view \<Rightarrow> install_key option \<Rightarrow> registry_item option" where
  "walk_install v k = Option.bind k (\<lambda>k. Option.bind (ik_install_path k) (walk_install_path v k))"

definition empty_walk :: cached_registry_walk where
  "empty_walk = \<lparr>rw_result = \<lparr>lr_managers = [], lr_environments = []\<rparr>, rw_conda_install_dirs = []\<rparr>"

fun add_item :: "registry_item \<Rightarrow> cached_registry_walk \<Rightarrow> cached_registry_walk" where
  "add_item (RegistryConda p) w = w\<lparr>rw_conda_install_dirs := p # rw_conda_install_dirs w\<rparr>"
| "add_item (RegistryEnvironment e) w =
     w\<lparr>rw_result := (rw_result w)\<lparr>lr_environments := e # lr_environments (rw_result w)\<rparr>\<rparr>"

text \<open>What is reported of an item, and whether reporting it panics.\<close>

fun report_item :: "registry_view \<Rightarrow> bool \<Rightarrow> registry_item \<Rightarrow> notification list \<times> bool" where
  "report_item v False i = ([], False)"
| "report_item v True (RegistryConda p) = rg_conda_report v p"
| "report_item v True (RegistryEnvironment e) = ([EnvironmentNote e], False)"

text \<open>The thread of a company; \<open>None\<close> when it panicked.\<close>

fun walk_items :: "registry_view \<Rightarrow> bool \<Rightarrow> registry_item list \<Rightarrow> notification list \<times> cached_registry_walk option" where
  "walk_items v reporting [] = ([], Some empty_walk)"
| "walk_items v reporting (i # xs) =
     (case report_item v reporting i of
        (notes, True) \<Rightarrow> (notes, None)
      | (notes, False) \<Rightarrow>
          (case walk_items v reporting xs of (notes', r) \<Rightarrow> (notes @ notes', map_option (add_item i) r)))"

definition get_registry_pythons_from_key_for_company ::
  "registry_view \<Rightarrow> bool \<Rightarrow> company_key \<Rightarrow> notification list \<times> cached_registry_walk option" where
  "get_registry_pythons_from_key_for_company v reporting key =
     walk_items v reporting (List.map_filter (walk_install v) key)"

definition join_or_warn :: "cached_registry_walk option \<Rightarrow> cached_registry_walk \<times> bool" where
  "join_or_warn r = (case r of Some w \<Rightarrow> (w, False) | None \<Rightarrow> (empty_walk, True))"

definition merge_walks :: "cached_registry_walk list \<Rightarrow> cached_registry_walk" where
  "merge_walks ws =
     \<lparr>rw_result = \<lparr>lr_managers = concat (map (lr_managers \<circ> rw_result) ws),
        lr_environments = concat (map (lr_environments \<circ> rw_result) ws)\<rparr>,
      rw_conda_install_dirs = concat (map rw_conda_install_dirs ws)\<rparr>"

text \<open>The threads of the companies, and those of the hives, run one after the other.\<close>

definition get_registry_pythons_for_hive ::
  "registry_view \<Rightarrow> bool \<Rightarrow> hive \<Rightarrow> notification list \<times> cached_registry_walk \<times> bool" where
  "get_registry_pythons_for_hive v reporting h =
     (case h of
        None \<Rightarrow> ([], empty_walk, False)
      | Some companies \<Rightarrow>
          let rs = map (get_registry_pythons_from_key_for_company v reporting) (List.map_filter id companies);
              joined = map (join_or_warn \<circ> snd) rs
          in (concat (map fst rs), merge_walks (map fst joined), list_ex snd joined))"

definition get_registry_pythons :: "registry_view \<Rightarrow> bool \<Rightarrow> notification list \<times> cached_registry_walk \<times> bool" where
  "get_registry_pythons v reporting =
     (case get_registry_pythons_for_hive v reporting (rg_hklm v) of (n1, w1, p1) \<Rightarrow>
      case get_registry_pythons_for_hive v reporting (rg_hkcu v) of (n2, w2, p2) \<Rightarrow>
        (n1 @ n2, merge_walks [w1, w2], p1 \<or> p2))"

section \<open>The cache\<close>

text \<open>What \<open>find\<close> reports of a walk that it did not make itself.\<close>

fun report_conda_dirs :: "registry_view \<Rightarrow> path list \<Rightarrow> notification list \<times> bool" where
  "report_conda_dirs v [] = ([], False)"
| "report_conda_dirs v (d # ds) =
     (case rg_conda_report v d of
        (notes, True) \<Rightarrow> (notes, True)
      | (notes, False) \<Rightarrow> (case report_conda_dirs v ds of (notes', p) \<Rightarrow> (notes @ notes', p)))"

definition replay_walk :: "registry_view \<Rightarrow> cached_registry_walk \<Rightarrow> notification list \<times> bool" where
  "replay_walk v w =
     (case report_conda_dirs v (rw_conda_install_dirs w) of
        (notes, p) \<Rightarrow> (map ManagerNote (lr_managers (rw_result w)) @ map EnvironmentNote (lr_environments (rw_result w)) @ notes, p))"

text \<open>A caller of \<open>find_with_cache\<close>: a search has a reporter, an identification has none. The flag of
  \<open>RegistryDone\<close> says that the caller panicked.\<close>

datatype registry_pc =
    RegistryCheck
  | RegistryWalk
  | RegistryPublish cached_registry_walk bool
  | RegistryFound cached_registry_walk bool
  | RegistryDone bool

record registry_thread =
  rt_reporting :: bool
  rt_pc :: registry_pc
  rt_notes :: "notification list"

fun registry_step ::
  "registry_view \<Rightarrow> cached_registry_walk option \<Rightarrow> bool \<Rightarrow> registry_pc
   \<Rightarrow> (cached_registry_walk option \<times> notification list \<times> registry_pc) option" where
  "registry_step v cache reporting RegistryCheck =
     Some (cache, [], case cache of Some w \<Rightarrow> RegistryFound w False | None \<Rightarrow> RegistryWalk)"
| "registry_step v cache reporting RegistryWalk =
     (case get_registry_pythons v reporting of (notes, w, p) \<Rightarrow> Some (cache, notes, RegistryPublish w p))"
| "registry_step v cache reporting (RegistryPublish w had_panic) =
     Some (if had_panic then (cache, [], RegistryFound w True)
           else case cache of
                  Some existing \<Rightarrow> (cache, [], RegistryFound existing True)
                | None \<Rightarrow> (Some w, [], RegistryFound w True))"
| "registry_step v cache reporting (RegistryFound w did_walk) =
     (if reporting \<and> \<not> did_walk
      then (case replay_walk v w of (notes, p) \<Rightarrow> Some (cache, notes, RegistryDone p))
      else Some (cache, [], RegistryDone False))"
| "registry_step v cache reporting (RegistryDone p) = None"

record registry_system =
  rs_cache :: "cached_registry_walk option"
  rs_threads :: "registry_thread list"

definition complete_walk :: "registry_view \<Rightarrow> cached_registry_walk \<Rightarrow> bool" where
  "complete_walk v w \<longleftrightarrow> (\<exists>reporting notes. get_registry_pythons v reporting = (notes, w, False))"

text \<open>The registry may change between the steps, within a set of views; a refresh hands over what
  another locator of the process has found, and new callers arrive.\<close>

inductive registry_sys_step :: "registry_view set \<Rightarrow> registry_system \<Rightarrow> registry_system \<Rightarrow> bool" for vs where
  registry_thread_step:
    "v \<in> vs \<Longrightarrow> i < length (rs_threads s) \<Longrightarrow> th = rs_threads s ! i
     \<Longrightarrow> registry_step v (rs_cache s) (rt_reporting th) (rt_pc th) = Some (c, notes, pc)
     \<Longrightarrow> registry_sys_step vs s
           (s\<lparr>rs_cache := c, rs_threads := (rs_threads s)[i := th\<lparr>rt_pc := pc, rt_notes := rt_notes th @ notes\<rparr>]\<rparr>)"
| registry_sync_step:
    "c = None \<or> (\<exists>v \<in> vs. \<exists>w. c = Some w \<and> complete_walk v w)
     \<Longrightarrow> registry_sys_step vs s (s\<lparr>rs_cache := c\<rparr>)"
| registry_arrive_step:
    "registry_sys_step vs s
       (s\<lparr>rs_threads := rs_threads s @ [\<lparr>rt_reporting = reporting, rt_pc = RegistryCheck, rt_notes = []\<rparr>]\<rparr>)"

definition registry_init :: "registry_system \<Rightarrow> bool" where
  "registry_init s \<longleftrightarrow> rs_cache s = None \<and> rs_threads s = []"

text \<open>\<open>try_from\<close> with what \<open>find_with_cache\<close> gave it.\<close>

definition registry_claim :: "file_system \<Rightarrow> cached_registry_walk \<Rightarrow> python_env \<Rightarrow> python_environment option" where
  "registry_claim fs w env =
     (if is_virtualenv fs env then None
      else if (case pe_prefix env of Some p \<Rightarrow> is_conda_env fs p | None \<Rightarrow> False) then None
      else List.find (\<lambda>e. case executable e of Some x \<Rightarrow> path_eq x (pe_executable env) | None \<Rightarrow> False)
             (lr_environments (rw_result w)))"

section \<open>A replay reports what the walk reported\<close>

abbreviation walk_notes :: "cached_registry_walk \<Rightarrow> notification list" where
  "walk_notes w \<equiv> map ManagerNote (lr_managers (rw_result w)) @ map EnvironmentNote (lr_environments (rw_result w))"

definition replays :: "registry_view \<Rightarrow> cached_registry_walk \<Rightarrow> notification list \<Rightarrow> bool" where
  "replays v w notes \<longleftrightarrow> (\<exists>ns. replay_walk v w = (ns, False) \<and> mset ns = mset notes)"

lemma report_conda_dirs_append:
  "report_conda_dirs v ds = (ns, False) \<Longrightarrow> report_conda_dirs v (ds @ es) = (ns @ fst (report_conda_dirs v es), snd (report_conda_dirs v es))"
  by (induction ds arbitrary: ns) (auto split: prod.splits bool.splits)

lemma replays_iff:
  "replays v w notes \<longleftrightarrow> (\<exists>ds. report_conda_dirs v (rw_conda_install_dirs w) = (ds, False) \<and> mset notes = mset (walk_notes w @ ds))"
  by (auto simp: replays_def replay_walk_def split: prod.split)

lemma replays_empty: "replays v empty_walk []"
  by (simp add: replays_iff empty_walk_def)

lemma replays_add:
  assumes "report_item v True i = (ns, False)" "replays v w notes"
  shows "replays v (add_item i w) (ns @ notes)"
  using assms by (cases i) (auto simp: replays_iff)

lemma replays_merge:
  assumes "list_all2 (replays v) ws ns" shows "replays v (merge_walks ws) (concat ns)"
  using assms
proof (induction rule: list_all2_induct)
  case Nil
  then show ?case using replays_empty by (simp add: merge_walks_def empty_walk_def)
next
  case (Cons w ws n ns)
  then obtain d ds where d: "report_conda_dirs v (rw_conda_install_dirs w) = (d, False)" "mset n = mset (walk_notes w @ d)"
    "report_conda_dirs v (rw_conda_install_dirs (merge_walks ws)) = (ds, False)" "mset (concat ns) = mset (walk_notes (merge_walks ws) @ ds)"
    by (auto simp: replays_iff)
  with report_conda_dirs_append [OF d(1)] show ?case by (simp add: replays_iff merge_walks_def ac_simps)
qed

lemma walk_items_replays:
  "walk_items v True xs = (ns, Some w) \<Longrightarrow> replays v w ns"
  by (induction xs arbitrary: ns w) (auto simp: replays_empty intro: replays_add split: prod.splits bool.splits)

lemma walk_company_replays:
  assumes "\<not> snd (join_or_warn (snd (get_registry_pythons_from_key_for_company v True key)))"
  shows "replays v (fst (join_or_warn (snd (get_registry_pythons_from_key_for_company v True key))))
           (fst (get_registry_pythons_from_key_for_company v True key))"
proof -
  obtain ns r where c: "get_registry_pythons_from_key_for_company v True key = (ns, r)" by fastforce
  with assms obtain w where "r = Some w" by (cases r) (auto simp: join_or_warn_def)
  with c walk_items_replays show ?thesis
    by (simp add: get_registry_pythons_from_key_for_company_def join_or_warn_def)
qed

text \<open>Without a panic the result does not depend on whether anything is reported.\<close>

lemma silent_company:
  assumes "\<not> snd (join_or_warn (snd (get_registry_pythons_from_key_for_company v True key)))"
  shows "snd (get_registry_pythons_from_key_for_company v False key) = snd (get_registry_pythons_from_key_for_company v True key)"
proof -
  have "snd (walk_items v True xs) = Some w \<Longrightarrow> snd (walk_items v False xs) = Some w" for xs w
    by (induction xs arbitrary: w) (auto split: prod.splits bool.splits)
  with assms show ?thesis
    by (auto simp: get_registry_pythons_from_key_for_company_def join_or_warn_def split: option.split_asm)
qed

lemma silent_hive:
  assumes "snd (get_registry_pythons_for_hive v True h) = (w, False)"
  shows "snd (get_registry_pythons_for_hive v False h) = (w, False)"
proof (cases h)
  case (Some companies)
  let ?r = "\<lambda>reporting. map (join_or_warn \<circ> snd \<circ> get_registry_pythons_from_key_for_company v reporting) (List.map_filter id companies)"
  have walk: "snd (get_registry_pythons_for_hive v reporting h) = (merge_walks (map fst (?r reporting)), list_ex snd (?r reporting))"
    for reporting using Some by (simp add: get_registry_pythons_for_hive_def Let_def o_assoc)
  from assms have "\<forall>x \<in> set (?r True). \<not> snd x" unfolding walk by (auto simp: list_ex_iff)
  then have "?r False = ?r True" by (auto simp: silent_company)
  with assms show ?thesis unfolding walk by (simp only:)
qed (use assms in \<open>simp add: get_registry_pythons_for_hive_def\<close>)

lemma silent_walk:
  assumes "get_registry_pythons v True = (ns, w, False)"
  shows "snd (get_registry_pythons v reporting) = (w, False)"
proof (cases reporting)
  case False
  from assms obtain w1 w2 where w: "snd (get_registry_pythons_for_hive v True (rg_hklm v)) = (w1, False)"
    "snd (get_registry_pythons_for_hive v True (rg_hkcu v)) = (w2, False)" "w = merge_walks [w1, w2]"
    by (auto simp: get_registry_pythons_def split: prod.splits)
  with silent_hive [OF w(1)] silent_hive [OF w(2)] False show ?thesis
    by (auto simp: get_registry_pythons_def split: prod.splits)
qed (use assms in simp)

lemma walk_hive_replays:
  assumes "get_registry_pythons_for_hive v True h = (notes, w, False)"
  shows "replays v w notes"
proof (cases h)
  case None
  with assms replays_empty show ?thesis by (simp add: get_registry_pythons_for_hive_def)
next
  case (Some companies)
  let ?rs = "map (get_registry_pythons_from_key_for_company v True) (List.map_filter id companies)"
  from assms Some have r: "notes = concat (map fst ?rs)" "w = merge_walks (map (fst \<circ> join_or_warn \<circ> snd) ?rs)"
    "\<forall>x \<in> set ?rs. \<not> snd (join_or_warn (snd x))"
    by (auto simp: get_registry_pythons_for_hive_def Let_def list_ex_iff o_def)
  have "list_all2 (replays v) (map (fst \<circ> join_or_warn \<circ> snd) ?rs) (map fst ?rs)"
    using r(3) walk_company_replays by (auto simp: list_all2_conv_all_nth)
  from replays_merge [OF this] r show ?thesis by simp
qed

lemma walk_replays:
  assumes "get_registry_pythons v True = (notes, w, False)" shows "replays v w notes"
proof -
  from assms obtain n1 w1 n2 w2 where "get_registry_pythons_for_hive v True (rg_hklm v) = (n1, w1, False)"
    "get_registry_pythons_for_hive v True (rg_hkcu v) = (n2, w2, False)" "notes = n1 @ n2" "w = merge_walks [w1, w2]"
    by (auto simp: get_registry_pythons_def split: prod.splits)
  with replays_merge [of v "[w1, w2]" "[n1, n2]"] walk_hive_replays show ?thesis by simp
qed

section \<open>The cache in every interleaving\<close>

text \<open>What a caller has reported so far, by the point it has reached: nothing before its walk, then
  what its own walk reported or what a replay of a complete walk reports.\<close>

fun registry_pc_ok :: "registry_view set \<Rightarrow> bool \<Rightarrow> notification list \<Rightarrow> registry_pc \<Rightarrow> bool" where
  "registry_pc_ok vs reporting notes RegistryCheck \<longleftrightarrow> notes = []"
| "registry_pc_ok vs reporting notes RegistryWalk \<longleftrightarrow> notes = []"
| "registry_pc_ok vs reporting notes (RegistryPublish w p) \<longleftrightarrow>
     (\<exists>v \<in> vs. get_registry_pythons v reporting = (notes, w, p))"
| "registry_pc_ok vs reporting notes (RegistryFound w did_walk) \<longleftrightarrow>
     (if did_walk then \<exists>v \<in> vs. notes = fst (get_registry_pythons v reporting)
      else notes = [] \<and> (\<exists>v \<in> vs. complete_walk v w))"
| "registry_pc_ok vs reporting notes (RegistryDone p) \<longleftrightarrow>
     p \<or> \<not> reporting \<or> (\<exists>v \<in> vs. notes = fst (get_registry_pythons v reporting))
       \<or> (\<exists>v \<in> vs. \<exists>v' \<in> vs. \<exists>w. complete_walk v w \<and> replay_walk v' w = (notes, False))"

definition registry_inv :: "registry_view set \<Rightarrow> registry_system \<Rightarrow> bool" where
  "registry_inv vs s \<longleftrightarrow>
     (\<forall>w. rs_cache s = Some w \<longrightarrow> (\<exists>v \<in> vs. complete_walk v w))
     \<and> list_all (\<lambda>th. registry_pc_ok vs (rt_reporting th) (rt_notes th) (rt_pc th)) (rs_threads s)"

lemma registry_step_ok:
  assumes "registry_step v cache reporting pc = Some (c, ns, pc')" "v \<in> vs" "registry_pc_ok vs reporting notes pc"
    and "\<forall>w. cache = Some w \<longrightarrow> (\<exists>v \<in> vs. complete_walk v w)"
  shows "(\<forall>w. c = Some w \<longrightarrow> (\<exists>v \<in> vs. complete_walk v w)) \<and> registry_pc_ok vs reporting (notes @ ns) pc'"
proof (cases pc)
  case RegistryWalk
  with assms show ?thesis by (auto split: prod.split_asm)
next
  case (RegistryPublish w p)
  with assms show ?thesis
    by (auto simp: complete_walk_def split: if_split_asm option.split_asm) force+
next
  case (RegistryFound w did)
  with assms show ?thesis by (auto split: if_split_asm prod.split_asm)
qed (use assms in \<open>auto split: option.split_asm\<close>)

interpretation registry_cache: inv_system registry_init "registry_sys_step vs" "registry_inv vs" for vs
proof
  show "registry_inv vs s" if "registry_init s" for s
    using that by (simp add: registry_init_def registry_inv_def)
  fix s t assume inv: "registry_inv vs s" and "registry_sys_step vs s t"
  from this(2) show "registry_inv vs t"
  proof cases
    case (registry_thread_step v i th c ns pc)
    with inv have "registry_pc_ok vs (rt_reporting th) (rt_notes th) (rt_pc th)"
      by (simp add: registry_inv_def list_all_length)
    note c = registry_step_ok [OF registry_thread_step(5,2) this conjunct1 [OF inv [unfolded registry_inv_def]]]
    from inv have "list_all (\<lambda>th. registry_pc_ok vs (rt_reporting th) (rt_notes th) (rt_pc th)) (rs_threads s)"
      by (simp add: registry_inv_def)
    then have "list_all (\<lambda>th. registry_pc_ok vs (rt_reporting th) (rt_notes th) (rt_pc th))
        ((rs_threads s)[i := th\<lparr>rt_pc := pc, rt_notes := rt_notes th @ ns\<rparr>])"
      by (rule list_all_update) (simp add: conjunct2 [OF c])
    with conjunct1 [OF c] registry_thread_step(1) show ?thesis by (simp add: registry_inv_def)
  qed (use inv in \<open>auto simp: registry_inv_def\<close>)
qed

section \<open>Properties\<close>


text \<open>One interpreter and one Conda installation in the hive of the user; a search that replays what
  another locator has found.\<close>

definition registry_demo_view :: registry_view where
  "registry_demo_view =
     \<lparr>rg_fs = plain_fs [''/p/python''] [''/c'', ''/c/conda-meta'', ''/p''], rg_norm_case = (\<lambda>p. p), rg_conda_report = (\<lambda>_. ([], False)),
      rg_hklm = None,
      rg_hkcu = Some [None, Some [None,
        Some \<lparr>ik_install_path = Some \<lparr>ipk_default = Some ''/p'', ipk_executable_path = Some ''/p/python''\<rparr>,
              ik_version = Some ''3.12'', ik_sys_architecture = Some ''64bit'', ik_display_name = None\<rparr>,
        Some \<lparr>ik_install_path = Some \<lparr>ipk_default = Some ''/c'', ipk_executable_path = None\<rparr>,
              ik_version = None, ik_sys_architecture = None, ik_display_name = None\<rparr>]]\<rparr>"

definition registry_demo_env :: python_environment where
  "registry_demo_env =
  build (with_arch (Some X64) (with_prefix (Some ''/p'') (with_version (Some ''3.12'') (with_executable (Some ''/p/python'')
    (with_display_name (Some []) (builder_new (Some WindowsRegistry)))))))"

definition registry_demo_walk :: cached_registry_walk where
  "registry_demo_walk =
    \<lparr>rw_result = \<lparr>lr_managers = [], lr_environments = [registry_demo_env]\<rparr>, rw_conda_install_dirs = [''/c'']\<rparr>"

lemma registry_demo:
  "get_registry_pythons registry_demo_view True = ([EnvironmentNote registry_demo_env], registry_demo_walk, False)"
  by code_simp

lemma registry_demo_replay: "replay_walk registry_demo_view registry_demo_walk = ([EnvironmentNote registry_demo_env], False)"
  by code_simp

lemma registry_demo_exe: "executable registry_demo_env = Some ''/p/python''"
  by code_simp


end
