(* ===== verification/Windows_Store.thy ===== *)
theory Windows_Store
  imports Refresh_Sync
begin

text \<open>
  The locator of interpreters from the store of Windows, \<open>pet-windows-store/src/lib.rs\<close> and
  \<open>environments.rs\<close>: the packages and the aliases in the directory of the user are paired by version.
  What the registry says of a package is an argument, and so is normalising the case of a path. The
  hash map of the versions is listed in the order of insertion.
\<close>

section \<open>Names\<close>

text \<open>A pattern of a regular expression without operators: a dot matches any character of a line.\<close>

fun match_dots :: "string \<Rightarrow> string \<Rightarrow> string option" where
  "match_dots [] s = Some s"
| "match_dots (p # ps) [] = None"
| "match_dots (p # ps) (c # cs) = (if p = c \<or> p = CHR ''.'' \<and> c \<noteq> CHR 0x0A then match_dots ps cs else None)"

text \<open>The groups \<open>(\d+\.\d+)\<close> that can be taken at the start of a text, the longest first, with what follows.\<close>

definition two_numbers :: "string \<Rightarrow> (string \<times> string) list" where
  "two_numbers s =
     (let major = takeWhile is_digit s; rest = dropWhile is_digit s
      in if major = [] then []
         else case match_char (CHR ''.'') rest of
                None \<Rightarrow> []
              | Some r \<Rightarrow>
                  map (\<lambda>k. (major @ CHR ''.'' # take k r, drop k r)) (rev [1..<Suc (length (takeWhile is_digit r))]))"

definition captured_version :: "string \<Rightarrow> string \<Rightarrow> string \<Rightarrow> string option" where
  "captured_version before after s =
     find_map (\<lambda>t. Option.bind (match_dots before t) (\<lambda>r.
         find_map (\<lambda>(v, rest). map_option (\<lambda>_. v) (match_dots after rest)) (two_numbers r)))
       (tails s)"

definition package_prefix :: string where
  "package_prefix = ''PythonSoftwareFoundation.Python.''"

definition package_version :: "string \<Rightarrow> string option" where
  "package_version = captured_version package_prefix ''_''"

definition alias_version :: "string \<Rightarrow> string option" where
  "alias_version = captured_version ''python'' ''.exe''"

section \<open>Packages and aliases\<close>

record store_view =
  sv_fs :: file_system
  sv_norm_case :: "path \<Rightarrow> path"
  sv_full_name :: "string \<Rightarrow> string option"
  sv_display_name :: "string \<Rightarrow> string option"
  sv_root_folder :: "string \<Rightarrow> path option"

record potential_python =
  pp_path :: "path option"
  pp_name :: "string option"
  pp_exe :: "path option"
  pp_version :: string
  pp_symlinks :: "path list"

definition get_search_locations :: "path option \<Rightarrow> path option" where
  "get_search_locations home = map_option (\<lambda>h. foldl path_join h [''AppData'', ''Local'', ''Microsoft'', ''WindowsApps'']) home"

definition find_store_symlinks :: "file_system \<Rightarrow> path \<Rightarrow> string \<Rightarrow> path list" where
  "find_store_symlinks fs p v =
     (case Option.bind (parent p) parent of
        None \<Rightarrow> []
      | Some apps \<Rightarrow>
          if path_ends_with apps ''WindowsApp'' then []
          else let possible = path_join apps (''python'' @ v @ ''.exe'');
                   exes = filter (\<lambda>e. file_name e \<noteq> None) (find_executables fs apps);
                   versioned = filter (\<lambda>e. prefix ''python3.'' (to_lowercase (the (file_name e)))) exes
               in (if exists fs possible then [possible] else []) @ (if length versioned = 1 then exes else []))"

record store_python_info =
  spi_display_name :: string
  spi_env_path :: path
  spi_is64_bit :: bool

definition get_package_display_name_and_location :: "store_view \<Rightarrow> string \<Rightarrow> store_python_info option" where
  "get_package_display_name_and_location v name =
     Option.bind (sv_full_name v name) (\<lambda>full.
     Option.bind (sv_display_name v full) (\<lambda>display.
     map_option (\<lambda>root. \<lparr>spi_display_name = display, spi_env_path = root, spi_is64_bit = str_contains ''_x64_'' full\<rparr>)
       (sv_root_folder v full)))"

definition store_links :: "path \<Rightarrow> path \<Rightarrow> path \<Rightarrow> string \<Rightarrow> path list" where
  "store_links apps package env_path v =
     (let versioned = ''python'' @ v @ ''.exe''
      in [path_join apps versioned, path_join apps ''python3.exe'', path_join apps ''python.exe'',
          path_join package ''python.exe'', path_join package ''python3.exe'', path_join package versioned,
          path_join env_path ''python.exe'', path_join env_path ''python3.exe'', path_join env_path versioned])"

definition store_environment :: "store_view \<Rightarrow> potential_python \<Rightarrow> python_environment option" where
  "store_environment v pp =
     (let package = unwrap_or (pp_path pp) []; exe = unwrap_or (pp_exe pp) []
      in Option.bind (parent package) (\<lambda>apps.
         map_option (\<lambda>info.
             let env_path = sv_norm_case v (spi_env_path info);
                 links = foldl (\<lambda>ls l. if path_contains ls l then ls else ls @ [l])
                           (store_links apps package env_path (pp_version pp)) (pp_symlinks pp)
             in build (with_symlinks (Some links) (with_arch (if spi_is64_bit info then Some X64 else None)
                  (with_prefix (Some env_path) (with_executable (Some exe)
                  (with_display_name (Some (spi_display_name info)) (builder_new (Some WindowsStore))))))))
           (get_package_display_name_and_location v (unwrap_or (pp_name pp) []))))"

text \<open>An update of the entry of a version, which is created when there is none.\<close>

fun update_potential ::
  "(potential_python \<Rightarrow> potential_python) \<Rightarrow> potential_python \<Rightarrow> potential_python list \<Rightarrow> potential_python list" where
  "update_potential f new [] = [f new]"
| "update_potential f new (pp # pps) =
     (if pp_version pp = pp_version new then f pp # pps else pp # update_potential f new pps)"

definition new_potential :: "file_system \<Rightarrow> path \<Rightarrow> string \<Rightarrow> potential_python" where
  "new_potential fs p v =
     \<lparr>pp_path = None, pp_name = None, pp_exe = None, pp_version = v, pp_symlinks = find_store_symlinks fs p v\<rparr>"

text \<open>\<open>None\<close>: the whole listing ends, at a package without a version in its name.\<close>

definition list_store_entry ::
  "file_system \<Rightarrow> potential_python list \<Rightarrow> path \<Rightarrow> potential_python list option" where
  "list_store_entry fs pps p =
     (case file_name p of
        None \<Rightarrow> Some pps
      | Some name \<Rightarrow>
          if prefix package_prefix name
          then map_option (\<lambda>v. update_potential (\<lambda>pp. pp\<lparr>pp_path := Some p, pp_name := Some name\<rparr>) (new_potential fs p v) pps)
                 (package_version name)
          else if prefix ''python'' name \<and> suffix ''.exe'' name
          then if name = ''python.exe'' \<or> name = ''python3.exe'' then Some pps
               else (case alias_version name of
                       None \<Rightarrow> Some pps
                     | Some v \<Rightarrow> Some (update_potential (\<lambda>pp. pp\<lparr>pp_exe := Some p\<rparr>) (new_potential fs p v) pps))
          else Some pps)"

fun list_store_entries :: "file_system \<Rightarrow> potential_python list \<Rightarrow> path list \<Rightarrow> potential_python list option" where
  "list_store_entries fs pps [] = Some pps"
| "list_store_entries fs pps (p # ps) = Option.bind (list_store_entry fs pps p) (\<lambda>pps'. list_store_entries fs pps' ps)"

definition list_store_pythons :: "store_view \<Rightarrow> path option \<Rightarrow> python_environment list option" where
  "list_store_pythons v home =
     Option.bind (get_search_locations home) (\<lambda>apps.
     Option.bind (read_dir (sv_fs v) apps) (\<lambda>entries.
     map_option (\<lambda>pps. List.map_filter (store_environment v) (filter (\<lambda>pp. pp_exe pp \<noteq> None \<and> pp_path pp \<noteq> None) pps))
       (list_store_entries (sv_fs v) [] entries)))"

section \<open>The locator\<close>

text \<open>The prefixes \<open>\\?\\<close> and \<open>\\?\UNC\\<close> of a path are dropped.\<close>

definition normalize_for_comparison :: "(path \<Rightarrow> path) \<Rightarrow> path \<Rightarrow> path" where
  "normalize_for_comparison norm p =
     (let bs = CHR 0x5C; q = norm p
      in case strip_prefix_str ([bs, bs, CHR ''?'', bs] @ ''UNC'' @ [bs]) q of
           Some unc \<Rightarrow> [bs, bs] @ unc
         | None \<Rightarrow> unwrap_or (strip_prefix_str [bs, bs, CHR ''?'', bs] q) q)"

definition cached_store_from_environment :: "(path \<Rightarrow> path) \<Rightarrow> python_environment \<Rightarrow> cached_store_environment" where
  "cached_store_from_environment norm e =
     \<lparr>cse_environment = e, cse_normalized_symlinks = map (normalize_for_comparison norm) (unwrap_or (symlinks e) [])\<rparr>"

definition store_find_with_cache ::
  "store_view \<Rightarrow> path option \<Rightarrow> cached_store_environment list option \<Rightarrow> cached_store_environment list" where
  "store_find_with_cache v home cache =
     (case cache of
        Some es \<Rightarrow> es
      | None \<Rightarrow> map (cached_store_from_environment (sv_norm_case v)) (unwrap_or (list_store_pythons v home) []))"

text \<open>\<open>try_from\<close> of an interpreter that is not in a virtual environment: the answer and the cache.\<close>

definition store_try_from ::
  "store_view \<Rightarrow> path option \<Rightarrow> python_env \<Rightarrow> cached_store_environment list option
   \<Rightarrow> cached_store_environment list option \<times> python_environment option" where
  "store_try_from v home env cache =
     (let es = store_find_with_cache v home cache;
          exes = map (normalize_for_comparison (sv_norm_case v)) (pe_executable env # unwrap_or (pe_symlinks env) [])
      in (Some es,
          map_option (\<lambda>c. build (with_symlinks (pe_symlinks env) (from_environment (cse_environment c))))
            (List.find (\<lambda>c. list_ex (path_contains (cse_normalized_symlinks c)) exes) es)))"

definition store_find ::
  "store_view \<Rightarrow> path option \<Rightarrow> cached_store_environment list option \<times> python_environment list" where
  "store_find v home = (let es = store_find_with_cache v home None in (Some es, map cse_environment es))"

section \<open>Lemmas\<close>

text \<open>What the search reports is found again when one of its links is asked about, as long as the cache
  stays; the links of the question join those of the environment.\<close>

lemma store_environment_wf: "store_environment v pp = Some e \<Longrightarrow> env_wf e \<and> kind e = Some WindowsStore"
  by (auto simp: store_environment_def Let_def bind_eq_Some_conv env_wf_build)

lemma store_found_again:
  assumes "store_find v home = (cache, es)" "e \<in> set es" "l \<in> set (unwrap_or (symlinks e) [])" "pe_executable env = l"
  shows "\<exists>e'. snd (store_try_from v home env cache) = Some e' \<and> kind e' = Some WindowsStore"
proof -
  let ?cs = "map (cached_store_from_environment (sv_norm_case v)) (unwrap_or (list_store_pythons v home) [])"
  let ?hit = "\<lambda>c. list_ex (path_contains (cse_normalized_symlinks c))
    (map (normalize_for_comparison (sv_norm_case v)) (pe_executable env # unwrap_or (pe_symlinks env) []))"
  from assms(1) have cache: "cache = Some ?cs" and es: "es = unwrap_or (list_store_pythons v home) []"
    by (auto simp: store_find_def store_find_with_cache_def Let_def cached_store_from_environment_def o_def)
  from assms(2-4) es have "\<exists>c \<in> set ?cs. ?hit c"
    by (intro bexI [of _ "cached_store_from_environment (sv_norm_case v) e"])
      (auto simp: cached_store_from_environment_def path_contains_def intro!: bexI [of _ l])
  then obtain c where c: "List.find ?hit ?cs = Some c" by (metis (no_types, lifting) find_None_iff not_Some_eq)
  then have "c \<in> set ?cs" by (auto simp: find_Some_iff)
  then obtain e' where e': "e' \<in> set es" "cse_environment c = e'" using es by (auto simp: cached_store_from_environment_def)
  from e'(1) es obtain pp where "store_environment v pp = Some e'"
    by (cases "list_store_pythons v home")
      (auto simp: list_store_pythons_def bind_eq_Some_conv List.map_filter_def)
  with store_environment_wf have "kind e' = Some WindowsStore" by blast
  with c cache e'(2) show ?thesis by (simp add: store_try_from_def store_find_with_cache_def Let_def from_environment_def)
qed

text \<open>One package without a version in its name hides every interpreter of the store.\<close>

lemma unnamed_package_hides_all:
  assumes "get_search_locations home = Some apps" "read_dir (sv_fs v) apps = Some entries" "p \<in> set entries"
    and "file_name p = Some name" "prefix package_prefix name" "package_version name = None"
  shows "list_store_pythons v home = None"
proof -
  have "list_store_entry (sv_fs v) pps p = None" for pps using assms(4-6) by (simp add: list_store_entry_def)
  then have "list_store_entries (sv_fs v) pps entries = None" for pps
    using assms(3) by (induction entries arbitrary: pps) (auto simp: bind_eq_None_conv)
  with assms(1,2) show ?thesis by (simp add: list_store_pythons_def)
qed

text \<open>The aliases are searched for above the directory that holds them.\<close>

lemma store_symlinks_above:
  assumes "parent p = Some apps" "parent apps = Some upper" "\<not> path_ends_with upper ''WindowsApp''"
    and "find_executables fs upper = []" "\<not> exists fs (path_join upper (''python'' @ v @ ''.exe''))"
  shows "find_store_symlinks fs p v = []"
  using assms by (simp add: find_store_symlinks_def Let_def)

lemma package_version_read: "package_version ''PythonSoftwareFoundation.Python.3.12_qbz5n2kfra8p0'' = Some ''3.12''"
  "package_version ''PythonSoftwareFoundation.Python.Manager_x'' = None" "alias_version ''python3.12.exe'' = Some ''3.12''"
  by code_simp+

end
