(* ===== verification/Path_Walk.thy ===== *)
theory Path_Walk
  imports Fs_Path
begin

text \<open>
  Walking over paths as the locators do: the ancestors of a path, what is left of a path below
  another, and the entries of a directory. These are \<open>Path::ancestors\<close>, \<open>Path::strip_prefix\<close>,
  \<open>Path::extension\<close> and the contract of \<open>fs::read_dir\<close>.
\<close>

section \<open>Parents of joined paths\<close>

lemma trim_segments_snoc: "t \<noteq> '''' \<Longrightarrow> t \<noteq> ''.'' \<Longrightarrow> trim_segments (ss @ [t]) = ss @ [t]"
  by (simp add: trim_segments_def)

text \<open>The parent of what was joined to a joined path is spelled as that path.\<close>

lemma parent_join_join [path_simps]:
  assumes n: "simple_name n" and m: "simple_name m"
  shows "parent (path_join (path_join q n) m) = Some (path_join q n)"
proof -
  let ?p = "path_join q n"
  from path_join_split [OF n, of q] obtain ss where p: "split_on (CHR ''/'') ?p = ss @ [n]" by blast
  have "last n \<noteq> CHR ''/''" using n last_in_set [of n] unfolding simple_name_def by metis
  with n have ends: "?p \<noteq> []" "last ?p \<noteq> CHR ''/''" by (auto simp: path_join_def simple_name_def)
  have "split_on (CHR ''/'') (path_join ?p m) = ss @ [n, m]"
    using split_on_append_sep [of "CHR ''/''" ?p m] ends simple_name_facts [OF m] p by (simp add: path_join_def [of ?p])
  moreover have "m \<noteq> ''''" "m \<noteq> ''.''" "n \<noteq> ''''" "n \<noteq> ''.''" using n m by (auto simp: simple_name_def)
  moreover have "join_with (CHR ''/'') (ss @ [n]) = ?p" using p join_split by metis
  ultimately show ?thesis
    using has_root_first_segment [of "path_join ?p m"] trim_segments_snoc [of m "tl ss @ [n]"] trim_segments_snoc [of n "tl ss"]
      trim_segments_snoc [of m "[]"]
    by (cases ss) (auto simp: parent_def Let_def trim_segments_def [of "[]"] butlast_append)
qed

section \<open>Ancestors\<close>

function ancestors :: "path \<Rightarrow> path list" where
  "ancestors p = p # (case parent p of None \<Rightarrow> [] | Some q \<Rightarrow> ancestors q)"
  by pat_completeness auto
termination
  by (relation "measure (\<lambda>p. length (components p))") (auto dest: parent_shorter)

declare ancestors.simps [simp del]

lemma ancestors_self [simp]: "p \<in> set (ancestors p)" "ancestors p \<noteq> []" "hd (ancestors p) = p"
  by (subst ancestors.simps; simp)+

lemma ancestors_prefix: "a \<in> set (ancestors p) \<Longrightarrow> prefix (components a) (components p)"
proof (induction p rule: ancestors.induct)
  case (1 p)
  show ?case
  proof (cases "a = p")
    case False
    with 1(2) obtain q where q: "parent p = Some q" "a \<in> set (ancestors q)"
      by (cases "parent p") (auto simp: ancestors.simps [of p])
    from 1(1) [OF q] components_parent [OF q(1)] show ?thesis
      by (auto intro: prefix_order.trans prefixeq_butlast)
  qed simp
qed

text \<open>Every prefix of the components that is not empty belongs to an ancestor.\<close>

lemma ancestors_cover:
  assumes "prefix cs (components p)" "cs \<noteq> []" shows "\<exists>a \<in> set (ancestors p). components a = cs"
  using assms
proof (induction p rule: ancestors.induct)
  case (1 p)
  show ?case
  proof (cases "cs = components p")
    case True
    then show ?thesis by (intro bexI [of _ p]) simp_all
  next
    case False
    with 1(2) have "prefix cs (butlast (components p))"
      by (metis append_butlast_last_id prefix_bot.bot_least prefix_snoc butlast.simps(1))
    moreover obtain q where q: "parent p = Some q"
    proof (cases "parent p")
      case None
      then have "components p = [] \<or> components p = [RootDir]" by (simp add: parent_None_iff)
      with 1(2,3) False show ?thesis by (auto simp: prefix_Cons)
    qed (use that in blast)
    ultimately have "prefix cs (components q)" using components_parent [OF q] by simp
    from 1(1) [OF q this 1(3)] obtain a where "a \<in> set (ancestors q)" "components a = cs" by blast
    with q show ?thesis by (intro bexI [of _ a]) (simp_all add: ancestors.simps [of p])
  qed
qed

section \<open>What is left below a path\<close>

fun skip_components :: "nat \<Rightarrow> string list \<Rightarrow> string list" where
  "skip_components 0 ss = ss"
| "skip_components (Suc n) [] = []"
| "skip_components (Suc n) (s # ss) = (if comp_of s = [] then skip_components (Suc n) ss else skip_components n ss)"

definition path_strip_prefix :: "path \<Rightarrow> path \<Rightarrow> path option" where
  "path_strip_prefix p base =
     (if \<not> prefix (components base) (components p) then None
      else case split_on (CHR ''/'') p of
             [] \<Rightarrow> Some []
           | s # ss \<Rightarrow>
               (let body = trim_segments ss in
                Some (case length (components base) of
                        0 \<Rightarrow> if has_root p \<and> body = [] then ''/'' else join_with (CHR ''/'') (s # body)
                      | Suc n \<Rightarrow>
                          join_with (CHR ''/'')
                            (dropWhile (\<lambda>t. t = '''' \<or> t = ''.'') (skip_components n body)))))"

lemma path_strip_prefix_None: "path_strip_prefix p base = None \<longleftrightarrow> \<not> prefix (components base) (components p)"
  by (simp add: path_strip_prefix_def Let_def split: list.split)

lemma concat_skip_components: "concat (map comp_of (skip_components n ss)) = drop n (concat (map comp_of ss))"
  by (induction n ss rule: skip_components.induct) (auto simp: comp_of_def)

lemma set_skip_components: "set (skip_components n ss) \<subseteq> set ss"
  by (induction n ss rule: skip_components.induct) auto

lemma concat_comp_dropWhile:
  "concat (map comp_of (dropWhile (\<lambda>t. t = '''' \<or> t = ''.'') ss)) = concat (map comp_of ss)"
  by (induction ss) (auto simp: comp_of_def)

lemma path_strip_prefix_components:
  assumes r: "path_strip_prefix p base = Some r" and base: "components base \<noteq> []"
  shows "components p = components base @ components r"
proof -
  obtain s ss where ss: "split_on (CHR ''/'') p = s # ss" by (cases "split_on (CHR ''/'') p") auto
  let ?head = "if has_root p then [RootDir] else if s = ''.'' then [CurDir] else comp_of s"
  let ?body = "trim_segments ss"
  from base obtain n where n: "length (components base) = Suc n" by (cases "components base") auto
  define rest where "rest = dropWhile (\<lambda>t. t = '''' \<or> t = ''.'') (skip_components n ?body)"
  from r ss n have pre: "prefix (components base) (components p)" and r: "r = join_with (CHR ''/'') rest"
    by (auto simp: path_strip_prefix_def rest_def Let_def split: if_split_asm)
  have comps: "components p = ?head @ concat (map comp_of ?body)" using ss by (simp add: components_def)
  have "components p \<noteq> []" using pre n by (auto dest: prefix_length_le)
  then have p: "p \<noteq> []" by (auto simp: components_def comp_of_def has_root_def)
  have "s \<noteq> [] \<or> has_root p" using ss p by (cases p) (auto simp: has_root_def split: if_split_asm list.split_asm)
  then have head: "length ?head = 1" by (auto simp: comp_of_def)
  have "drop (Suc n) (components p) = drop n (concat (map comp_of ?body))" using comps head by simp
  then have drop: "drop (Suc n) (components p) = concat (map comp_of rest)"
    by (simp add: rest_def concat_comp_dropWhile concat_skip_components)
  have "set rest \<subseteq> set (s # ss)"
    using set_skip_components [of n ?body] trim_segments_subset [of ss] set_dropWhileD
    unfolding rest_def by fastforce
  then have clean: "t \<in> set rest \<Longrightarrow> CHR ''/'' \<notin> set t" for t
    using split_on_parts_no_sep [of t "CHR ''/''" p] ss by auto
  have "components r = concat (map comp_of rest)"
  proof (cases rest)
    case Nil
    with r show ?thesis by (simp add: components_def comp_of_def has_root_def)
  next
    case (Cons t ts)
    then have t: "t \<noteq> ''''" "t \<noteq> ''.''" using hd_dropWhile [of _ "skip_components n ?body"] unfolding rest_def
      by (metis (mono_tags, lifting) list.distinct(1) list.sel(1))+
    have sp: "split_on (CHR ''/'') r = rest" using split_join [of rest] clean Cons r by simp
    then have "\<not> has_root r" using has_root_first_segment [of r t ts] Cons t by auto
    with sp Cons t show ?thesis by (simp add: components_def)
  qed
  with drop n pre show ?thesis by (auto simp: prefix_def)
qed

section \<open>Directories\<close>

text \<open>\<open>fs::read_dir\<close> gives the path it was asked for joined with the names of the entries.\<close>

definition lists_joined :: "file_system \<Rightarrow> bool" where
  "lists_joined fs \<longleftrightarrow>
     (\<forall>d es q. read_dir fs d = Some es \<longrightarrow> q \<in> set es \<longrightarrow> (\<exists>n. simple_name n \<and> q = path_join d n))"

lemma lists_joinedD:
  "lists_joined fs \<Longrightarrow> read_dir fs d = Some es \<Longrightarrow> q \<in> set es \<Longrightarrow> \<exists>n. simple_name n \<and> q = path_join d n"
  by (simp add: lists_joined_def)

definition joined_spelling :: "path \<Rightarrow> bool" where
  "joined_spelling q \<longleftrightarrow>
     (case (parent q, file_name q) of (Some d, Some f) \<Rightarrow> simple_name f \<and> q = path_join d f | _ \<Rightarrow> False)"

lemma plain_fs_lists_joined:
  assumes "list_all joined_spelling (files @ dirs)" shows "lists_joined (plain_fs files dirs)"
  unfolding lists_joined_def
proof (intro allI impI)
  fix d es q assume "read_dir (plain_fs files dirs) d = Some es" "q \<in> set es"
  then have "q \<in> set (files @ dirs)" "parent q = Some d" by (auto simp: plain_fs_def split: if_split_asm)
  with assms have "joined_spelling q" "parent q = Some d" by (simp_all only: list_all_iff)
  then show "\<exists>n. simple_name n \<and> q = path_join d n"
    by (auto simp: joined_spelling_def split: option.split_asm)
qed

text \<open>\<open>Path::extension\<close> and \<open>Path::file_stem\<close>: cut at the last dot of the file name, if something is
  before it.\<close>

definition split_extension :: "string \<Rightarrow> string \<times> string option" where
  "split_extension f =
     (if f = ''..'' then (f, None)
      else let after = takeWhile (\<lambda>c. c \<noteq> CHR ''.'') (rev f); before = drop (Suc (length after)) (rev f)
           in if before = [] then (f, None) else (rev before, Some (rev after)))"

definition path_extension :: "path \<Rightarrow> string option" where
  "path_extension p = Option.bind (file_name p) (\<lambda>f. snd (split_extension f))"

definition file_stem :: "path \<Rightarrow> string option" where
  "file_stem p = map_option (\<lambda>f. fst (split_extension f)) (file_name p)"

end
