(* ===== verification/Win_Python.thy ===== *)
theory Win_Python
  imports Path_Walk Virtual_Envs
begin

text \<open>
  The WinPython locator, \<open>pet-winpython/src/lib.rs\<close>: the names of its directories, the climb from an
  interpreter to its installation, the environment that is built, the search paths, the search and its
  cache. The test for a virtual environment is an argument, because the files it looks for are others
  on Windows. \<open>try_from\<close> answers nothing outside Windows.
\<close>

section \<open>Names\<close>

definition winpython_marker_files :: "string list" where
  "winpython_marker_files = [''.winpython'', ''winpython.ini'']"

definition is_winpython_root :: "file_system \<Rightarrow> path \<Rightarrow> bool" where
  "is_winpython_root fs p \<longleftrightarrow> list_ex (\<lambda>marker. exists fs (path_join p marker)) winpython_marker_files"

text \<open>The expression \<open>(?i)^WPy(64|32)?-?\d+\<close>, its optional parts in every combination.\<close>

definition is_winpython_dir_name :: "string \<Rightarrow> bool" where
  "is_winpython_dir_name name \<longleftrightarrow>
     (case strip_prefix_str ''wpy'' (to_lowercase name) of
        None \<Rightarrow> False
      | Some rest \<Rightarrow>
          list_ex (\<lambda>bits. case strip_prefix_str bits rest of
              None \<Rightarrow> False
            | Some r \<Rightarrow> list_ex (\<lambda>dash. case strip_prefix_str dash r of
                  None \<Rightarrow> False
                | Some d \<Rightarrow> match_digits d \<noteq> None) [''-'', ''''])
            [''64'', ''32'', ''''])"

text \<open>The expression \<open>(?i)^python-\d+\.\d+\.\d+(\.(amd64|win32))?$\<close>.\<close>

definition is_python_folder_name :: "string \<Rightarrow> bool" where
  "is_python_folder_name name \<longleftrightarrow>
     (case strip_prefix_str ''python-'' (to_lowercase name) of
        None \<Rightarrow> False
      | Some rest \<Rightarrow> match_triple rest \<in> {Some '''', Some ''.amd64'', Some ''.win32''})"

definition strip_suffix_str :: "string \<Rightarrow> string \<Rightarrow> string option" where
  "strip_suffix_str suf s = (if suffix suf s then Some (take (length s - length suf) s) else None)"

definition version_from_folder_name :: "string \<Rightarrow> string option" where
  "version_from_folder_name name =
     map_option (\<lambda>stripped. unwrap_or (or_else (strip_suffix_str ''.amd64'' stripped) (strip_suffix_str ''.win32'' stripped)) stripped)
       (strip_prefix_str ''python-'' (to_lowercase name))"

section \<open>From an interpreter to its installation\<close>

record winpython_view =
  wv_os :: target_os
  wv_fs :: file_system
  wv_is_virtualenv :: "python_env \<Rightarrow> bool"

definition python_exe_name :: "target_os \<Rightarrow> string" where
  "python_exe_name os = (if os = Windows then ''python.exe'' else ''python'')"

definition find_python_folder_in_winpython :: "target_os \<Rightarrow> file_system \<Rightarrow> path \<Rightarrow> path option" where
  "find_python_folder_in_winpython os fs root =
     Option.bind (read_dir fs root) (List.find (\<lambda>p.
       is_dir fs p
       \<and> (case file_name p of
            None \<Rightarrow> False
          | Some name \<Rightarrow> is_python_folder_name name \<and> exists fs (path_join p (python_exe_name os)))))"

fun climb_to_winpython_root :: "target_os \<Rightarrow> file_system \<Rightarrow> nat \<Rightarrow> path \<Rightarrow> (path \<times> path) option" where
  "climb_to_winpython_root os fs 0 current = None"
| "climb_to_winpython_root os fs (Suc n) current =
     (let named = (case file_name current of None \<Rightarrow> False | Some name \<Rightarrow> is_winpython_dir_name name)
      in case (if is_winpython_root fs current \<or> named then find_python_folder_in_winpython os fs current else None) of
           Some folder \<Rightarrow> Some (current, folder)
         | None \<Rightarrow> Option.bind (parent current) (climb_to_winpython_root os fs n))"

definition find_winpython_root :: "target_os \<Rightarrow> file_system \<Rightarrow> path \<Rightarrow> (path \<times> path) option" where
  "find_winpython_root os fs exe = Option.bind (parent exe) (climb_to_winpython_root os fs 5)"

definition get_display_name :: "path \<Rightarrow> string option \<Rightarrow> string option" where
  "get_display_name root v =
     map_option (\<lambda>folder. case v of
         Some ver \<Rightarrow> ''WinPython '' @ ver
       | None \<Rightarrow> ''WinPython ('' @ folder @ '')'') (file_name root)"

definition push_new :: "path list \<Rightarrow> path \<Rightarrow> path list" where
  "push_new ps p = (if path_contains ps p then ps else ps @ [norm_case p])"

definition winpython_links :: "file_system \<Rightarrow> path \<Rightarrow> path \<Rightarrow> path list option \<Rightarrow> path list" where
  "winpython_links fs exe folder extra =
     (let scripts = path_join folder ''Scripts'';
          in_scripts = (if exists fs scripts
            then filter (\<lambda>p. case file_name p of
                None \<Rightarrow> False
              | Some n \<Rightarrow> prefix ''python'' (to_lowercase n) \<and> \<not> str_contains ''pip'' (to_lowercase n)) (find_executables fs scripts)
            else [])
      in path_sort (foldl push_new [] (exe # unwrap_or extra [] @ find_executables fs folder @ in_scripts)))"

definition winpython_environment ::
  "file_system \<Rightarrow> path \<Rightarrow> path \<Rightarrow> path \<Rightarrow> string option \<Rightarrow> path list option \<Rightarrow> python_environment" where
  "winpython_environment fs exe root folder explicit_version extra =
     (let v = or_else (Option.bind (file_name folder) version_from_folder_name) explicit_version
      in build (with_symlinks (Some (winpython_links fs (norm_case exe) folder extra)) (with_prefix (Some folder)
           (with_version v (with_executable (Some (norm_case exe)) (with_display_name (get_display_name root v)
             (builder_new (Some WinPython))))))))"

definition winpython_try_from :: "winpython_view \<Rightarrow> python_env \<Rightarrow> python_environment option" where
  "winpython_try_from wv env =
     (if wv_os wv \<noteq> Windows then None
      else if wv_is_virtualenv wv env then None
      else map_option (\<lambda>(root, folder).
             winpython_environment (wv_fs wv) (pe_executable env) root folder (pe_version env) (pe_symlinks env))
           (find_winpython_root (wv_os wv) (wv_fs wv) (pe_executable env)))"

definition winpython_search_paths :: "string option \<Rightarrow> string option \<Rightarrow> path list" where
  "winpython_search_paths userprofile winpython_home =
     foldl push_new []
       ((case userprofile of None \<Rightarrow> [] | Some home \<Rightarrow> if home = [] then [] else [path_join home ''WinPython''])
        @ (case winpython_home of None \<Rightarrow> [] | Some extra \<Rightarrow> filter (\<lambda>p. p \<noteq> []) (split_on (CHR '':'') extra)))"

section \<open>The search\<close>

text \<open>The state of the search: what was found, and the interpreters already seen.\<close>

definition collect_install ::
  "winpython_view \<Rightarrow> path \<Rightarrow> python_environment list \<times> path list \<Rightarrow> python_environment list \<times> path list" where
  "collect_install wv root st =
     (case st of (found, seen) \<Rightarrow>
        case find_python_folder_in_winpython (wv_os wv) (wv_fs wv) root of
          None \<Rightarrow> (found, seen)
        | Some folder \<Rightarrow>
            let exe = path_join folder (python_exe_name (wv_os wv))
            in if \<not> exists (wv_fs wv) exe \<or> path_contains seen (norm_case exe) then (found, seen)
               else (found @ to_list (winpython_try_from wv
                       \<lparr>pe_executable = norm_case exe, pe_prefix = Some (norm_case folder), pe_version = None, pe_symlinks = None\<rparr>),
                     seen @ [norm_case exe]))"

definition is_winpython_install :: "file_system \<Rightarrow> path \<Rightarrow> bool" where
  "is_winpython_install fs p \<longleftrightarrow>
     is_winpython_root fs p \<or> (case file_name p of None \<Rightarrow> False | Some name \<Rightarrow> is_winpython_dir_name name)"

definition winpython_installs :: "file_system \<Rightarrow> path \<Rightarrow> path list" where
  "winpython_installs fs p =
     (if \<not> exists fs p then []
      else if is_winpython_install fs p then [p]
      else filter (\<lambda>q. is_dir fs q \<and> is_winpython_install fs q) (unwrap_or (read_dir fs p) []))"

definition discover_environments_in :: "winpython_view \<Rightarrow> path list \<Rightarrow> python_environment list" where
  "discover_environments_in wv paths =
     fst (foldl (\<lambda>st root. collect_install wv root st) ([], []) (concat (map (winpython_installs (wv_fs wv)) paths)))"

definition winpython_find_with_cache ::
  "winpython_view \<Rightarrow> path list \<Rightarrow> python_environment list option \<Rightarrow> python_environment list" where
  "winpython_find_with_cache wv paths cache =
     (case cache of Some es \<Rightarrow> es | None \<Rightarrow> discover_environments_in wv paths)"

text \<open>\<open>find\<close> clears the cache first: what it reports, which the cache then holds.\<close>

definition winpython_find :: "winpython_view \<Rightarrow> path list \<Rightarrow> python_environment list option \<times> python_environment list" where
  "winpython_find wv paths =
     (if wv_os wv \<noteq> Windows then (None, [])
      else let es = winpython_find_with_cache wv paths None in (Some es, es))"

section \<open>Lemmas\<close>

lemma digit_lower [simp]: "is_digit (to_lower_char c) \<longleftrightarrow> is_digit c"
  by (auto simp: is_digit_def to_lower_char_def)

lemma digit_to_lower: "is_digit c \<Longrightarrow> to_lower_char c = c"
  by (auto simp: is_digit_def to_lower_char_def)

lemma to_lowercase_version: "to_lowercase (version_text a b c) = version_text a b c"
proof -
  have d: "map to_lower_char (show_nat n) = show_nat n" for n
    using show_nat_digits [of n] by (intro map_idI digit_to_lower) (auto simp: list_all_iff)
  have dot: "to_lower_char (CHR ''.'') = CHR ''.''" by code_simp
  show ?thesis by (simp add: to_lowercase_def version_text_def d dot)
qed

text \<open>A folder named after a version is recognised, in any case of its letters, and the version is
  read back.\<close>

lemma winpython_folder_version:
  assumes "to_lowercase name = ''python-'' @ version_text a b c @ rest" "rest \<in> {'''', ''.amd64'', ''.win32''}"
  shows "is_python_folder_name name" "version_from_folder_name name = Some (version_text a b c)"
proof -
  have "match_triple (version_text a b c @ rest) = Some rest"
    using assms(2) by (intro match_triple_text) (auto simp: is_digit_def)
  with assms show "is_python_folder_name name" by (auto simp: is_python_folder_name_def strip_prefix_str_def)
  have "set (version_text a b c) \<subseteq> {x. is_digit x \<or> x = CHR ''.''}"
    using show_nat_digits by (auto simp: version_text_def list_all_iff)
  then have "CHR ''m'' \<notin> set (version_text a b c)" "CHR ''w'' \<notin> set (version_text a b c)" by (auto simp: is_digit_def)
  then have no: "\<not> suffix ''.amd64'' (version_text a b c)" "\<not> suffix ''.win32'' (version_text a b c)"
    by (auto simp: suffix_def)
  show "version_from_folder_name name = Some (version_text a b c)"
    using assms no by (auto simp: version_from_folder_name_def strip_prefix_str_def strip_suffix_str_def or_else_def suffix_def)
qed

lemma python_folder_not_winpython: "is_python_folder_name name \<Longrightarrow> \<not> is_winpython_dir_name name"
  by (auto simp: is_python_folder_name_def is_winpython_dir_name_def strip_prefix_str_Some split: option.split_asm)

text \<open>An interpreter in the Python folder of an installation is identified with that folder.\<close>

lemma winpython_identified:
  assumes "parent exe = Some folder" "parent folder = Some root" "file_name folder = Some name" "is_python_folder_name name"
    and "\<not> is_winpython_root fs folder" "find_python_folder_in_winpython os fs root = Some folder"
    and "is_winpython_root fs root \<or> (\<exists>n. file_name root = Some n \<and> is_winpython_dir_name n)"
  shows "find_winpython_root os fs exe = Some (root, folder)"
  using assms python_folder_not_winpython [OF assms(4)]
  by (auto simp: find_winpython_root_def numeral_eq_Suc)

lemma push_new_keeps: "set ps \<subseteq> set (push_new ps p)" "components p \<in> components ` set (push_new ps p)"
  by (auto simp: push_new_def path_contains_iff norm_case_def)

lemma push_new_all: "components ` set (ps @ qs) \<subseteq> components ` set (foldl push_new ps qs)"
proof (induction qs arbitrary: ps)
  case (Cons q qs)
  have "components ` set (ps @ q # qs) \<subseteq> components ` set (push_new ps q @ qs)"
    using push_new_keeps(1) [of ps q] push_new_keeps(2) [of q ps] by auto
  from subset_trans [OF this Cons [of "push_new ps q"]] show ?case by (simp only: foldl_Cons)
qed simp

lemma winpython_claim: "winpython_try_from wv env = Some e \<Longrightarrow> claims WinPython (pe_executable env) e"
  by (auto simp: winpython_try_from_def winpython_environment_def norm_case_def Let_def simp del: not_None_eq split: if_split_asm)

text \<open>No path that was known before is lost.\<close>

lemma winpython_links_kept:
  assumes "winpython_try_from wv env = Some e" "l \<in> set (unwrap_or (pe_symlinks env) [])"
  shows "components l \<in> known_paths e"
proof -
  from assms(1) obtain root folder where
    "e = winpython_environment (wv_fs wv) (pe_executable env) root folder (pe_version env) (pe_symlinks env)"
    by (auto simp: winpython_try_from_def split: if_split_asm)
  then have "components ` set (winpython_links (wv_fs wv) (pe_executable env) folder (pe_symlinks env)) \<subseteq> known_paths e"
    by (simp add: winpython_environment_def norm_case_def Let_def known_paths_build)
  moreover have "set (unwrap_or extra []) \<subseteq> set ([] @ exe # unwrap_or extra [] @ rest)" for extra exe and rest :: "path list"
    by auto
  then have "components ` set (unwrap_or extra []) \<subseteq> components ` set (winpython_links fs exe folder extra)" for fs exe extra
    unfolding winpython_links_def Let_def path_sort_def set_sort by (rule subset_trans [OF image_mono push_new_all])
  ultimately show ?thesis using assms(2) by blast
qed

interpretation winpython: env_locator "\<lambda>env. Ret (winpython_try_from wv env)" "[WinPython]" for wv
  by unfold_locales (use winpython_claim claims_def in auto)

text \<open>Whatever is discovered is what \<open>try_from\<close> claims for the interpreter of a Python folder.\<close>

lemma discovered_claimed:
  assumes "e \<in> set (discover_environments_in wv paths)"
  shows "\<exists>env. winpython_try_from wv env = Some e"
proof -
  have keep: "\<forall>e \<in> set (fst (collect_install wv root st)). \<exists>env. winpython_try_from wv env = Some e"
    if "\<forall>e \<in> set (fst st). \<exists>env. winpython_try_from wv env = Some e" for root st
  proof (cases st)
    case (Pair found seen)
    with that show ?thesis
      by (cases "find_python_folder_in_winpython (wv_os wv) (wv_fs wv) root") (auto simp: collect_install_def Let_def)
  qed
  have "\<forall>e \<in> set (fst (foldl (\<lambda>st root. collect_install wv root st) st roots)). \<exists>env. winpython_try_from wv env = Some e"
    if "\<forall>e \<in> set (fst st). \<exists>env. winpython_try_from wv env = Some e" for st roots
    using that
  proof (induction roots arbitrary: st)
    case (Cons root roots)
    from Cons.IH [OF keep [OF Cons.prems]] show ?case by simp
  qed simp
  from this [of "([], [])"] assms show ?thesis unfolding discover_environments_in_def by fastforce
qed

text \<open>In an installation with two Python folders every interpreter gets the folder that is listed
  first, with its prefix and its version.\<close>

definition two_pythons_fs :: file_system where
  "two_pythons_fs =
     plain_fs [''/WPy64-31300/python-3.12.0/python'', ''/WPy64-31300/python-3.13.0/python'']
       [''/'', ''/WPy64-31300'', ''/WPy64-31300/python-3.12.0'', ''/WPy64-31300/python-3.13.0'']"

lemma winpython_first_folder:
  "find_winpython_root OtherUnix two_pythons_fs ''/WPy64-31300/python-3.13.0/python'' = Some (''/WPy64-31300'', ''/WPy64-31300/python-3.12.0'')"
  "version_from_folder_name ''python-3.12.0'' = Some ''3.12.0''"
  by code_simp+

end
