(* ===== verification/Poetry_Telemetry.thy ===== *)
theory Poetry_Telemetry
  imports Poetry "HOL-Library.Word"
begin

text \<open>
  What \<open>pet-poetry\<close> learns from running Poetry: \<open>environment_locations_spawn.rs\<close> reads its output,
  \<open>telemetry.rs\<close> compares it with what was found without it. The output of the process is an argument;
  the counters are 16 bits wide.
\<close>

section \<open>Running Poetry\<close>

text \<open>The executable, the working directory and the arguments give the output of a process that succeeds.\<close>

type_synonym poetry_process = "path \<Rightarrow> path \<Rightarrow> string list \<Rightarrow> string option"

definition activated_suffix :: string where
  "activated_suffix = '' (Activated)''"

text \<open>\<open>str::trim_end_matches\<close> of a text: as often as it ends with it.\<close>

function trim_end_str :: "string \<Rightarrow> string \<Rightarrow> string" where
  "trim_end_str pat s =
     (if pat \<noteq> [] \<and> suffix pat s then trim_end_str pat (take (length s - length pat) s) else s)"
  by pat_completeness auto
termination
  by (relation "measure (\<lambda>(pat, s). length s)") (auto simp: suffix_def)

declare trim_end_str.simps [simp del]

definition get_environments_spawn :: "poetry_process \<Rightarrow> path \<Rightarrow> path \<Rightarrow> path list option" where
  "get_environments_spawn run exe workspace_dir =
     map_option (\<lambda>out.
         map (\<lambda>l. trim (trim_end_str activated_suffix l))
           (filter (\<lambda>l. l \<noteq> []) (map (\<lambda>l. trim (trim_end_str activated_suffix l)) (lines out))))
       (run exe workspace_dir [''env'', ''list'', ''--full-path''])"

definition list_environments_spawn ::
  "poetry_process \<Rightarrow> decoder \<Rightarrow> file_system \<Rightarrow> path \<Rightarrow> path list \<Rightarrow> poetry_manager \<Rightarrow> python_environment list outcome" where
  "list_environments_spawn run decode fs exe workspace_dirs m =
     and_then (map_outcome (\<lambda>(w, d). create_poetry_env decode fs d w (Some m))
         (concat (map (\<lambda>w. map (Pair w) (unwrap_or (get_environments_spawn run exe w) [])) workspace_dirs)))
       (\<lambda>es. Ret (List.map_filter id es))"

definition get_config_value :: "poetry_process \<Rightarrow> path \<Rightarrow> path \<Rightarrow> string \<Rightarrow> string option" where
  "get_config_value run exe workspace_dir setting = run exe workspace_dir [''config'', setting]"

definition get_config_path :: "poetry_process \<Rightarrow> path \<Rightarrow> path \<Rightarrow> string \<Rightarrow> path option" where
  "get_config_path run exe workspace_dir setting = map_option trim (get_config_value run exe workspace_dir setting)"

definition get_config_bool :: "poetry_process \<Rightarrow> path \<Rightarrow> path \<Rightarrow> string \<Rightarrow> bool option" where
  "get_config_bool run exe workspace_dir setting =
     Option.bind (get_config_value run exe workspace_dir setting) (\<lambda>out.
       if prefix ''true'' (trim out) then Some True else if prefix ''false'' (trim out) then Some False else None)"

record spawned_config =
  sc_cache_dir :: "path option"
  sc_in_project :: "bool option"
  sc_virtualenvs_path :: "path option"

definition get_config :: "poetry_process \<Rightarrow> path \<Rightarrow> path \<Rightarrow> spawned_config" where
  "get_config run exe workspace_dir =
     \<lparr>sc_cache_dir = get_config_path run exe workspace_dir ''cache-dir'',
      sc_in_project = get_config_bool run exe workspace_dir ''virtualenvs.in-project'',
      sc_virtualenvs_path = get_config_path run exe workspace_dir ''virtualenvs.path''\<rparr>"

section \<open>What was missed\<close>

record missing_poetry_environments =
  mpe_missing :: "16 word"
  mpe_missing_in_path :: "16 word"
  mpe_user_provided_poetry_exe :: "bool option"
  mpe_poetry_exe_not_found :: "bool option"
  mpe_global_config_not_found :: "bool option"
  mpe_cache_dir_not_found :: "bool option"
  mpe_cache_dir_is_different :: "bool option"
  mpe_virtualenvs_path_not_found :: "bool option"
  mpe_virtualenvs_path_is_different :: "bool option"
  mpe_in_project_is_different :: "bool option"

definition prefixes_of_project :: "path \<Rightarrow> python_environment list \<Rightarrow> path list" where
  "prefixes_of_project w es =
     List.map_filter env_prefix (filter (\<lambda>e. case project e of Some p \<Rightarrow> path_eq p w | None \<Rightarrow> False) es)"

text \<open>The prefixes of Poetry that were not found, each once.\<close>

definition missing_prefixes :: "path \<Rightarrow> python_environment list \<Rightarrow> locator_result option \<Rightarrow> path list" where
  "missing_prefixes w spawned ours =
     sort_dedup (filter (\<lambda>p. \<not> path_contains (prefixes_of_project w (case ours of Some r \<Rightarrow> lr_environments r | None \<Rightarrow> [])) p)
       (prefixes_of_project w spawned))"

text \<open>Whether a directory of the configuration was not found, or is another one that exists.\<close>

definition dir_not_found :: "path option \<Rightarrow> bool option" where
  "dir_not_found found = (if found = None then Some True else None)"

definition dir_is_different :: "file_system \<Rightarrow> path option \<Rightarrow> path option \<Rightarrow> bool option" where
  "dir_is_different fs found spawned =
     (case (found, spawned) of
        (Some d, Some p) \<Rightarrow> if exists fs p \<and> \<not> path_eq d p then Some True else None
      | _ \<Rightarrow> None)"

definition workspace_missing_envs ::
  "poetry_process \<Rightarrow> poetry_context \<Rightarrow> path \<Rightarrow> python_environment list \<Rightarrow> locator_result option \<Rightarrow> bool \<Rightarrow> path
   \<Rightarrow> missing_poetry_environments option" where
  "workspace_missing_envs run px exe spawned ours user_provided w =
     (let fs = px_fs px; pv = px_poetry_vars px; config = get_config run exe w;
          global = find_global (px_toml px) (px_os px) (px_vars px) fs pv;
          local = find_local (px_toml px) (px_os px) (px_vars px) fs w pv;
          venvs = or_else (map_option pc_virtualenvs_path local) (map_option pc_virtualenvs_path global);
          in_project = or_else (Option.bind local pc_in_project) (Option.bind global pc_in_project);
          cache_dir = or_else (Option.bind local pc_cache_dir) (Option.bind global pc_cache_dir);
          missing = missing_prefixes w spawned ours
      in if missing = [] then None
         else Some
           \<lparr>mpe_missing = of_nat (length missing),
            mpe_missing_in_path =
              (case sc_virtualenvs_path config of
                 None \<Rightarrow> 0
               | Some p \<Rightarrow> of_nat (length (filter (\<lambda>e. path_starts_with e p) missing))),
            mpe_user_provided_poetry_exe = Some user_provided,
            mpe_poetry_exe_not_found = map_option (\<lambda>r. lr_managers r = []) ours,
            mpe_global_config_not_found = Some (global = None),
            mpe_cache_dir_not_found = dir_not_found cache_dir,
            mpe_cache_dir_is_different = dir_is_different fs cache_dir (sc_cache_dir config),
            mpe_virtualenvs_path_not_found = dir_not_found venvs,
            mpe_virtualenvs_path_is_different = dir_is_different fs venvs (sc_virtualenvs_path config),
            mpe_in_project_is_different =
              (if (in_project \<noteq> None \<or> sc_in_project config \<noteq> None) \<and> in_project \<noteq> sc_in_project config then Some True else None)\<rparr>)"

text \<open>The telemetry, one event for each workspace that missed something.\<close>

definition report_missing_poetry_envs ::
  "poetry_process \<Rightarrow> poetry_context \<Rightarrow> path \<Rightarrow> path list \<Rightarrow> python_environment list \<Rightarrow> locator_result option \<Rightarrow> bool
   \<Rightarrow> missing_poetry_environments list" where
  "report_missing_poetry_envs run px exe workspace_dirs spawned ours user_provided =
     List.map_filter (workspace_missing_envs run px exe spawned ours user_provided) workspace_dirs"

text \<open>\<open>find_and_report_missing_envs\<close>; without a Poetry executable it gives nothing.\<close>

definition find_and_report_missing_poetry_envs ::
  "poetry_process \<Rightarrow> poetry_context \<Rightarrow> path option \<Rightarrow> poetry \<Rightarrow> missing_poetry_environments list option outcome" where
  "find_and_report_missing_poetry_envs run px poetry_exe po =
     (case poetry_manager_find (px_os px) (px_fs px) poetry_exe (px_poetry_vars px) of
        None \<Rightarrow> Ret None
      | Some m \<Rightarrow>
          and_then (list_environments_spawn run (px_decode px) (px_fs px) (pm_executable m) (po_workspace_directories po) m)
            (\<lambda>spawned. Ret (Some (report_missing_poetry_envs run px (pm_executable m) (po_workspace_directories po) spawned
               (po_search_result po) (poetry_exe \<noteq> None)))))"

section \<open>Lemmas\<close>

lemma trim_end_str_once:
  assumes "pat \<noteq> []" "\<not> suffix pat s"
  shows "trim_end_str pat s = s" "trim_end_str pat (s @ pat) = s"
proof -
  show stop: "trim_end_str pat s = s" using assms by (subst trim_end_str.simps) simp
  have "trim_end_str pat (s @ pat) = trim_end_str pat s" using assms(1) by (subst trim_end_str.simps) (simp add: suffix_def)
  with stop show "trim_end_str pat (s @ pat) = s" by simp
qed

lemma lines_written:
  assumes "\<forall>l \<in> set ls. CHR 0x0A \<notin> set l \<and> strip_cr l = l"
  shows "lines (concat (map (\<lambda>l. l @ [CHR 0x0A]) ls)) = ls"
proof -
  have "split_on (CHR 0x0A) (concat (map (\<lambda>l. l @ [CHR 0x0A]) ls)) = ls @ [[]]"
    using assms by (induction ls) (auto simp: split_on_append_sep split_on_no_sep)
  moreover have "map strip_cr ls = ls" using assms by (simp add: map_idI)
  ultimately show ?thesis by (simp add: lines_def)
qed

text \<open>The directories that Poetry lists are read back, with the active one marked or not.\<close>

definition poetry_list_line :: "path \<times> bool \<Rightarrow> string" where
  "poetry_list_line l = fst l @ (if snd l then activated_suffix else [])"

definition plain_directory :: "path \<Rightarrow> bool" where
  "plain_directory p \<longleftrightarrow>
     p \<noteq> [] \<and> CHR 0x0A \<notin> set p \<and> \<not> is_space (hd p) \<and> \<not> is_space (last p) \<and> \<not> suffix activated_suffix p"

lemma plain_directory_line:
  assumes "plain_directory (fst l)"
  shows "trim (trim_end_str activated_suffix (poetry_list_line l)) = fst l" "trim (trim_end_str activated_suffix (fst l)) = fst l"
    "CHR 0x0A \<notin> set (poetry_list_line l)" "strip_cr (poetry_list_line l) = poetry_list_line l"
proof -
  note p = assms [unfolded plain_directory_def]
  have t: "trim (fst l) = fst l" using trim_padded [of "fst l" "[]"] p by simp
  have a: "activated_suffix \<noteq> []" "CHR 0x0A \<notin> set activated_suffix" "last activated_suffix \<noteq> CHR 0x0D"
    by (simp_all add: activated_suffix_def)
  from p t a trim_end_str_once [of activated_suffix "fst l"]
  show "trim (trim_end_str activated_suffix (poetry_list_line l)) = fst l" "trim (trim_end_str activated_suffix (fst l)) = fst l"
    by (simp_all add: poetry_list_line_def)
  from p a show "CHR 0x0A \<notin> set (poetry_list_line l)" by (auto simp: poetry_list_line_def)
  have "last (fst l) \<noteq> CHR 0x0D" using p by (auto simp: is_space_def)
  with p a show "strip_cr (poetry_list_line l) = poetry_list_line l" by (simp add: strip_cr_def poetry_list_line_def)
qed

lemma get_environments_spawn_listed:
  assumes "run exe w [''env'', ''list'', ''--full-path''] = Some (concat (map (\<lambda>l. poetry_list_line l @ [CHR 0x0A]) ls))"
    and "\<forall>l \<in> set ls. plain_directory (fst l)"
  shows "get_environments_spawn run exe w = Some (map fst ls)"
proof -
  from assms(2) have line: "plain_directory (fst l)" if "l \<in> set ls" for l using that by blast
  have "lines (concat (map (\<lambda>l. poetry_list_line l @ [CHR 0x0A]) ls)) = map poetry_list_line ls"
    using lines_written [of "map poetry_list_line ls"] line plain_directory_line by (simp add: o_def)
  moreover have "map (\<lambda>l. trim (trim_end_str activated_suffix l)) (map poetry_list_line ls) = map fst ls"
    using line plain_directory_line by simp
  moreover have "filter (\<lambda>l. l \<noteq> []) (map fst ls) = map fst ls"
    using line by (intro filter_True) (auto simp: plain_directory_def)
  moreover have "map (\<lambda>l. trim (trim_end_str activated_suffix l)) (map fst ls) = map fst ls"
    using line plain_directory_line by simp
  ultimately show ?thesis using assms(1) unfolding get_environments_spawn_def by (simp only: option.map)
qed

end
