(* ===== verification/Pyenv.thy ===== *)
theory Pyenv
  imports Conda Os_Environment Path_Walk
begin

text \<open>
  The pyenv locator, \<open>pet-pyenv/src\<close>, in its Unix configuration: finding the installation, the
  memo of the manager and the versions directory, and the environments below that directory. Conda
  environments there are handed to the Conda locator. The threads of \<open>find\<close> are run one after the
  other. The regular expressions are written as matchers with the backtracking order of the engine.
\<close>

section \<open>Regular expressions\<close>

text \<open>A matcher gives the possible rests of a text in the order in which the engine tries them.\<close>

type_synonym matcher_fn = "string \<Rightarrow> string list"

definition re_char :: "(char \<Rightarrow> bool) \<Rightarrow> matcher_fn" where
  "re_char P s = (case s of c # cs \<Rightarrow> if P c then [cs] else [] | [] \<Rightarrow> [])"

definition re_plus :: "(char \<Rightarrow> bool) \<Rightarrow> matcher_fn" where
  "re_plus P s = map (\<lambda>k. drop k s) (rev [1..<Suc (length (takeWhile P s))])"

fun re_seq :: "matcher_fn list \<Rightarrow> matcher_fn" where
  "re_seq [] s = [s]"
| "re_seq (m # ms) s = concat (map (re_seq ms) (m s))"

text \<open>The text of the first match at the start.\<close>

definition re_capture :: "matcher_fn \<Rightarrow> string \<Rightarrow> string option" where
  "re_capture m s = (case m s of [] \<Rightarrow> None | r # _ \<Rightarrow> Some (take (length s - length r) s))"

definition is_word_char :: "char \<Rightarrow> bool" where
  "is_word_char c \<longleftrightarrow> is_digit c \<or> CHR ''A'' \<le> c \<and> c \<le> CHR ''Z'' \<or> CHR ''a'' \<le> c \<and> c \<le> CHR ''z'' \<or> c = CHR ''_''"

definition beta_matcher :: "matcher_fn list" where
  "beta_matcher =
     [re_plus is_digit, re_char ((=) (CHR ''.'')), re_plus is_digit, re_char (\<lambda>c. c \<noteq> CHR 0x0A),
      re_plus is_digit, re_char is_word_char, re_plus is_digit]"

section \<open>Versions in directory names\<close>

definition pure_python_version :: "string \<Rightarrow> string option" where
  "pure_python_version s = (if match_triple s = Some [] then Some s else None)"

definition dev_python_version :: "string \<Rightarrow> string option" where
  "dev_python_version s =
     (case Option.bind (match_digits s) (\<lambda>r1. Option.bind (match_char (CHR ''.'') r1) (\<lambda>r2.
           Option.bind (match_digits r2) (match_char (CHR ''-'')))) of
        Some rest \<Rightarrow> if CHR 0x0A \<in> set rest then None else Some s
      | None \<Rightarrow> None)"

definition beta_python_version :: "string \<Rightarrow> string option" where
  "beta_python_version s = re_capture (re_seq beta_matcher) s"

text \<open>The group of the last expression is what the beta expression matches before \<open>-win32\<close>.\<close>

definition win32_python_version :: "string \<Rightarrow> string option" where
  "win32_python_version s =
     (case filter (prefix ''-win32'') (re_seq beta_matcher s) of
        [] \<Rightarrow> None
      | r # _ \<Rightarrow> Some (take (length s - length r) s))"

definition pyenv_get_version :: "string \<Rightarrow> string option" where
  "pyenv_get_version folder_name =
     (case pure_python_version folder_name of
        Some v \<Rightarrow> Some v
      | None \<Rightarrow>
          (case dev_python_version folder_name of
             Some v \<Rightarrow> Some v
           | None \<Rightarrow>
               (case beta_python_version folder_name of
                  Some v \<Rightarrow> Some v
                | None \<Rightarrow> win32_python_version folder_name)))"

section \<open>Environments\<close>

definition get_generic_python_environment ::
  "file_system \<Rightarrow> path \<Rightarrow> path \<Rightarrow> env_manager option \<Rightarrow> python_environment option" where
  "get_generic_python_environment fs exe p mgr =
     map_option (\<lambda>f.
       let ver = or_else (from_header_files fs p) (pyenv_get_version f);
           a = (if suffix ''-win32'' f then Some X86 else None)
       in build (with_symlinks (Some (find_executables fs p)) (with_arch a (with_manager mgr
            (with_prefix (Some p) (with_version ver (with_executable (Some exe)
            (builder_new (Some environment_kind.Pyenv)))))))))
       (file_name p)"

definition get_virtual_env_environment ::
  "file_system \<Rightarrow> path \<Rightarrow> path \<Rightarrow> env_manager option \<Rightarrow> python_environment option outcome" where
  "get_virtual_env_environment fs exe p mgr =
     and_then (from_pyvenv_cfg fs p) (\<lambda>v.
       Ret (map_option (\<lambda>ver.
         build (with_symlinks (Some (find_executables fs p)) (with_manager mgr (with_prefix (Some p)
           (with_version (Some ver) (with_executable (Some exe) (builder_new (Some PyenvVirtualEnv)))))))) v))"

text \<open>One or the other, as both \<open>try_from\<close> and \<open>find\<close> do.\<close>

definition pyenv_environment ::
  "file_system \<Rightarrow> path \<Rightarrow> path \<Rightarrow> env_manager option \<Rightarrow> python_environment option outcome" where
  "pyenv_environment fs exe p mgr =
     and_then (get_virtual_env_environment fs exe p mgr) (\<lambda>e.
       Ret (case e of Some e \<Rightarrow> Some e | None \<Rightarrow> get_generic_python_environment fs exe p mgr))"

section \<open>The installation\<close>

record pyenv_vars =
  ev_home :: "path option"
  ev_root :: "path option"
  ev_path :: "string option"
  ev_pyenv_root :: "string option"
  ev_pyenv :: "string option"
  ev_known_global_search_locations :: "path list"

definition pyenv_vars_from :: "env_vars \<Rightarrow> path list \<Rightarrow> pyenv_vars" where
  "pyenv_vars_from vars locations =
     \<lparr>ev_home = os_user_home vars, ev_root = None, ev_path = vars ''PATH'', ev_pyenv_root = vars ''PYENV_ROOT'',
      ev_pyenv = vars ''PYENV'', ev_known_global_search_locations = locations\<rparr>"

record pyenv_world =
  pw_conda :: conda_world
  pw_read_link :: "path \<Rightarrow> path option"
  pw_vars :: pyenv_vars

abbreviation pw_fs :: "pyenv_world \<Rightarrow> file_system" where
  "pw_fs w \<equiv> cx_fs (pw_conda w)"

definition get_home_pyenv_dir :: "pyenv_vars \<Rightarrow> path option" where
  "get_home_pyenv_dir ev = map_option (\<lambda>h. norm_case (path_join h ''.pyenv'')) (ev_home ev)"

definition get_binary_from_known_paths :: "file_system \<Rightarrow> pyenv_vars \<Rightarrow> path option" where
  "get_binary_from_known_paths fs ev =
     map_option norm_case (List.find (is_file fs)
       (map (\<lambda>d. path_join d ''pyenv'') (ev_known_global_search_locations ev)))"

definition get_pyenv_dir :: "pyenv_vars \<Rightarrow> path option" where
  "get_pyenv_dir ev = or_else (ev_pyenv_root ev) (ev_pyenv ev)"

text \<open>The expression \<open>pyenv/((\d+\.?)*)/\<close> at the first place where it matches.\<close>

definition get_pyenv_manager_version :: "(path \<Rightarrow> path option) \<Rightarrow> path \<Rightarrow> string option" where
  "get_pyenv_manager_version read_link exe =
     Option.bind (read_link exe) (\<lambda>real. find_map (groups_after ''pyenv/'') (tails real))"

record pyenv_info =
  pi_exe :: "path option"
  pi_versions :: "path option"
  pi_version :: "string option"

definition existing :: "file_system \<Rightarrow> path \<Rightarrow> path option" where
  "existing fs p = (if exists fs p then Some p else None)"

definition get_pyenv_info :: "pyenv_world \<Rightarrow> pyenv_info" where
  "get_pyenv_info w =
     (let fs = pw_fs w; ev = pw_vars w; dir = get_pyenv_dir ev; home = get_home_pyenv_dir ev;
          exe_in = (\<lambda>d. existing fs (path_join (path_join d ''bin'') ''pyenv''));
          versions_in = (\<lambda>d. existing fs (path_join d ''versions''));
          exe1 = or_else (get_binary_from_known_paths fs ev) (Option.bind dir exe_in);
          versions1 = Option.bind dir versions_in;
          exe2 = or_else exe1 (Option.bind home exe_in);
          versions2 = or_else versions1 (Option.bind home versions_in)
      in \<lparr>pi_exe = exe2, pi_versions = versions2,
          pi_version = Option.bind exe2 (get_pyenv_manager_version (pw_read_link w))\<rparr>)"

section \<open>The locator\<close>

record pyenv =
  py_manager :: "env_manager option"
  py_versions_dir :: "path option"

definition pyenv_clear :: "pyenv \<Rightarrow> pyenv" where
  "pyenv_clear py = py\<lparr>py_manager := None, py_versions_dir := None\<rparr>"

definition get_manager_versions_dir :: "pyenv_world \<Rightarrow> pyenv \<Rightarrow> pyenv" where
  "get_manager_versions_dir w py =
     (if py_manager py = None \<or> py_versions_dir py = None
      then let i = get_pyenv_info w
           in py\<lparr>py_manager := map_option (\<lambda>exe.
                     \<lparr>mgr_executable = exe, mgr_version = pi_version i, mgr_tool = MgrPyenv\<rparr>) (pi_exe i),
                py_versions_dir := pi_versions i\<rparr>
      else py)"

definition pyenv_try_from ::
  "pyenv_world \<Rightarrow> python_env \<Rightarrow> pyenv \<Rightarrow> (pyenv \<times> python_environment option) outcome" where
  "pyenv_try_from w env py =
     (let fs = pw_fs w in
      if (case pe_prefix env of Some p \<Rightarrow> is_conda_env fs p | None \<Rightarrow> False) then Ret (py, None)
      else case parent (pe_executable env) of
             None \<Rightarrow> Ret (py, None)
           | Some bin \<Rightarrow>
               if is_conda_env fs bin then Ret (py, None)
               else (case parent bin of
                       None \<Rightarrow> Ret (py, None)
                     | Some d \<Rightarrow>
                         if is_conda_env fs d then Ret (py, None)
                         else let py' = get_manager_versions_dir w py
                              in case (py_versions_dir py', pe_prefix env) of
                                   (Some versions, Some p) \<Rightarrow>
                                     if path_starts_with (pe_executable env) versions
                                     then and_then (pyenv_environment fs (pe_executable env) p (py_manager py')) (\<lambda>e. Ret (py', e))
                                     else Ret (py', None)
                                 | _ \<Rightarrow> Ret (py', None)))"

text \<open>One thread of \<open>find\<close>.\<close>

definition pyenv_find_path ::
  "pyenv_world \<Rightarrow> env_manager option \<Rightarrow> path \<Rightarrow> conda \<Rightarrow> (conda \<times> notification list) outcome" where
  "pyenv_find_path w mgr p co =
     (case find_executable (pw_fs w) p of
        None \<Rightarrow> Ret (co, [])
      | Some exe \<Rightarrow>
          if is_conda_env (pw_fs w) p then conda_find_and_report (pw_conda w) p co
          else and_then (pyenv_environment (pw_fs w) exe p mgr) (\<lambda>e.
                 Ret (co, map EnvironmentNote (to_list e))))"

fun pyenv_find_paths ::
  "pyenv_world \<Rightarrow> env_manager option \<Rightarrow> path list \<Rightarrow> conda \<Rightarrow> (conda \<times> notification list) outcome" where
  "pyenv_find_paths w mgr [] co = Ret (co, [])"
| "pyenv_find_paths w mgr (p # ps) co =
     and_then (pyenv_find_path w mgr p co) (\<lambda>(co1, ns1).
     and_then (pyenv_find_paths w mgr ps co1) (\<lambda>(co2, ns2). Ret (co2, ns1 @ ns2)))"

definition pyenv_find ::
  "pyenv_world \<Rightarrow> pyenv \<Rightarrow> conda \<Rightarrow> (pyenv \<times> conda \<times> notification list) outcome" where
  "pyenv_find w py co =
     (let py' = get_manager_versions_dir w (pyenv_clear py)
      in and_then (case py_versions_dir py' of
                     None \<Rightarrow> Ret (co, [])
                   | Some d \<Rightarrow> pyenv_find_paths w (py_manager py') (unwrap_or (read_dir (pw_fs w) d) []) co) (\<lambda>(co', ns).
           Ret (py', co', map ManagerNote (to_list (py_manager py')) @ ns)))"

section \<open>The contract of a locator\<close>

lemma pyenv_environment_claims:
  assumes "pyenv_environment fs exe p mgr = Ret (Some e)"
  shows "claims environment_kind.Pyenv exe e \<or> claims PyenvVirtualEnv exe e"
  using assms
  by (auto simp: pyenv_environment_def get_virtual_env_environment_def get_generic_python_environment_def
      and_then_Ret Let_def simp del: not_None_eq split: option.split_asm)

lemma pyenv_try_from_Some:
  assumes "pyenv_try_from w env py = Ret (py', Some e)"
  shows "\<exists>p mgr. pyenv_environment (pw_fs w) (pe_executable env) p mgr = Ret (Some e)"
  using assms
  by (auto simp: pyenv_try_from_def Let_def and_then_Ret split: if_split_asm option.split_asm)

interpretation pyenv: env_locator
  "\<lambda>env. and_then (pyenv_try_from w env py) (\<lambda>(_, e). Ret e)" "[environment_kind.Pyenv, PyenvVirtualEnv]" for w py
  by unfold_locales (auto simp: and_then_Ret claims_def dest!: pyenv_try_from_Some pyenv_environment_claims)

section \<open>Properties\<close>

text \<open>The expression for 32-bit versions never decides: whatever it matches, the expression for
  alpha and release candidate versions matches before it, so only three expressions count; the name
  that the comment gives as its example is not recognised at all, nor is the name of a stable 32-bit
  version.\<close>

theorem pyenv_win32_never_decides:
  "pyenv_get_version s =
     or_else (pure_python_version s) (or_else (dev_python_version s) (beta_python_version s))
   \<and> pyenv_get_version ''3.11.0a-win32'' = None \<and> pyenv_get_version ''3.11.0-win32'' = None"
proof -
  have "win32_python_version s = None" if "beta_python_version s = None" for s
  proof -
    from that have "re_seq beta_matcher s = []" by (auto simp: beta_python_version_def re_capture_def split: list.split_asm)
    then show ?thesis by (simp add: win32_python_version_def)
  qed
  then have "pyenv_get_version s =
      or_else (pure_python_version s) (or_else (dev_python_version s) (beta_python_version s))"
    by (auto simp: pyenv_get_version_def or_else_def split: option.split)
  moreover have "pyenv_get_version ''3.11.0a-win32'' = None" by code_simp
  moreover have "pyenv_get_version ''3.11.0-win32'' = None" by code_simp
  ultimately show ?thesis by blast
qed

lemma get_manager_versions_dir_idem [simp]:
  "get_manager_versions_dir w (get_manager_versions_dir w (pyenv_clear py)) = get_manager_versions_dir w (pyenv_clear py)"
  by (simp add: get_manager_versions_dir_def pyenv_clear_def Let_def)

lemma versions_dir_spelling:
  assumes "py_versions_dir (get_manager_versions_dir w (pyenv_clear py)) = Some d"
  shows "\<exists>x. d = path_join x ''versions''"
  using assms
  by (auto simp: get_manager_versions_dir_def pyenv_clear_def get_pyenv_info_def existing_def or_else_def Let_def
      bind_eq_Some_conv split: option.split_asm if_split_asm)

lemma pyenv_find_paths_member:
  assumes "p \<in> set ps" "pyenv_find_paths w mgr ps co = Ret (co', ns)"
  shows "\<exists>co1 co2 ns1. pyenv_find_path w mgr p co1 = Ret (co2, ns1) \<and> set ns1 \<subseteq> set ns"
  using assms
proof (induction ps arbitrary: co ns)
  case (Cons q ps)
  from Cons.prems(2) obtain co1 ns1 ns2 where
    r: "pyenv_find_path w mgr q co = Ret (co1, ns1)" "pyenv_find_paths w mgr ps co1 = Ret (co', ns2)" "ns = ns1 @ ns2"
    by (auto simp: and_then_Ret)
  show ?case
  proof (cases "p = q")
    case True
    with r show ?thesis by auto
  next
    case False
    with Cons.prems(1) Cons.IH [OF _ r(2)] r(3) show ?thesis by fastforce
  qed
qed simp

lemma pyenv_environment_total:
  "pyenv_environment fs exe p mgr = Ret e \<Longrightarrow> file_name p \<noteq> None \<Longrightarrow> e \<noteq> None"
  by (auto simp: pyenv_environment_def and_then_Ret get_generic_python_environment_def split: option.splits)

text \<open>No environment of Conda in the directories around an interpreter of pyenv.\<close>

definition no_conda_around :: "file_system \<Rightarrow> path \<Rightarrow> path \<Rightarrow> bool" where
  "no_conda_around fs versions p \<longleftrightarrow>
     \<not> is_conda_env fs versions \<and> \<not> is_conda_env fs p \<and> \<not> is_conda_env fs (path_join p ''bin'')"

lemma find_executable_parents:
  assumes "find_executable fs p = Some exe" "p = path_join d n" "d = path_join x m" "simple_name n" "simple_name m"
  shows "parent exe = Some (path_join p ''bin'') \<and> parent (path_join p ''bin'') = Some p \<or> parent exe = Some p \<and> parent p = Some d"
    and "path_starts_with exe d"
proof -
  have lit: "simple_name ''bin''" "simple_name ''python''" "simple_name ''python3''" by (simp_all add: simple_name_def)
  from assms(1) have "exe \<in> set (executable_candidates p)" by (auto simp: find_executable_def find_Some_iff)
  then consider "exe = path_join (path_join p ''bin'') ''python''" | "exe = path_join (path_join p ''bin'') ''python3''"
    | "exe = path_join p ''python''" | "exe = path_join p ''python3''" by (auto simp: executable_candidates_def)
  then show "parent exe = Some (path_join p ''bin'') \<and> parent (path_join p ''bin'') = Some p \<or> parent exe = Some p \<and> parent p = Some d"
    by cases (use assms lit in \<open>simp_all add: parent_join_join\<close>)
  from find_executable_components [OF assms(1)] show "path_starts_with exe d"
    using assms(2,4) by (auto simp: path_starts_with_def path_simps)
qed

text \<open>C29: A refresh of pyenv misses no version: for every directory of the versions directory with
  an interpreter that is not an environment of Conda, \<open>find\<close> reports an environment, and looking
  that interpreter up afterwards gives the same environment, with the memo of the installation left
  as it is.\<close>

theorem pyenv_find_complete:
  assumes "lists_joined (pw_fs w)" "pyenv_find w py co = Ret (py', co', ns)"
    and "py_versions_dir py' = Some versions" "read_dir (pw_fs w) versions = Some ps" "p \<in> set ps"
    and "find_executable (pw_fs w) p = Some exe" "no_conda_around (pw_fs w) versions p"
  shows "\<exists>e. EnvironmentNote e \<in> set ns
    \<and> pyenv_try_from w \<lparr>pe_executable = exe, pe_prefix = Some p, pe_version = v, pe_symlinks = l\<rparr> py' = Ret (py', Some e)"
proof -
  from assms(2) have py': "py' = get_manager_versions_dir w (pyenv_clear py)"
    by (auto simp: pyenv_find_def Let_def and_then_Ret)
  with assms(2-4) obtain ns' where r: "pyenv_find_paths w (py_manager py') ps co = Ret (co', ns')" "set ns' \<subseteq> set ns"
    by (auto simp: pyenv_find_def Let_def and_then_Ret)
  from pyenv_find_paths_member [OF assms(5) r(1)] obtain co1 co2 ns1 where
    p: "pyenv_find_path w (py_manager py') p co1 = Ret (co2, ns1)" "set ns1 \<subseteq> set ns'" by blast
  with assms(6,7) obtain r' where env: "pyenv_environment (pw_fs w) exe p (py_manager py') = Ret r'"
    "ns1 = map EnvironmentNote (to_list r')" by (auto simp: pyenv_find_path_def no_conda_around_def and_then_Ret)
  from lists_joinedD [OF assms(1,4,5)] obtain n where n: "simple_name n" "p = path_join versions n" by blast
  then have "file_name p \<noteq> None" by (simp add: path_simps)
  with pyenv_environment_total [OF env(1)] obtain e where e: "r' = Some e" by blast
  from versions_dir_spelling [of w py versions] assms(3) py' obtain x where x: "versions = path_join x ''versions''" by blast
  have "simple_name ''versions''" by (simp add: simple_name_def)
  note par = find_executable_parents [OF assms(6) n(2) x n(1) this]
  have "get_manager_versions_dir w py' = py'" by (simp add: py')
  with par env e assms(3,7)
  have "pyenv_try_from w \<lparr>pe_executable = exe, pe_prefix = Some p, pe_version = v, pe_symlinks = l\<rparr> py' = Ret (py', Some e)"
    by (auto simp: pyenv_try_from_def Let_def no_conda_around_def)
  with env e p r show ?thesis by auto
qed

text \<open>One version, \<open>/r/versions/a\<close>.\<close>

definition pyenv_demo_fs :: file_system where
  "pyenv_demo_fs = plain_fs [''/r/versions/a/bin/python''] [''/r'', ''/r/versions'', ''/r/versions/a'', ''/r/versions/a/bin'']"

definition pyenv_demo_world :: pyenv_world where
  "pyenv_demo_world =
     \<lparr>pw_conda =
        \<lparr>cx_os = OtherUnix, cx_vars = (\<lambda>_. None), cx_fs = pyenv_demo_fs, cx_yaml = (\<lambda>_. None), cx_meta = (\<lambda>_. None),
         cx_env = conda_vars_from [] (\<lambda>_. None), cw_metadata = (\<lambda>_. MetaNotFound)\<rparr>,
      pw_read_link = (\<lambda>_. None),
      pw_vars = pyenv_vars_from (\<lambda>k. if k = ''PYENV_ROOT'' then Some ''/r'' else None) []\<rparr>"

theorem pyenv_find_complete_witness:
  "\<exists>py' co' ns e. pyenv_find pyenv_demo_world \<lparr>py_manager = None, py_versions_dir = None\<rparr> conda_new = Ret (py', co', ns)
    \<and> EnvironmentNote e \<in> set ns
    \<and> pyenv_try_from pyenv_demo_world
        \<lparr>pe_executable = ''/r/versions/a/bin/python'', pe_prefix = Some ''/r/versions/a'', pe_version = None, pe_symlinks = None\<rparr> py'
        = Ret (py', Some e)"
proof -
  let ?w = pyenv_demo_world and ?py = "\<lparr>py_manager = None, py_versions_dir = None\<rparr>"
  let ?py' = "get_manager_versions_dir ?w (pyenv_clear ?py)"
  have fs: "pw_fs ?w = pyenv_demo_fs" by (simp add: pyenv_demo_world_def)
  have v: "py_versions_dir ?py' = Some ''/r/versions''" by code_simp
  have ps: "read_dir (pw_fs ?w) ''/r/versions'' = Some [''/r/versions/a'']" by code_simp
  have exe: "find_executable (pw_fs ?w) ''/r/versions/a'' = Some ''/r/versions/a/bin/python''" by code_simp
  have conda: "no_conda_around (pw_fs ?w) ''/r/versions'' ''/r/versions/a''" by code_simp
  have cfg: "from_pyvenv_cfg (pw_fs ?w) ''/r/versions/a'' = Ret None" by code_simp
  from conda have "\<not> is_conda_env (pw_fs ?w) ''/r/versions/a''" by (simp add: no_conda_around_def)
  with exe cfg obtain e co' where
    "pyenv_find_path ?w (py_manager ?py') ''/r/versions/a'' conda_new = Ret (co', e)"
    by (simp add: pyenv_find_path_def pyenv_environment_def get_virtual_env_environment_def)
  with v ps obtain ns where find: "pyenv_find ?w ?py conda_new = Ret (?py', co', ns)"
    by (auto simp: pyenv_find_def Let_def)
  have "lists_joined (pw_fs ?w)"
    unfolding fs pyenv_demo_fs_def by (rule plain_fs_lists_joined) code_simp
  from pyenv_find_complete [OF this find v ps _ exe conda] find show ?thesis by fastforce
qed

end
