(* ===== verification/Uv.thy ===== *)
theory Uv
  imports Virtual_Envs Toml_Data Os_Environment Path_Walk
begin

text \<open>
  The uv locator, \<open>pet-uv/src/lib.rs\<close>, in its Unix configuration: managed Python installations,
  virtual environments that uv made, and the workspaces that projects belong to. The TOML parser and
  the matcher of glob patterns are arguments; \<open>configure\<close> is in \<open>Configure\<close>.
\<close>

section \<open>The code\<close>

text \<open>A pattern is compiled to the test of a text, or is invalid.\<close>

type_synonym glob_compiler = "string \<Rightarrow> (string \<Rightarrow> bool) option"

record uv_context =
  ux_fs :: file_system
  ux_toml :: toml_parser
  ux_glob :: glob_compiler

record uv_venv =
  uv_version :: string
  uv_python_version :: string
  uv_prompt :: "string option"

text \<open>A line of the form \<open>key = value\<close>.\<close>

definition uv_value :: "string \<Rightarrow> string \<Rightarrow> string option" where
  "uv_value key line = map_option trim_end (strip_prefix_str (key @ '' = '') (trim_start line))"

fun uv_lines ::
  "string option \<times> string option \<times> string option \<Rightarrow> string list \<Rightarrow> string option \<times> string option \<times> string option" where
  "uv_lines found [] = found"
| "uv_lines (u, v, p) (l # ls) =
     (let u' = or_else (uv_value ''uv'' l) u; v' = or_else (uv_value ''version_info'' l) v;
          p' = or_else (uv_value ''prompt'' l) p
      in if u' \<noteq> None \<and> v' \<noteq> None \<and> p' \<noteq> None then (u', v', p') else uv_lines (u', v', p') ls)"

definition maybe_from_file :: "file_system \<Rightarrow> path \<Rightarrow> uv_venv option" where
  "maybe_from_file fs file =
     Option.bind (read_to_string fs file) (\<lambda>contents.
       case uv_lines (None, None, None) (lines contents) of
         (Some u, Some v, p) \<Rightarrow> Some \<lparr>uv_version = u, uv_python_version = v, uv_prompt = p\<rparr>
       | _ \<Rightarrow> None)"

definition is_symlink_or_junction :: "file_system \<Rightarrow> path \<Rightarrow> bool" where
  "is_symlink_or_junction fs p \<longleftrightarrow> symlink_metadata fs p = Some Symlink"

definition is_numeric :: "string \<Rightarrow> bool" where
  "is_numeric c \<longleftrightarrow> c \<noteq> [] \<and> list_all is_digit c"

text \<open>\<open>splitn(3, '-')\<close>: the third part keeps the remaining separators.\<close>

definition parse_version_from_uv_dir_name :: "string \<Rightarrow> string option" where
  "parse_version_from_uv_dir_name dir_name =
     (case split_on (CHR ''-'') dir_name of
        _ # ver # platform \<Rightarrow>
          if join_with (CHR ''-'') platform = [] then None
          else (case split_on (CHR ''.'') ver of
                  major # minor # rest \<Rightarrow>
                    if \<not> is_numeric major \<or> \<not> is_numeric minor then None
                    else if rest = [] then Some ver
                    else if \<not> list_all is_numeric (butlast rest) then None
                    else (case last rest of
                            [] \<Rightarrow> None
                          | c # _ \<Rightarrow> if is_digit c then Some ver else None)
                | _ \<Rightarrow> None)
      | _ \<Rightarrow> None)"

definition get_default_uv_python_install_dir :: "file_system \<Rightarrow> env_vars \<Rightarrow> path option" where
  "get_default_uv_python_install_dir fs vars =
     (let xdg = Option.bind (vars ''XDG_DATA_HOME'') (\<lambda>x.
            let p = foldl path_join x [''uv'', ''python''] in if is_dir fs p then Some (norm_case p) else None)
      in or_else xdg (Option.bind (os_user_home vars) (\<lambda>home.
           let p = foldl path_join home [''.local'', ''share'', ''uv'', ''python'']
           in if is_dir fs p then Some (norm_case p) else None)))"

definition get_uv_python_install_dir :: "file_system \<Rightarrow> env_vars \<Rightarrow> path option" where
  "get_uv_python_install_dir fs vars =
     (case vars ''UV_PYTHON_INSTALL_DIR'' of
        Some d \<Rightarrow> if is_dir fs d then Some (norm_case d) else get_default_uv_python_install_dir fs vars
      | None \<Rightarrow> get_default_uv_python_install_dir fs vars)"

definition managed_env :: "file_system \<Rightarrow> path \<Rightarrow> string \<Rightarrow> path \<Rightarrow> python_environment" where
  "managed_env fs pre ver exe =
     build (with_symlinks (Some (find_executables fs pre)) (with_prefix (Some pre)
       (with_version (Some ver) (with_executable (Some exe) (builder_new (Some Uv))))))"

definition managed_install :: "file_system \<Rightarrow> path \<Rightarrow> python_environment option" where
  "managed_install fs p =
     (if \<not> is_dir fs p \<or> is_symlink_or_junction fs p then None
      else Option.bind (file_name p) (\<lambda>dir_name.
           Option.bind (parse_version_from_uv_dir_name dir_name) (\<lambda>ver.
           map_option (managed_env fs p ver) (find_executable fs p))))"

definition find_managed_python_installs :: "file_system \<Rightarrow> path \<Rightarrow> python_environment list" where
  "find_managed_python_installs fs install_dir =
     List.map_filter (managed_install fs) (unwrap_or (read_dir fs install_dir) [])"

definition try_from_managed_install :: "file_system \<Rightarrow> path option \<Rightarrow> python_env \<Rightarrow> python_environment option" where
  "try_from_managed_install fs uv_install_dir env =
     Option.bind uv_install_dir (\<lambda>install_dir.
       if \<not> path_starts_with (pe_executable env) install_dir then None
       else Option.bind (path_strip_prefix (pe_executable env) install_dir) (\<lambda>relative.
         case components relative of
           [] \<Rightarrow> None
         | c # _ \<Rightarrow>
             Option.bind (parse_version_from_uv_dir_name (component_text c)) (\<lambda>ver.
             let pre = path_join install_dir (component_text c)
             in if is_symlink_or_junction fs pre then None else Some (managed_env fs pre ver (pe_executable env)))))"

record uv_workspace =
  uw_members :: "string list"
  uw_exclude :: "string list"

text \<open>The decoded file: the name of the project, if there is one, and the uv workspace.\<close>

record uv_pyproject =
  up_project :: "string option option"
  up_workspace :: "uv_workspace option"

definition decode_uv_workspace :: "toml \<Rightarrow> uv_workspace option" where
  "decode_uv_workspace v =
     Option.bind (toml_field ''members'' toml_strings v) (\<lambda>ms.
     map_option (\<lambda>es. \<lparr>uw_members = unwrap_or ms [], uw_exclude = unwrap_or es []\<rparr>)
       (toml_field ''exclude'' toml_strings v))"

definition decode_uv_pyproject :: "toml \<Rightarrow> uv_pyproject option" where
  "decode_uv_pyproject v =
     Option.bind (toml_field ''project'' (toml_field ''name'' toml_str) v) (\<lambda>pr.
     map_option (\<lambda>tool. \<lparr>up_project = pr, up_workspace = Option.bind (Option.bind tool id) id\<rparr>)
       (toml_field ''tool'' (toml_field ''uv'' (toml_field ''workspace'' decode_uv_workspace)) v))"

definition parse_pyproject_toml_in :: "uv_context \<Rightarrow> path \<Rightarrow> uv_pyproject option" where
  "parse_pyproject_toml_in ux p =
     Option.bind (read_to_string (ux_fs ux) (path_join p ''pyproject.toml'')) (\<lambda>t.
     Option.bind (ux_toml ux t) decode_uv_pyproject)"

definition matches_any :: "glob_compiler \<Rightarrow> string list \<Rightarrow> string \<Rightarrow> bool" where
  "matches_any gl pats s \<longleftrightarrow> list_ex (\<lambda>pat. case gl pat of Some m \<Rightarrow> m s | None \<Rightarrow> False) pats"

definition is_workspace_member :: "glob_compiler \<Rightarrow> path \<Rightarrow> path \<Rightarrow> uv_workspace \<Rightarrow> bool" where
  "is_workspace_member gl workspace_root project_path workspace =
     (case path_strip_prefix project_path workspace_root of
        None \<Rightarrow> False
      | Some relative \<Rightarrow>
          let relative_str = map (\<lambda>c. if c = CHR 0x5C then CHR ''/'' else c) relative
          in relative = [] \<or>
             (\<not> matches_any gl (uw_exclude workspace) relative_str \<and>
              (uw_members workspace = [] \<or> matches_any gl (uw_members workspace) relative_str)))"

definition venv_dir_executable :: "file_system \<Rightarrow> path \<Rightarrow> path option" where
  "venv_dir_executable fs pre =
     List.find (exists fs) [path_join pre ''bin/python'', path_join pre ''Scripts/python.exe'']"

definition build_workspace_env :: "file_system \<Rightarrow> path \<Rightarrow> python_environment option" where
  "build_workspace_env fs workspace_root =
     (let pre = path_join workspace_root ''.venv''; cfg = path_join pre ''pyvenv.cfg''
      in if \<not> exists fs cfg then None
         else map_option (\<lambda>uv.
           build (with_prefix (Some pre) (with_symlinks (Some (find_executables fs pre))
             (with_version (Some (uv_python_version uv)) (with_executable (venv_dir_executable fs pre)
             (with_name (uv_prompt uv) (builder_new (Some UvWorkspace))))))))
           (maybe_from_file fs cfg))"

fun find_workspace_in :: "uv_context \<Rightarrow> path \<Rightarrow> path list \<Rightarrow> python_environment option" where
  "find_workspace_in ux project_path [] = None"
| "find_workspace_in ux project_path (candidate # rest) =
     (case Option.bind (parse_pyproject_toml_in ux candidate) up_workspace of
        None \<Rightarrow> find_workspace_in ux project_path rest
      | Some workspace \<Rightarrow>
          if \<not> is_workspace_member (ux_glob ux) candidate project_path workspace then None
          else build_workspace_env (ux_fs ux) candidate)"

definition find_workspace_for_project :: "uv_context \<Rightarrow> path \<Rightarrow> python_environment option" where
  "find_workspace_for_project ux project_path = find_workspace_in ux project_path (ancestors project_path)"

definition list_envs_in_directory :: "uv_context \<Rightarrow> path \<Rightarrow> python_environment list" where
  "list_envs_in_directory ux p =
     (case parse_pyproject_toml_in ux p of
        None \<Rightarrow> []
      | Some pyproject \<Rightarrow>
          let fs = ux_fs ux; pyvenv_cfg = path_join p ''.venv/pyvenv.cfg''; pre = path_join p ''.venv'';
              exe = venv_dir_executable fs pre
          in if up_workspace pyproject \<noteq> None
             then to_list (map_option (\<lambda>uv.
                    build (with_version (Some (uv_python_version uv)) (with_executable exe
                      (with_prefix (Some pre) (with_symlinks (Some (find_executables fs pre))
                      (with_name (uv_prompt uv) (builder_new (Some UvWorkspace))))))))
                    (maybe_from_file fs pyvenv_cfg))
             else (case up_project pyproject of
                     None \<Rightarrow> []
                   | Some proj_name \<Rightarrow>
                       to_list (map_option (\<lambda>uv.
                         build (with_executable exe (with_display_name proj_name
                           (with_version (Some (uv_python_version uv)) (with_prefix (Some pre)
                           (with_symlinks (Some (find_executables fs pre))
                           (with_name (uv_prompt uv) (builder_new (Some Uv)))))))))
                         (maybe_from_file fs pyvenv_cfg))
                       @ to_list (find_workspace_for_project ux p)))"

definition uv_try_from ::
  "uv_context \<Rightarrow> path option \<Rightarrow> python_env \<Rightarrow> python_environment option outcome" where
  "uv_try_from ux uv_install_dir env =
     (case try_from_managed_install (ux_fs ux) uv_install_dir env of
        Some e \<Rightarrow> Ret (Some e)
      | None \<Rightarrow>
          and_then (case parent (pe_executable env) of Some d \<Rightarrow> pyvenv_find (ux_fs ux) d | None \<Rightarrow> Ret None) (\<lambda>c1.
          and_then (case (c1, pe_prefix env) of (None, Some p) \<Rightarrow> pyvenv_find (ux_fs ux) p | _ \<Rightarrow> Ret c1) (\<lambda>cfg.
            Ret (Option.bind cfg (\<lambda>cfg. map_option (\<lambda>uv.
              let pre = or_else (pe_prefix env) (Option.bind (parent (pe_executable env)) parent);
                  pyproject = Option.bind (Option.bind pre parent) (parse_pyproject_toml_in ux);
                  k = (if Option.bind pyproject up_workspace \<noteq> None then UvWorkspace else Uv)
              in build (with_prefix pre (with_symlinks (map_option (find_executables (ux_fs ux)) pre)
                   (with_version (Some (uv_python_version uv)) (with_executable (Some (pe_executable env))
                   (with_name (uv_prompt uv) (builder_new (Some k))))))))
              (maybe_from_file (ux_fs ux) (file_path cfg)))))))"

definition uv_find :: "uv_context \<Rightarrow> path option \<Rightarrow> path list \<Rightarrow> python_environment list" where
  "uv_find ux uv_install_dir workspaces =
     (case uv_install_dir of Some d \<Rightarrow> find_managed_python_installs (ux_fs ux) d | None \<Rightarrow> [])
     @ concat (map (list_envs_in_directory ux) workspaces)"

section \<open>The contract of a locator\<close>

lemma managed_env_claims: "claims Uv exe (managed_env fs pre ver exe)"
  by (simp add: managed_env_def del: not_None_eq)

lemma try_from_managed_install_claims:
  assumes "try_from_managed_install fs d env = Some e"
  shows "claims Uv (pe_executable env) e"
proof -
  from assms obtain y r where "path_strip_prefix (pe_executable env) y = Some r" "d = Some y"
    by (auto simp: try_from_managed_install_def bind_eq_Some_conv split: if_split_asm)
  with assms show ?thesis
    by (cases "components r")
      (auto simp: try_from_managed_install_def bind_eq_Some_conv Let_def managed_env_claims split: if_split_asm)
qed

definition uv_kind :: "uv_context \<Rightarrow> python_env \<Rightarrow> environment_kind" where
  "uv_kind ux env =
     (let pre = or_else (pe_prefix env) (Option.bind (parent (pe_executable env)) parent);
          pyproject = Option.bind (Option.bind pre parent) (parse_pyproject_toml_in ux)
      in if Option.bind pyproject up_workspace \<noteq> None then UvWorkspace else Uv)"

lemma uv_claim:
  assumes "uv_try_from ux d env = Ret (Some e)"
  shows "claims Uv (pe_executable env) e \<or> claims UvWorkspace (pe_executable env) e"
proof (cases "try_from_managed_install (ux_fs ux) d env")
  case None
  with assms have "claims (uv_kind ux env) (pe_executable env) e"
    by (auto simp: uv_try_from_def uv_kind_def and_then_Ret bind_eq_Some_conv Let_def simp del: not_None_eq)
  then show ?thesis by (auto simp: uv_kind_def Let_def simp del: not_None_eq split: if_split_asm)
next
  case (Some e')
  with assms show ?thesis by (auto simp: uv_try_from_def dest: try_from_managed_install_claims)
qed

interpretation uv: env_locator "uv_try_from ux d" "[Uv, UvWorkspace]" for ux d
  by unfold_locales (auto simp: claims_def dest!: uv_claim)

section \<open>Directory names\<close>

lemma is_numeric_show_nat [simp]: "is_numeric (show_nat n)"
  using show_nat_ne [of n] show_nat_digits [of n] by (simp add: is_numeric_def)

text \<open>A version with three numbers and any pre-release suffix is read from a directory name.\<close>

lemma parse_uv_dir_name:
  assumes "CHR ''-'' \<notin> set impl" "platform \<noteq> []" "CHR ''.'' \<notin> set pre_release" "CHR ''-'' \<notin> set pre_release"
  shows "parse_version_from_uv_dir_name (impl @ ''-'' @ (version_text a b c @ pre_release) @ ''-'' @ platform)
    = Some (version_text a b c @ pre_release)"
proof -
  let ?v = "version_text a b c @ pre_release"
  have digits: "CHR ''.'' \<notin> set (show_nat n)" "CHR ''-'' \<notin> set (show_nat n)" for n
    using show_nat_digits [of n] by (auto simp: list_all_iff is_digit_def)
  have v: "CHR ''-'' \<notin> set ?v" using digits assms(4) by (simp add: version_text_def)
  have d: "split_on (CHR ''-'') (impl @ ''-'' @ ?v @ ''-'' @ platform) = impl # ?v # split_on (CHR ''-'') platform"
    using split_on_append_sep [of "CHR ''-''" impl "?v @ ''-'' @ platform"]
      split_on_append_sep [of "CHR ''-''" ?v platform] v assms(1) by (simp add: split_on_no_sep)
  have "split_on (CHR ''.'') ?v = [show_nat a, show_nat b, show_nat c @ pre_release]"
    using split_on_append_sep [of "CHR ''.''" "show_nat a" "show_nat b @ ''.'' @ show_nat c @ pre_release"]
      split_on_append_sep [of "CHR ''.''" "show_nat b" "show_nat c @ pre_release"] digits assms(3)
    by (simp add: version_text_def split_on_no_sep)
  moreover obtain x xs where "show_nat c = x # xs" "is_digit x"
    using show_nat_ne [of c] show_nat_digits [of c] by (cases "show_nat c") auto
  ultimately show ?thesis using d assms(2) by (simp add: parse_version_from_uv_dir_name_def)
qed

section \<open>Properties\<close>

lemma managed_install_identified:
  assumes d: "components d \<noteq> []" and n: "simple_name n" and m: "managed_install fs (path_join d n) = Some e"
    and exe: "find_executable fs (path_join d n) = Some (pe_executable env)"
  shows "try_from_managed_install fs (Some d) env = Some e"
proof -
  from find_executable_components [OF exe] n obtain cs where
    cs: "components (pe_executable env) = components d @ Normal n # cs" by (auto simp: path_simps)
  then obtain r where r: "path_strip_prefix (pe_executable env) d = Some r"
    using path_strip_prefix_None [of "pe_executable env" d] by (cases "path_strip_prefix (pe_executable env) d") auto
  from path_strip_prefix_components [OF r d] cs have "components r = Normal n # cs" by simp
  with m n exe r cs show ?thesis
    by (auto simp: try_from_managed_install_def managed_install_def path_starts_with_def path_simps
        bind_eq_Some_conv split: if_split_asm)
qed

text \<open>C27: Every managed installation that a search of uv's install directory reports is identified
  as the same environment when the executable found in it is looked up, whatever prefix, version
  and links the caller knows of it.\<close>

theorem uv_find_identified:
  assumes "lists_joined (ux_fs ux)" "components d \<noteq> []" "e \<in> set (find_managed_python_installs (ux_fs ux) d)"
  shows "\<exists>p exe. env_prefix e = Some p \<and> find_executable (ux_fs ux) p = Some exe
    \<and> uv_try_from ux (Some d) \<lparr>pe_executable = exe, pe_prefix = pre, pe_version = v, pe_symlinks = l\<rparr> = Ret (Some e)"
proof -
  from assms(3) obtain es p where es: "read_dir (ux_fs ux) d = Some es" "p \<in> set es"
    and m: "managed_install (ux_fs ux) p = Some e"
    by (cases "read_dir (ux_fs ux) d") (auto simp: find_managed_python_installs_def List.map_filter_def)
  from lists_joinedD [OF assms(1) es] obtain n where n: "simple_name n" "p = path_join d n" by blast
  from m obtain exe ver where exe: "find_executable (ux_fs ux) p = Some exe" and e: "e = managed_env (ux_fs ux) p ver exe"
    by (auto simp: managed_install_def bind_eq_Some_conv split: if_split_asm)
  let ?env = "\<lparr>pe_executable = exe, pe_prefix = pre, pe_version = v, pe_symlinks = l\<rparr>"
  have "try_from_managed_install (ux_fs ux) (Some d) ?env = Some e"
    using managed_install_identified [OF assms(2) n(1), of "ux_fs ux" e ?env] m exe n(2) by simp
  with exe e show ?thesis by (auto simp: uv_try_from_def managed_env_def)
qed

definition uv_install_fs :: file_system where
  "uv_install_fs =
     plain_fs [''/u/cpython-3.12.1-linux/bin/python''] [''/u'', ''/u/cpython-3.12.1-linux'', ''/u/cpython-3.12.1-linux/bin'']"

theorem uv_find_identified_witness:
  "\<exists>e p exe. e \<in> set (find_managed_python_installs uv_install_fs ''/u'')
    \<and> env_prefix e = Some p \<and> find_executable uv_install_fs p = Some exe
    \<and> uv_try_from \<lparr>ux_fs = uv_install_fs, ux_toml = (\<lambda>_. None), ux_glob = (\<lambda>_. None)\<rparr> (Some ''/u'')
        \<lparr>pe_executable = exe, pe_prefix = None, pe_version = None, pe_symlinks = None\<rparr> = Ret (Some e)"
proof -
  let ?ux = "\<lparr>ux_fs = uv_install_fs, ux_toml = (\<lambda>_. None), ux_glob = (\<lambda>_. None)\<rparr>"
  have "map kind (find_managed_python_installs uv_install_fs ''/u'') = [Some Uv]" by code_simp
  then obtain e where e: "e \<in> set (find_managed_python_installs (ux_fs ?ux) ''/u'')"
    by (cases "find_managed_python_installs uv_install_fs ''/u''") auto
  have "lists_joined (ux_fs ?ux)"
    unfolding uv_install_fs_def uv_context.simps by (rule plain_fs_lists_joined) code_simp
  moreover have "components ''/u'' \<noteq> []" by code_simp
  ultimately show ?thesis using uv_find_identified [of ?ux "''/u''" e] e by fastforce
qed

end
