(* ===== verification/Pipenv.thy ===== *)
theory Pipenv
  imports Virtual_Envs Os_Environment Path_Walk
begin

text \<open>
  The Pipenv locator, \<open>pet-pipenv/src/lib.rs\<close>, \<open>manager.rs\<close> and \<open>env_variables.rs\<close>: which
  environments are recognised, which are listed, and where the manager is searched. The name of the
  platform is an argument; \<open>configure\<close> is in \<open>Configure\<close>.
\<close>

section \<open>The code\<close>

record pipenv_vars =
  pv_max_depth :: nat
  pv_pipfile :: string
  pv_home :: "path option"
  pv_workon_home :: "path option"
  pv_xdg_data_home :: "string option"
  pv_path :: "string option"

definition pipenv_vars_from :: "env_vars \<Rightarrow> pipenv_vars" where
  "pipenv_vars_from vars =
     \<lparr>pv_max_depth = unwrap_or (map_option (\<lambda>s. unwrap_or (parse_unsigned (2 ^ 16) s) 3) (vars ''PIPENV_MAX_DEPTH'')) 3,
      pv_pipfile = unwrap_or (vars ''PIPENV_PIPFILE'') ''Pipfile'', pv_home = os_user_home vars,
      pv_workon_home = vars ''WORKON_HOME'', pv_xdg_data_home = vars ''XDG_DATA_HOME'', pv_path = vars ''PATH''\<rparr>"

text \<open>\<open>PIPENV_ENV_NAME_PATTERN\<close>, the expression \<open>^.+-[A-Za-z0-9_-]{8}$\<close>.\<close>

definition is_hash_char :: "char \<Rightarrow> bool" where
  "is_hash_char c \<longleftrightarrow> is_digit c \<or> CHR ''A'' \<le> c \<and> c \<le> CHR ''Z'' \<or> CHR ''a'' \<le> c \<and> c \<le> CHR ''z''
     \<or> c = CHR ''_'' \<or> c = CHR ''-''"

definition pipenv_env_name :: "string \<Rightarrow> bool" where
  "pipenv_env_name s \<longleftrightarrow>
     10 \<le> length s \<and> s ! (length s - 9) = CHR ''-'' \<and> list_all is_hash_char (drop (length s - 8) s)
     \<and> CHR 0x0A \<notin> set (take (length s - 9) s)"

definition get_pipenv_virtualenv_dirs :: "file_system \<Rightarrow> pipenv_vars \<Rightarrow> path list" where
  "get_pipenv_virtualenv_dirs fs pv =
     map norm_case (filter (exists fs)
       (to_list (pv_workon_home pv)
        @ to_list (map_option (\<lambda>x. path_join x ''virtualenvs'') (pv_xdg_data_home pv))
        @ (case pv_home pv of
             Some home \<Rightarrow> [foldl path_join home [''.local'', ''share'', ''virtualenvs''],
                          path_join home ''.venvs'', path_join home ''.virtualenvs'']
           | None \<Rightarrow> [])))"

definition is_bin_or_scripts :: "path \<Rightarrow> bool" where
  "is_bin_or_scripts bin \<longleftrightarrow> file_name bin = Some ''bin'' \<or> file_name bin = Some ''Scripts''"

text \<open>The prefix that is known, or the directory above \<open>bin\<close> or \<open>Scripts\<close>.\<close>

definition known_or_derived_prefix :: "python_env \<Rightarrow> path option" where
  "known_or_derived_prefix env =
     or_else (pe_prefix env)
       (Option.bind (parent (pe_executable env)) (\<lambda>bin. if is_bin_or_scripts bin then parent bin else None))"

definition is_in_pipenv_centralized_dir :: "file_system \<Rightarrow> python_env \<Rightarrow> pipenv_vars \<Rightarrow> bool" where
  "is_in_pipenv_centralized_dir fs env pv =
     (case known_or_derived_prefix env of
        None \<Rightarrow> False
      | Some pre \<Rightarrow>
          list_ex (\<lambda>pipenv_dir.
            (case parent pre of Some d \<Rightarrow> path_eq (norm_case d) pipenv_dir | None \<Rightarrow> False)
            \<and> (exists fs (path_join pre ''.project'')
               \<or> (case file_name pre of Some n \<Rightarrow> pipenv_env_name n | None \<Rightarrow> False)))
            (get_pipenv_virtualenv_dirs fs pv))"

definition get_pipenv_project_from_prefix :: "file_system \<Rightarrow> path \<Rightarrow> path option" where
  "get_pipenv_project_from_prefix fs pre =
     (if \<not> exists fs (path_join pre ''.project'') then None
      else map_option (\<lambda>contents. norm_case (trim contents)) (read_to_string fs (path_join pre ''.project'')))"

text \<open>The directory of the project, judged by a \<open>Pipfile\<close> next to the environment.\<close>

definition project_of_prefix :: "file_system \<Rightarrow> python_env \<Rightarrow> path option" where
  "project_of_prefix fs env =
     Option.bind (pe_prefix env) (\<lambda>pre. Option.bind (parent pre) (\<lambda>d.
       if exists fs (path_join d ''Pipfile'') then Some d else None))"

definition project_of_executable :: "file_system \<Rightarrow> python_env \<Rightarrow> path option" where
  "project_of_executable fs env =
     Option.bind (parent (pe_executable env)) (\<lambda>bin.
     Option.bind (if is_bin_or_scripts bin then parent bin else Some bin) (\<lambda>venv_dir.
     Option.bind (parent venv_dir) (\<lambda>d. if exists fs (path_join d ''Pipfile'') then Some d else None)))"

definition get_pipenv_project :: "file_system \<Rightarrow> python_env \<Rightarrow> path option" where
  "get_pipenv_project fs env =
     or_else (Option.bind (pe_prefix env) (get_pipenv_project_from_prefix fs))
       (or_else (project_of_prefix fs env)
         (or_else (project_of_executable fs env)
           (Option.bind (parent (pe_executable env)) (\<lambda>bin.
              if is_bin_or_scripts bin then Option.bind (parent bin) (get_pipenv_project_from_prefix fs)
              else get_pipenv_project_from_prefix fs bin))))"

definition is_pipenv_from_project :: "file_system \<Rightarrow> python_env \<Rightarrow> bool" where
  "is_pipenv_from_project fs env \<longleftrightarrow> project_of_prefix fs env \<noteq> None \<or> project_of_executable fs env \<noteq> None"

definition is_pipenv :: "file_system \<Rightarrow> python_env \<Rightarrow> pipenv_vars \<Rightarrow> bool" where
  "is_pipenv fs env pv \<longleftrightarrow>
     is_in_pipenv_centralized_dir fs env pv
     \<or> (case get_pipenv_project fs env of Some d \<Rightarrow> exists fs (path_join d (pv_pipfile pv)) | None \<Rightarrow> False)
     \<or> is_pipenv_from_project fs env"

definition get_virtualenvs_dir :: "target_os \<Rightarrow> file_system \<Rightarrow> pipenv_vars \<Rightarrow> path option" where
  "get_virtualenvs_dir os fs pv =
     or_else (Option.bind (pv_workon_home pv) (\<lambda>d. if is_dir fs d then Some d else None))
       (Option.bind (pv_home pv) (\<lambda>home.
          let d = (if os = Windows then path_join home ''.virtualenvs''
                   else foldl path_join home [''.local'', ''share'', ''virtualenvs''])
          in if is_dir fs d then Some d else None))"

definition listed_environment ::
  "target_os \<Rightarrow> decoder \<Rightarrow> file_system \<Rightarrow> pipenv_vars \<Rightarrow> path \<Rightarrow> python_environment option outcome" where
  "listed_environment os decode fs pv p =
     (if \<not> is_dir fs p \<or> \<not> exists fs (path_join p ''.project'') then Ret None
      else case read_to_string fs (path_join p ''.project'') of
             None \<Rightarrow> Ret None
           | Some contents \<Rightarrow>
               let project_path = norm_case (trim contents);
                   bin_dir = path_join p (if os = Windows then ''Scripts'' else ''bin'');
                   python_exe = path_join bin_dir (if os = Windows then ''python.exe'' else ''python'')
               in if \<not> exists fs (path_join project_path (pv_pipfile pv)) \<or> \<not> is_file fs python_exe then Ret None
                  else and_then (from_creator_for_virtual_env decode fs p) (\<lambda>ver.
                    Ret (Some (build (with_symlinks (Some (find_executables fs bin_dir))
                      (with_project (Some project_path) (with_prefix (Some (norm_case p)) (with_version ver
                      (with_executable (Some (norm_case python_exe)) (builder_new (Some environment_kind.Pipenv)))))))))))"

definition pipenv_list_environments ::
  "target_os \<Rightarrow> decoder \<Rightarrow> file_system \<Rightarrow> pipenv_vars \<Rightarrow> python_environment list outcome" where
  "pipenv_list_environments os decode fs pv =
     (case get_virtualenvs_dir os fs pv of
        None \<Rightarrow> Ret []
      | Some d \<Rightarrow>
          and_then (map_outcome (listed_environment os decode fs pv) (unwrap_or (read_dir fs d) [])) (\<lambda>es.
            Ret (List.map_filter id es)))"

definition pipenv_search_paths :: "target_os \<Rightarrow> path \<Rightarrow> path list" where
  "pipenv_search_paths os home =
     map (foldl path_join home)
       ([[''.local'', ''bin'', ''pipenv''], [''.local'', ''pipx'', ''venvs'', ''pipenv'', ''bin'', ''pipenv'']]
        @ (if os = Windows
           then [[''AppData'', ''Roaming'', ''Python'', ''Scripts'', ''pipenv.exe''],
                 [''AppData'', ''Local'', ''Programs'', ''Python'', ''Scripts'', ''pipenv.exe''],
                 [''.local'', ''pipx'', ''venvs'', ''pipenv'', ''Scripts'', ''pipenv.exe'']]
           else []))"

definition pipenv_manager_find :: "target_os \<Rightarrow> file_system \<Rightarrow> path option \<Rightarrow> pipenv_vars \<Rightarrow> path option" where
  "pipenv_manager_find os fs exe pv =
     List.find (is_file fs)
       (to_list exe
        @ (case pv_home pv of
             None \<Rightarrow> []
           | Some home \<Rightarrow>
               pipenv_search_paths os home
               @ (case pv_path pv of
                    None \<Rightarrow> []
                  | Some env_path \<Rightarrow>
                      concat (map (\<lambda>d. path_join d ''pipenv'' # (if os = Windows then [path_join d ''pipenv.exe''] else []))
                        (split_on (CHR '':'') env_path)))))"

definition pipenv_to_manager :: "path \<Rightarrow> env_manager" where
  "pipenv_to_manager exe = \<lparr>mgr_executable = exe, mgr_version = None, mgr_tool = MgrPipenv\<rparr>"

definition pipenv_try_from ::
  "decoder \<Rightarrow> file_system \<Rightarrow> pipenv_vars \<Rightarrow> python_env \<Rightarrow> python_environment option outcome" where
  "pipenv_try_from decode fs pv env =
     (if \<not> is_pipenv fs env pv then Ret None
      else let pre = known_or_derived_prefix env
           in case parent (pe_executable env) of
                None \<Rightarrow> Ret None
              | Some bin \<Rightarrow>
                  and_then (case (pe_version env, pre) of
                              (None, Some p) \<Rightarrow> from_creator_for_virtual_env decode fs p
                            | (v, _) \<Rightarrow> Ret v) (\<lambda>ver.
                    Ret (Some (build (with_symlinks (Some (find_executables fs bin))
                      (with_project (get_pipenv_project fs env) (with_prefix pre (with_version ver
                      (with_executable (Some (pe_executable env)) (builder_new (Some environment_kind.Pipenv)))))))))))"

text \<open>\<open>find\<close>: the manager and the environments that are reported.\<close>

definition pipenv_find ::
  "target_os \<Rightarrow> decoder \<Rightarrow> file_system \<Rightarrow> pipenv_vars \<Rightarrow> path option
   \<Rightarrow> (env_manager option \<times> python_environment list) outcome" where
  "pipenv_find os decode fs pv exe =
     and_then (pipenv_list_environments os decode fs pv) (\<lambda>es.
       Ret (map_option pipenv_to_manager (pipenv_manager_find os fs exe pv), es))"

section \<open>The contract of a locator\<close>

lemma pipenv_claim:
  assumes "pipenv_try_from decode fs pv env = Ret (Some e)"
  shows "claims environment_kind.Pipenv (pe_executable env) e"
  using assms
  by (auto simp: pipenv_try_from_def and_then_Ret Let_def simp del: not_None_eq split: if_split_asm option.split_asm)

interpretation pipenv: env_locator "pipenv_try_from decode fs pv" "[environment_kind.Pipenv]" for decode fs pv
  by unfold_locales (auto simp: claims_def dest!: pipenv_claim)

section \<open>Properties\<close>

lemma pipenv_names:
  "simple_name (if os = Windows then ''Scripts'' else ''bin'')" "simple_name (if os = Windows then ''python.exe'' else ''python'')"
  by (simp_all add: simple_name_def)

lemma listed_environment_identified:
  assumes "listed_environment os decode fs pv (path_join d n) = Ret (Some e)" and n: "simple_name n"
  defines "exe \<equiv> path_join (path_join (path_join d n) (if os = Windows then ''Scripts'' else ''bin''))
             (if os = Windows then ''python.exe'' else ''python'')"
  shows "is_file fs exe \<and> pipenv_try_from decode fs pv
      \<lparr>pe_executable = exe, pe_prefix = Some (path_join d n), pe_version = None, pe_symlinks = l\<rparr> = Ret (Some e)"
proof -
  let ?p = "path_join d n" and ?bin = "path_join (path_join d n) (if os = Windows then ''Scripts'' else ''bin'')"
  let ?env = "\<lparr>pe_executable = exe, pe_prefix = Some ?p, pe_version = None, pe_symlinks = l\<rparr>"
  from assms(1) obtain contents where pr: "exists fs (path_join ?p ''.project'')"
    "read_to_string fs (path_join ?p ''.project'') = Some contents"
    by (auto simp: listed_environment_def split: if_split_asm option.split_asm)
  with assms(1) obtain ver where
    f: "exists fs (path_join (norm_case (trim contents)) (pv_pipfile pv))" "is_file fs exe"
      "from_creator_for_virtual_env decode fs ?p = Ret ver" and
    e: "e = build (with_symlinks (Some (find_executables fs ?bin))
      (with_project (Some (norm_case (trim contents))) (with_prefix (Some (norm_case ?p)) (with_version ver
      (with_executable (Some (norm_case exe)) (builder_new (Some environment_kind.Pipenv)))))))"
    unfolding exe_def by (auto simp: listed_environment_def Let_def and_then_Ret split: if_split_asm)
  from pr have project: "get_pipenv_project fs ?env = Some (norm_case (trim contents))"
    by (simp add: get_pipenv_project_def get_pipenv_project_from_prefix_def or_else_def)
  with f have "is_pipenv fs ?env pv" by (simp add: is_pipenv_def)
  moreover have "parent exe = Some ?bin"
    unfolding exe_def by (rule parent_join_join) (rule pipenv_names)+
  ultimately show ?thesis using f e project
    by (simp add: pipenv_try_from_def known_or_derived_prefix_def or_else_def norm_case_def)
qed

text \<open>C28: Every environment that Pipenv lists is identified as the very same environment, project
  and version included, when its interpreter is looked up with its prefix.\<close>

theorem pipenv_find_identified:
  assumes "lists_joined fs" "pipenv_list_environments os decode fs pv = Ret es" "e \<in> set es"
  shows "\<exists>p exe. env_prefix e = Some p \<and> is_file fs exe \<and> pipenv_try_from decode fs pv
      \<lparr>pe_executable = exe, pe_prefix = Some p, pe_version = None, pe_symlinks = l\<rparr> = Ret (Some e)"
proof -
  from assms(2,3) obtain d where d: "get_virtualenvs_dir os fs pv = Some d"
    by (auto simp: pipenv_list_environments_def split: option.split_asm)
  with assms(2,3) obtain rs where "map_outcome (listed_environment os decode fs pv) (unwrap_or (read_dir fs d) []) = Ret rs"
    "Some e \<in> set rs" by (auto simp: pipenv_list_environments_def and_then_Ret List.map_filter_def)
  then obtain p where p: "p \<in> set (unwrap_or (read_dir fs d) [])" "listed_environment os decode fs pv p = Ret (Some e)"
    by (auto dest: map_outcome_member)
  then obtain n where n: "simple_name n" "p = path_join d n"
    using lists_joinedD [OF assms(1), of d] by (cases "read_dir fs d") auto
  have "env_prefix e = Some p" using p(2)
    by (auto simp: listed_environment_def Let_def and_then_Ret norm_case_def split: if_split_asm option.split_asm)
  with listed_environment_identified [of os decode fs pv d n e l] p(2) n show ?thesis by blast
qed

text \<open>One environment in \<open>WORKON_HOME\<close> whose project has a \<open>Pipfile\<close>.\<close>

definition pipenv_home_fs :: file_system where
  "pipenv_home_fs =
     (plain_fs [''/w/a/.project'', ''/w/a/bin/python'', ''/p/Pipfile''] [''/w'', ''/w/a'', ''/w/a/bin'', ''/p''])
       \<lparr>read_to_string := map_of [(''/w/a/.project'', ''/p'')]\<rparr>"

definition pipenv_home_vars :: pipenv_vars where
  "pipenv_home_vars = \<lparr>pv_max_depth = 3, pv_pipfile = ''Pipfile'', pv_home = None, pv_workon_home = Some ''/w'',
     pv_xdg_data_home = None, pv_path = None\<rparr>"

theorem pipenv_find_identified_witness:
  "\<exists>e p exe. pipenv_list_environments OtherUnix (\<lambda>_. None) pipenv_home_fs pipenv_home_vars = Ret [e]
    \<and> env_prefix e = Some p \<and> is_file pipenv_home_fs exe
    \<and> pipenv_try_from (\<lambda>_. None) pipenv_home_fs pipenv_home_vars
        \<lparr>pe_executable = exe, pe_prefix = Some p, pe_version = None, pe_symlinks = None\<rparr> = Ret (Some e)"
proof -
  have d: "get_virtualenvs_dir OtherUnix pipenv_home_fs pipenv_home_vars = Some ''/w''" by code_simp
  have es: "read_dir pipenv_home_fs ''/w'' = Some [''/w/a'']" by code_simp
  have "case listed_environment OtherUnix (\<lambda>_. None) pipenv_home_fs pipenv_home_vars ''/w/a'' of Ret (Some _) \<Rightarrow> True | _ \<Rightarrow> False"
    by code_simp
  then obtain e where "listed_environment OtherUnix (\<lambda>_. None) pipenv_home_fs pipenv_home_vars ''/w/a'' = Ret (Some e)"
    by (auto split: outcome.split_asm option.split_asm)
  with d es have e: "pipenv_list_environments OtherUnix (\<lambda>_. None) pipenv_home_fs pipenv_home_vars = Ret [e]"
    by (simp add: pipenv_list_environments_def List.map_filter_def)
  have "lists_joined (plain_fs [''/w/a/.project'', ''/w/a/bin/python'', ''/p/Pipfile''] [''/w'', ''/w/a'', ''/w/a/bin'', ''/p''])"
    by (rule plain_fs_lists_joined) code_simp
  then have "lists_joined pipenv_home_fs" by (simp add: pipenv_home_fs_def lists_joined_def)
  from pipenv_find_identified [OF this e] e show ?thesis by fastforce
qed

end
