(* ===== verification/Hatch.thy ===== *)
theory Hatch
  imports Virtual_Envs Toml_Data Os_Environment
begin

text \<open>
  The Hatch locator, \<open>pet-hatch/src/lib.rs\<close>, in its Unix configurations: the data directory, the
  settings of a workspace, the two layouts, the locator's operations, and the lazily filled cache of
  parsed workspaces as a machine in which callers of \<open>workspace_entry\<close> interleave with
  \<open>configure\<close> and with changes of the files. Its state and \<open>configure\<close> are in \<open>Configure\<close>. The
  TOML parser is an argument.
\<close>

section \<open>Directories and settings\<close>

record hatch_context =
  hx_os :: target_os
  hx_vars :: env_vars
  hx_fs :: file_system
  hx_toml :: toml_parser

definition path_starts_with_tilde :: "path \<Rightarrow> bool" where
  "path_starts_with_tilde p \<longleftrightarrow> prefix ''~'' p"

definition append_virtual_subdir :: "path \<Rightarrow> path" where
  "append_virtual_subdir d = foldl path_join d [''env'', ''virtual'']"

definition platform_default_data_dir :: "target_os \<Rightarrow> env_vars \<Rightarrow> path option" where
  "platform_default_data_dir os vars =
     (if os = MacOs
      then map_option (\<lambda>h. foldl path_join h [''Library'', ''Application Support'', ''hatch'']) (os_user_home vars)
      else case vars ''XDG_DATA_HOME'' of
             Some (c # d) \<Rightarrow> Some (path_join (c # d) ''hatch'')
           | _ \<Rightarrow> map_option (\<lambda>h. foldl path_join h [''.local'', ''share'', ''hatch'']) (os_user_home vars))"

definition get_default_virtual_dir :: "target_os \<Rightarrow> env_vars \<Rightarrow> path option" where
  "get_default_virtual_dir os vars =
     (let custom = trim (unwrap_or (vars ''HATCH_DATA_DIR'') [])
      in if custom \<noteq> []
         then let expanded = expand_path vars custom
              in if path_starts_with_tilde expanded then None
                 else Some (norm_case (append_virtual_subdir expanded))
         else map_option (\<lambda>d. norm_case (append_virtual_subdir d)) (platform_default_data_dir os vars))"

definition match_default_storage_layout :: "path \<Rightarrow> path \<Rightarrow> string option" where
  "match_default_storage_layout pre storage =
     (if prefix (components storage) (components (norm_case pre))
      then case drop (length (components storage)) (components (norm_case pre)) of
             [_, _, c] \<Rightarrow> Some (component_text c)
           | _ \<Rightarrow> None
      else None)"

definition prefix_is_directly_under :: "path \<Rightarrow> path \<Rightarrow> bool" where
  "prefix_is_directly_under pre d \<longleftrightarrow> (case parent pre of Some q \<Rightarrow> path_eq (norm_case q) d | None \<Rightarrow> False)"

record hatch_config =
  hc_env_dirs :: "(string \<times> toml) list option"
  hc_envs :: "(string \<times> toml) list option"

definition decode_hatch_config :: "toml \<Rightarrow> hatch_config option" where
  "decode_hatch_config v =
     Option.bind (toml_field ''dirs'' (toml_field ''env'' toml_table) v) (\<lambda>dirs.
     map_option (\<lambda>envs. \<lparr>hc_env_dirs = Option.bind dirs id, hc_envs = envs\<rparr>)
       (toml_field ''envs'' toml_table v))"

text \<open>The two files of \<open>read_workspace_hatch_sections\<close>.\<close>

definition read_pyproject_section :: "toml_parser \<Rightarrow> file_system \<Rightarrow> path \<Rightarrow> hatch_config option" where
  "read_pyproject_section toml fs workspace =
     Option.bind (read_to_string fs (path_join workspace ''pyproject.toml'')) (\<lambda>t.
     Option.bind (toml t) (\<lambda>v.
     Option.bind (toml_field ''tool'' (toml_field ''hatch'' decode_hatch_config) v) (\<lambda>tool. Option.bind tool id)))"

definition read_hatch_toml :: "toml_parser \<Rightarrow> file_system \<Rightarrow> path \<Rightarrow> hatch_config option" where
  "read_hatch_toml toml fs workspace =
     Option.bind (read_to_string fs (path_join workspace ''hatch.toml'')) (\<lambda>t.
     Option.bind (toml t) decode_hatch_config)"

definition extract_virtual_paths :: "hatch_config option \<times> hatch_config option \<Rightarrow> string list" where
  "extract_virtual_paths sections =
     List.map_filter (\<lambda>s. Option.bind (hc_env_dirs s) (\<lambda>t. Option.bind (map_of t ''virtual'') toml_str))
       (to_list (fst sections) @ to_list (snd sections))"

definition extract_env_names :: "hatch_config option \<times> hatch_config option \<Rightarrow> string list" where
  "extract_env_names sections =
     ''default'' # concat (map (\<lambda>s. map fst (unwrap_or (hc_envs s) [])) (to_list (fst sections) @ to_list (snd sections)))"

definition resolve_virtual_path :: "env_vars \<Rightarrow> path \<Rightarrow> string \<Rightarrow> path option" where
  "resolve_virtual_path vars workspace raw =
     (let trimmed = trim raw; expanded = expand_path vars trimmed
      in if trimmed = [] \<or> path_starts_with_tilde expanded then None
         else Some (norm_case (if has_root expanded then expanded else path_join workspace expanded)))"

definition resolve_virtual_paths_against_workspace :: "env_vars \<Rightarrow> path \<Rightarrow> string list \<Rightarrow> path list" where
  "resolve_virtual_paths_against_workspace vars workspace raws = List.map_filter (resolve_virtual_path vars workspace) raws"

definition env_name_matcher :: "string list \<Rightarrow> (string \<times> string) list" where
  "env_name_matcher names = map (\<lambda>n. (n, n @ ''.'')) (filter (\<lambda>n. n \<noteq> []) names)"

definition matcher_matches :: "(string \<times> string) list \<Rightarrow> string \<Rightarrow> bool" where
  "matcher_matches entries leaf \<longleftrightarrow> list_ex (\<lambda>(n, p). leaf = n \<or> prefix p leaf) entries"

definition entry_of_sections :: "env_vars \<Rightarrow> path \<Rightarrow> hatch_config option \<times> hatch_config option \<Rightarrow> workspace_entry" where
  "entry_of_sections vars workspace sections =
     \<lparr>virtual_dirs = resolve_virtual_paths_against_workspace vars workspace (extract_virtual_paths sections),
      matcher = env_name_matcher (extract_env_names sections)\<rparr>"

definition parse_workspace :: "hatch_context \<Rightarrow> path \<Rightarrow> workspace_entry" where
  "parse_workspace hx workspace =
     entry_of_sections (hx_vars hx) workspace
       (read_pyproject_section (hx_toml hx) (hx_fs hx) workspace, read_hatch_toml (hx_toml hx) (hx_fs hx) workspace)"

section \<open>Environments\<close>

definition build_env_from_prefix :: "file_system \<Rightarrow> path \<Rightarrow> path option \<Rightarrow> python_environment option outcome" where
  "build_env_from_prefix fs pre project_path =
     and_then (pyvenv_find fs pre) (\<lambda>cfg.
       Ret (Option.bind cfg (\<lambda>cfg. map_option (\<lambda>exe.
         build (with_project project_path (with_symlinks (Some (find_executables fs pre))
           (with_prefix (Some pre) (with_version (cfg_version cfg) (with_executable (Some exe)
           (with_name (or_else (cfg_prompt cfg) (file_name pre)) (builder_new (Some Hatch)))))))))
         (find_executable fs pre))))"

definition hatch_build_env ::
  "file_system \<Rightarrow> path \<Rightarrow> py_venv_cfg \<Rightarrow> string \<Rightarrow> path option \<Rightarrow> path \<Rightarrow> python_environment" where
  "hatch_build_env fs pre cfg fallback_name project_path exe =
     build (with_project project_path (with_symlinks (Some (find_executables fs pre))
       (with_prefix (Some pre) (with_version (cfg_version cfg) (with_executable (Some exe)
       (with_name (Some (unwrap_or (cfg_prompt cfg) fallback_name)) (builder_new (Some Hatch))))))))"

definition sub_dirs :: "file_system \<Rightarrow> path \<Rightarrow> path list" where
  "sub_dirs fs d = filter (is_dir fs) (unwrap_or (read_dir fs d) [])"

definition storage_leaves :: "file_system \<Rightarrow> path \<Rightarrow> path list" where
  "storage_leaves fs storage =
     concat (map (\<lambda>p. concat (map (sub_dirs fs) (sub_dirs fs p))) (sub_dirs fs storage))"

definition find_envs_in_default_storage :: "file_system \<Rightarrow> path \<Rightarrow> python_environment list outcome" where
  "find_envs_in_default_storage fs storage =
     and_then (map_outcome (\<lambda>d. build_env_from_prefix fs d None) (storage_leaves fs storage)) (\<lambda>es.
       Ret (List.map_filter id es))"

definition find_envs_in_flat_dir ::
  "file_system \<Rightarrow> path \<Rightarrow> path option \<Rightarrow> (string \<times> string) list \<Rightarrow> python_environment list outcome" where
  "find_envs_in_flat_dir fs d project_path entries =
     and_then (map_outcome (\<lambda>e. build_env_from_prefix fs e project_path)
         (filter (\<lambda>e. case file_name e of Some leaf \<Rightarrow> matcher_matches entries leaf | None \<Rightarrow> False) (sub_dirs fs d)))
       (\<lambda>es. Ret (List.map_filter id es))"

section \<open>The locator\<close>

text \<open>\<open>workspace_entry\<close> of a caller that no \<open>configure\<close> disturbs.\<close>

definition hatch_workspace_entry :: "hatch_context \<Rightarrow> path \<Rightarrow> hatch_state \<Rightarrow> hatch_state \<times> workspace_entry" where
  "hatch_workspace_entry hx workspace st =
     (case hatch_parsed st (components workspace) of
        Some e \<Rightarrow> (st, e)
      | None \<Rightarrow>
          let e = parse_workspace hx workspace
          in if path_contains (hatch_workspaces st) workspace
             then (st\<lparr>hatch_parsed := (hatch_parsed st)(components workspace \<mapsto> e)\<rparr>, e)
             else (st, e))"

fun classify_in_workspaces ::
  "hatch_context \<Rightarrow> path \<Rightarrow> path list \<Rightarrow> hatch_state \<Rightarrow> hatch_state \<times> (string \<times> path option) option" where
  "classify_in_workspaces hx pre [] st = (st, None)"
| "classify_in_workspaces hx pre (w # ws) st =
     (let (st', e) = hatch_workspace_entry hx w st; n = unwrap_or (file_name pre) []
      in if list_ex (prefix_is_directly_under pre) (virtual_dirs e) \<and> matcher_matches (matcher e) n
         then (st', Some (n, Some w))
         else classify_in_workspaces hx pre ws st')"

definition hatch_classify ::
  "hatch_context \<Rightarrow> path option \<Rightarrow> path \<Rightarrow> hatch_state \<Rightarrow> hatch_state \<times> (string \<times> path option) option" where
  "hatch_classify hx storage pre st =
     (case Option.bind storage (match_default_storage_layout pre) of
        Some n \<Rightarrow> (st, Some (n, None))
      | None \<Rightarrow> classify_in_workspaces hx pre (hatch_workspaces st) st)"

definition hatch_try_from ::
  "hatch_context \<Rightarrow> path option \<Rightarrow> python_env \<Rightarrow> hatch_state \<Rightarrow> (hatch_state \<times> python_environment option) outcome" where
  "hatch_try_from hx storage env st =
     (case or_else (pe_prefix env) (Option.bind (parent (pe_executable env)) parent) of
        None \<Rightarrow> Ret (st, None)
      | Some pre \<Rightarrow>
          (case hatch_classify hx storage pre st of
             (st', None) \<Rightarrow> Ret (st', None)
           | (st', Some (n, project_path)) \<Rightarrow>
               and_then (pyvenv_find (hx_fs hx) pre) (\<lambda>cfg.
                 Ret (st', map_option (\<lambda>cfg.
                   hatch_build_env (hx_fs hx) pre cfg n project_path (pe_executable env)) cfg))))"

fun hatch_find_workspaces ::
  "hatch_context \<Rightarrow> path list \<Rightarrow> hatch_state \<Rightarrow> (hatch_state \<times> python_environment list) outcome" where
  "hatch_find_workspaces hx [] st = Ret (st, [])"
| "hatch_find_workspaces hx (w # ws) st =
     (let (st', e) = hatch_workspace_entry hx w st
      in and_then (map_outcome (\<lambda>d. find_envs_in_flat_dir (hx_fs hx) d (Some w) (matcher e)) (virtual_dirs e)) (\<lambda>ess.
         and_then (hatch_find_workspaces hx ws st') (\<lambda>(st'', es). Ret (st'', concat ess @ es))))"

definition hatch_find ::
  "hatch_context \<Rightarrow> path option \<Rightarrow> hatch_state \<Rightarrow> (hatch_state \<times> python_environment list) outcome" where
  "hatch_find hx storage st =
     and_then (case storage of
                 Some d \<Rightarrow> if is_dir (hx_fs hx) d then find_envs_in_default_storage (hx_fs hx) d else Ret []
               | None \<Rightarrow> Ret []) (\<lambda>es.
     and_then (hatch_find_workspaces hx (hatch_workspaces st) st) (\<lambda>(st', es'). Ret (st', es @ es')))"

section \<open>The contract of a locator\<close>

lemma hatch_claim:
  assumes "hatch_try_from hx storage env st = Ret (st', Some e)"
  shows "claims environment_kind.Hatch (pe_executable env) e"
proof -
  from assms obtain pre where pre: "or_else (pe_prefix env) (Option.bind (parent (pe_executable env)) parent) = Some pre"
    by (auto simp: hatch_try_from_def split: option.split_asm)
  obtain st1 c where c: "hatch_classify hx storage pre st = (st1, c)" by fastforce
  with assms pre show ?thesis
    by (cases c) (auto simp: hatch_try_from_def hatch_build_env_def and_then_Ret simp del: not_None_eq)
qed

interpretation hatch: env_locator
  "\<lambda>env. and_then (hatch_try_from hx storage env st) (\<lambda>(_, e). Ret e)" "[environment_kind.Hatch]" for hx storage st
  by unfold_locales (auto simp: and_then_Ret claims_def dest!: hatch_claim)

section \<open>What a search reports is identified in the same way\<close>

text \<open>The entries of a directory are its path joined with a name.\<close>

definition lists_children :: "file_system \<Rightarrow> bool" where
  "lists_children fs \<longleftrightarrow>
     (\<forall>d es q. read_dir fs d = Some es \<longrightarrow> q \<in> set es \<longrightarrow> (\<exists>n. components q = components d @ [Normal n]))"

lemma sub_dirs_components:
  "lists_children fs \<Longrightarrow> q \<in> set (sub_dirs fs d) \<Longrightarrow> \<exists>n. components q = components d @ [Normal n]"
  by (cases "read_dir fs d") (auto simp: sub_dirs_def lists_children_def)

lemma storage_leaf_layout:
  assumes "lists_children fs" "leaf \<in> set (storage_leaves fs storage)"
  shows "\<exists>n. match_default_storage_layout leaf storage = Some n \<and> file_name leaf = Some n"
proof -
  from assms(2) obtain p i where d: "p \<in> set (sub_dirs fs storage)" "i \<in> set (sub_dirs fs p)" "leaf \<in> set (sub_dirs fs i)"
    by (auto simp: storage_leaves_def)
  note sub = sub_dirs_components [OF assms(1)]
  from sub [OF d(1)] sub [OF d(2)] sub [OF d(3)] obtain a b c where
    "components leaf = components storage @ [Normal a, Normal b, Normal c]" by auto
  then show ?thesis
    by (simp add: match_default_storage_layout_def norm_case_def file_name_def)
qed

text \<open>C26: What a search of Hatch's own storage reports is identified in the same way when an
  interpreter of it is looked up: \<open>try_from\<close>, asked about the executable that was found in the
  prefix, returns the very environment that \<open>find\<close> reported, whatever workspaces are configured.\<close>

theorem hatch_find_identified:
  assumes "lists_children (hx_fs hx)" "find_envs_in_default_storage (hx_fs hx) storage = Ret es" "e \<in> set es"
  shows "\<exists>pre exe. env_prefix e = Some pre \<and> find_executable (hx_fs hx) pre = Some exe
     \<and> hatch_try_from hx (Some storage) \<lparr>pe_executable = exe, pe_prefix = Some pre, pe_version = v, pe_symlinks = l\<rparr> st
         = Ret (st, Some e)"
proof -
  from assms(2,3) obtain rs where "map_outcome (\<lambda>d. build_env_from_prefix (hx_fs hx) d None) (storage_leaves (hx_fs hx) storage) = Ret rs"
    and "Some e \<in> set rs" by (auto simp: find_envs_in_default_storage_def and_then_Ret List.map_filter_def)
  then obtain pre where pre: "pre \<in> set (storage_leaves (hx_fs hx) storage)"
    and b: "build_env_from_prefix (hx_fs hx) pre None = Ret (Some e)" by (auto dest: map_outcome_member)
  from storage_leaf_layout [OF assms(1) pre] obtain n where
    n: "match_default_storage_layout pre storage = Some n" "file_name pre = Some n" by blast
  from b obtain cfg exe where cfg: "pyvenv_find (hx_fs hx) pre = Ret (Some cfg)" "find_executable (hx_fs hx) pre = Some exe"
    and e: "e = hatch_build_env (hx_fs hx) pre cfg n None exe"
    by (auto simp: build_env_from_prefix_def and_then_Ret bind_eq_Some_conv hatch_build_env_def n or_else_def unwrap_or_def
      split: option.splits)
  have "env_prefix e = Some pre" by (simp add: e hatch_build_env_def)
  with cfg n e show ?thesis
    by (intro exI [of _ pre] exI [of _ exe]) (simp add: hatch_try_from_def hatch_classify_def or_else_def)
qed

text \<open>A storage with the environment \<open>/s/p/1/e\<close>.\<close>

definition hatch_storage_fs :: file_system where
  "hatch_storage_fs =
     (plain_fs [''/s/p/1/e/pyvenv.cfg'', ''/s/p/1/e/bin/python'']
        [''/s'', ''/s/p'', ''/s/p/1'', ''/s/p/1/e'', ''/s/p/1/e/bin''])
       \<lparr>read_to_string := map_of [(''/s/p/1/e/pyvenv.cfg'', ''prompt = my'')]\<rparr>"

lemma plain_fs_lists_children:
  assumes "list_all (\<lambda>q. file_name q \<noteq> None) (files @ dirs)"
  shows "lists_children (plain_fs files dirs)"
  unfolding lists_children_def
proof (intro allI impI)
  fix d es q assume "read_dir (plain_fs files dirs) d = Some es" "q \<in> set es"
  then have q: "q \<in> set (files @ dirs)" "parent q = Some d" by (auto simp: plain_fs_def split: if_split_asm)
  with assms obtain f where f: "file_name q = Some f" by (auto simp: list_all_iff)
  from components_parent [OF q(2)] file_name_components(1) [OF f] show "\<exists>n. components q = components d @ [Normal n]" by auto
qed

theorem hatch_find_identified_witness:
  "\<exists>e. find_envs_in_default_storage hatch_storage_fs ''/s'' = Ret [e] \<and>
     (\<exists>pre exe. env_prefix e = Some pre \<and> find_executable hatch_storage_fs pre = Some exe
        \<and> hatch_try_from \<lparr>hx_os = OtherUnix, hx_vars = (\<lambda>_. None), hx_fs = hatch_storage_fs, hx_toml = (\<lambda>_. None)\<rparr> (Some ''/s'')
            \<lparr>pe_executable = exe, pe_prefix = Some pre, pe_version = None, pe_symlinks = None\<rparr>
            \<lparr>hatch_generation = 0, hatch_workspaces = [], hatch_parsed = Map.empty\<rparr>
          = Ret (\<lparr>hatch_generation = 0, hatch_workspaces = [], hatch_parsed = Map.empty\<rparr>, Some e))"
proof -
  let ?hx = "\<lparr>hx_os = OtherUnix, hx_vars = (\<lambda>_. None), hx_fs = hatch_storage_fs, hx_toml = (\<lambda>_. None)\<rparr>"
  have leaves: "storage_leaves hatch_storage_fs ''/s'' = [''/s/p/1/e'']" by code_simp
  have exe: "find_executable hatch_storage_fs ''/s/p/1/e'' = Some ''/s/p/1/e/bin/python''" by code_simp
  have "case pyvenv_find hatch_storage_fs ''/s/p/1/e'' of Ret (Some cfg) \<Rightarrow> True | _ \<Rightarrow> False" by code_simp
  then obtain cfg where "pyvenv_find hatch_storage_fs ''/s/p/1/e'' = Ret (Some cfg)"
    by (auto split: outcome.split_asm option.split_asm)
  with exe leaves obtain e where e: "find_envs_in_default_storage (hx_fs ?hx) ''/s'' = Ret [e]"
    by (simp add: find_envs_in_default_storage_def build_env_from_prefix_def List.map_filter_def)
  have "lists_children (plain_fs [''/s/p/1/e/pyvenv.cfg'', ''/s/p/1/e/bin/python'']
      [''/s'', ''/s/p'', ''/s/p/1'', ''/s/p/1/e'', ''/s/p/1/e/bin''])"
    by (rule plain_fs_lists_children) code_simp
  then have "lists_children (hx_fs ?hx)" by (simp add: hatch_storage_fs_def lists_children_def)
  from hatch_find_identified [OF this e] e show ?thesis by auto
qed

section \<open>The cache of parsed workspaces\<close>

text \<open>
  The positions of a call of \<open>workspace_entry\<close>. Beside the generation it has seen, the model keeps
  how many \<open>configure\<close> requests there had been and when the two files were read.
\<close>

datatype workspace_pc =
    WsLook
  | WsReadPyproject "64 word" nat
  | WsReadHatch "64 word" nat nat "hatch_config option"
  | WsInsert "64 word" nat nat nat workspace_entry
  | WsReturned workspace_entry

record workspace_thread =
  wt_workspace :: path
  wt_pc :: workspace_pc

record hatch_system =
  hs_disks :: "file_system list"
  hs_state :: hatch_state
  hs_configures :: nat
  hs_configured_at :: nat
  hs_threads :: "workspace_thread list"

abbreviation hatch_now :: "hatch_system \<Rightarrow> nat" where
  "hatch_now s \<equiv> length (hs_disks s) - 1"

fun workspace_step ::
  "toml_parser \<Rightarrow> env_vars \<Rightarrow> hatch_system \<Rightarrow> path \<Rightarrow> workspace_pc \<Rightarrow> (hatch_state \<times> workspace_pc) option" where
  "workspace_step toml vars s w WsLook =
     Some (hs_state s,
       case hatch_parsed (hs_state s) (components w) of
         Some e \<Rightarrow> WsReturned e
       | None \<Rightarrow> WsReadPyproject (hatch_generation (hs_state s)) (hs_configures s))"
| "workspace_step toml vars s w (WsReadPyproject g n) =
     Some (hs_state s, WsReadHatch g n (hatch_now s) (read_pyproject_section toml (hs_disks s ! hatch_now s) w))"
| "workspace_step toml vars s w (WsReadHatch g n i section) =
     Some (hs_state s, WsInsert g n i (hatch_now s)
       (entry_of_sections vars w (section, read_hatch_toml toml (hs_disks s ! hatch_now s) w)))"
| "workspace_step toml vars s w (WsInsert g n i j e) =
     Some (let st = hs_state s in
       if hatch_generation st \<noteq> g then (st, WsLook)
       else if \<not> path_contains (hatch_workspaces st) w then (st, WsReturned e)
       else case hatch_parsed st (components w) of
              Some e' \<Rightarrow> (st, WsReturned e')
            | None \<Rightarrow> (st\<lparr>hatch_parsed := (hatch_parsed st)(components w \<mapsto> e)\<rparr>, WsReturned e))"
| "workspace_step toml vars s w (WsReturned e) = None"

inductive hatch_sys_step :: "toml_parser \<Rightarrow> env_vars \<Rightarrow> hatch_system \<Rightarrow> hatch_system \<Rightarrow> bool"
  for toml vars where
  hatch_call: "hatch_sys_step toml vars s (s\<lparr>hs_threads := hs_threads s @ [\<lparr>wt_workspace = w, wt_pc = WsLook\<rparr>]\<rparr>)"
| hatch_thread:
    "i < length (hs_threads s) \<Longrightarrow> th = hs_threads s ! i
     \<Longrightarrow> workspace_step toml vars s (wt_workspace th) (wt_pc th) = Some (st, pc)
     \<Longrightarrow> hatch_sys_step toml vars s (s\<lparr>hs_state := st, hs_threads := (hs_threads s)[i := th\<lparr>wt_pc := pc\<rparr>]\<rparr>)"
| hatch_reconfigure:
    "hatch_sys_step toml vars s
       (s\<lparr>hs_state := hatch_configure c (hs_state s), hs_configures := Suc (hs_configures s),
          hs_configured_at := hatch_now s\<rparr>)"
| hatch_change: "hatch_sys_step toml vars s (s\<lparr>hs_disks := hs_disks s @ [fs]\<rparr>)"

definition hatch_init :: "hatch_system \<Rightarrow> bool" where
  "hatch_init s \<longleftrightarrow>
     hs_disks s \<noteq> [] \<and> hs_state s = \<lparr>hatch_generation = 0, hatch_workspaces = [], hatch_parsed = Map.empty\<rparr>
     \<and> hs_configures s = 0 \<and> hs_configured_at s = 0 \<and> hs_threads s = []"

text \<open>An entry whose files were read at the moments \<open>i\<close> and \<open>j\<close>.\<close>

definition entry_at :: "toml_parser \<Rightarrow> env_vars \<Rightarrow> file_system list \<Rightarrow> path \<Rightarrow> nat \<Rightarrow> nat \<Rightarrow> workspace_entry" where
  "entry_at toml vars ds w i j =
     entry_of_sections vars w (read_pyproject_section toml (ds ! i) w, read_hatch_toml toml (ds ! j) w)"

fun workspace_pc_good :: "toml_parser \<Rightarrow> env_vars \<Rightarrow> hatch_system \<Rightarrow> path \<Rightarrow> workspace_pc \<Rightarrow> bool" where
  "workspace_pc_good toml vars s w (WsReadPyproject g n) \<longleftrightarrow> g = of_nat n \<and> n \<le> hs_configures s"
| "workspace_pc_good toml vars s w (WsReadHatch g n i section) \<longleftrightarrow>
     g = of_nat n \<and> n \<le> hs_configures s \<and> i < length (hs_disks s)
     \<and> (n = hs_configures s \<longrightarrow> hs_configured_at s \<le> i)
     \<and> section = read_pyproject_section toml (hs_disks s ! i) w"
| "workspace_pc_good toml vars s w (WsInsert g n i j e) \<longleftrightarrow>
     g = of_nat n \<and> n \<le> hs_configures s \<and> i \<le> j \<and> j < length (hs_disks s)
     \<and> (n = hs_configures s \<longrightarrow> hs_configured_at s \<le> i)
     \<and> e = entry_at toml vars (hs_disks s) w i j"
| "workspace_pc_good toml vars s w _ \<longleftrightarrow> True"

definition fresh_entry :: "toml_parser \<Rightarrow> env_vars \<Rightarrow> hatch_system \<Rightarrow> component list \<Rightarrow> workspace_entry \<Rightarrow> bool" where
  "fresh_entry toml vars s k e \<longleftrightarrow>
     (\<exists>w i j. components w = k \<and> path_contains (hatch_workspaces (hs_state s)) w
        \<and> hs_configured_at s \<le> i \<and> i \<le> j \<and> j < length (hs_disks s) \<and> e = entry_at toml vars (hs_disks s) w i j)"

definition hatch_inv :: "toml_parser \<Rightarrow> env_vars \<Rightarrow> hatch_system \<Rightarrow> bool" where
  "hatch_inv toml vars s \<longleftrightarrow>
     hs_configured_at s < length (hs_disks s) \<and> hatch_generation (hs_state s) = of_nat (hs_configures s)
     \<and> (\<forall>th \<in> set (hs_threads s). workspace_pc_good toml vars s (wt_workspace th) (wt_pc th))
     \<and> (hs_configures s < 2 ^ 64 \<longrightarrow>
          (\<forall>k e. hatch_parsed (hs_state s) k = Some e \<longrightarrow> fresh_entry toml vars s k e))"

lemma of_nat_generation_eq: "n \<le> m \<Longrightarrow> m < 2 ^ 64 \<Longrightarrow> (of_nat n :: 64 word) = of_nat m \<longleftrightarrow> n = m"
  by (auto simp: word_of_nat_eq_iff take_bit_nat_eq_self)

lemma workspace_step_good:
  assumes inv: "hatch_inv toml vars s" and good: "workspace_pc_good toml vars s w pc"
    and step: "workspace_step toml vars s w pc = Some (st, pc')"
  shows "hatch_generation st = hatch_generation (hs_state s) \<and> hatch_workspaces st = hatch_workspaces (hs_state s)
    \<and> workspace_pc_good toml vars (s\<lparr>hs_state := st\<rparr>) w pc'
    \<and> (hs_configures s < 2 ^ 64 \<longrightarrow> (\<forall>k e. hatch_parsed st k = Some e \<longrightarrow> fresh_entry toml vars s k e))"
  using step inv good
proof (cases pc)
  case (WsInsert g n i j e)
  have "n = hs_configures s" if "hs_configures s < 2 ^ 64" "hatch_generation (hs_state s) = g"
  proof -
    from good WsInsert have "g = of_nat n" "n \<le> hs_configures s" by simp_all
    moreover from inv have "hatch_generation (hs_state s) = of_nat (hs_configures s)" by (simp only: hatch_inv_def)
    ultimately show ?thesis using that of_nat_generation_eq by metis
  qed
  then have new: "fresh_entry toml vars s (components w) e"
    if "hs_configures s < 2 ^ 64" "hatch_generation (hs_state s) = g" "path_contains (hatch_workspaces (hs_state s)) w"
    using that good WsInsert unfolding fresh_entry_def
    by (intro exI [of _ w] exI [of _ i] exI [of _ j]) simp
  from inv have old: "hs_configures s < 2 ^ 64 \<longrightarrow> (\<forall>k e. hatch_parsed (hs_state s) k = Some e \<longrightarrow> fresh_entry toml vars s k e)"
    by (simp add: hatch_inv_def)
  from step WsInsert old new show ?thesis
    by (simp add: Let_def split: if_split_asm option.split_asm) (auto split: if_split_asm)
qed (auto simp: hatch_inv_def entry_at_def split: option.split_asm)

lemma fresh_entry_state:
  "hatch_workspaces st = hatch_workspaces (hs_state s)
   \<Longrightarrow> fresh_entry toml vars (s\<lparr>hs_state := st, hs_threads := ts\<rparr>) k e = fresh_entry toml vars s k e"
  by (simp add: fresh_entry_def)

lemma workspace_pc_good_frame:
  assumes "workspace_pc_good toml vars s w pc" "hs_configures s = hs_configures t" "hs_configured_at s = hs_configured_at t"
    "hs_disks t = hs_disks s @ ds"
  shows "workspace_pc_good toml vars t w pc"
  using assms by (cases pc) (auto simp: nth_append entry_at_def)

lemma workspace_pc_good_reconfigure:
  "workspace_pc_good toml vars s w pc
   \<Longrightarrow> workspace_pc_good toml vars (s\<lparr>hs_state := st, hs_configures := Suc (hs_configures s), hs_configured_at := m\<rparr>) w pc"
  by (cases pc) (auto simp: entry_at_def)

lemma hatch_inv_step:
  assumes "hatch_inv toml vars s" "hatch_sys_step toml vars s t"
  shows "hatch_inv toml vars t"
  using assms(2)
proof cases
  case (hatch_thread i th st pc)
  from hatch_thread(2,3) assms(1) have "workspace_pc_good toml vars s (wt_workspace th) (wt_pc th)"
    by (simp add: hatch_inv_def)
  note sg = workspace_step_good [OF assms(1) this hatch_thread(4)]
  have "workspace_pc_good toml vars t (wt_workspace th') (wt_pc th')" if "th' \<in> set (hs_threads t)" for th'
  proof -
    from that consider "th' \<in> set (hs_threads s)" | "th' = th\<lparr>wt_pc := pc\<rparr>"
      by (auto simp: hatch_thread(1) dest!: subsetD [OF set_update_subset_insert])
    then show ?thesis
    proof cases
      case 1
      with assms(1) show ?thesis
        by (auto simp: hatch_inv_def hatch_thread(1) intro: workspace_pc_good_frame [where ds = "[]"])
    next
      case 2
      with sg show ?thesis
        by (auto simp: hatch_thread(1) intro: workspace_pc_good_frame [where ds = "[]" and s = "s\<lparr>hs_state := st\<rparr>"])
    qed
  qed
  with assms(1) sg show ?thesis
    by (simp add: hatch_inv_def hatch_thread(1) fresh_entry_state)
next
  case (hatch_call w)
  with assms(1) show ?thesis
    by (auto simp: hatch_inv_def fresh_entry_def intro: workspace_pc_good_frame [where ds = "[]"])
next
  case (hatch_reconfigure c)
  with assms(1) show ?thesis
    by (auto simp: hatch_inv_def hatch_configure_def intro: workspace_pc_good_reconfigure)
next
  case (hatch_change fs)
  have "fresh_entry toml vars t k e" if "fresh_entry toml vars s k e" for k e
  proof -
    from that obtain w i j where w: "components w = k" "path_contains (hatch_workspaces (hs_state s)) w"
      "hs_configured_at s \<le> i" "i \<le> j" "j < length (hs_disks s)" "e = entry_at toml vars (hs_disks s) w i j"
      by (auto simp: fresh_entry_def)
    then show ?thesis unfolding fresh_entry_def hatch_change
      by (intro exI [of _ w] exI [of _ i] exI [of _ j]) (simp add: entry_at_def nth_append)
  qed
  with assms(1) hatch_change show ?thesis
    by (auto simp: hatch_inv_def intro: workspace_pc_good_frame)
qed

interpretation hatch_cache: inv_system hatch_init "hatch_sys_step toml vars" "hatch_inv toml vars"
  for toml vars
proof
  show "hatch_inv toml vars s" if "hatch_init s" for s
    using that by (simp add: hatch_init_def hatch_inv_def)
qed (rule hatch_inv_step)

text \<open>C25: No stale parse survives a \<open>configure\<close>. However calls of \<open>workspace_entry\<close>,
  \<open>configure\<close> requests and changes of the files interleave, a workspace in the cache is one that is
  configured now, and its entry is what the two files held at moments (the second no earlier than
  the first) that lie after the last \<open>configure\<close>, as long as the generation counter has not gone
  around.\<close>

theorem hatch_cache_current:
  assumes "hatch_init s" "(hatch_sys_step toml vars)\<^sup>*\<^sup>* s t" "hs_configures t < 2 ^ 64"
    and "hatch_parsed (hs_state t) k = Some e"
  shows "\<exists>w i j. components w = k \<and> path_contains (hatch_workspaces (hs_state t)) w
    \<and> hs_configured_at t \<le> i \<and> i \<le> j \<and> j < length (hs_disks t)
    \<and> e = entry_of_sections vars w
        (read_pyproject_section toml (hs_disks t ! i) w, read_hatch_toml toml (hs_disks t ! j) w)"
  using hatch_cache.inv_reachable [OF assms(1,2)] assms(3,4)
  by (auto simp: hatch_inv_def fresh_entry_def entry_at_def)

text \<open>One configured workspace without files and one call, which fills the cache.\<close>

definition one_workspace :: configuration where
  "one_workspace = configuration_default\<lparr>workspace_directories := Some [''/w'']\<rparr>"

abbreviation hatch_call_state :: "hatch_state \<Rightarrow> nat \<Rightarrow> workspace_pc list \<Rightarrow> hatch_system" where
  "hatch_call_state st n pcs \<equiv>
     \<lparr>hs_disks = [plain_fs [] []], hs_state = st, hs_configures = n, hs_configured_at = 0,
      hs_threads = map (\<lambda>pc. \<lparr>wt_workspace = ''/w'', wt_pc = pc\<rparr>) pcs\<rparr>"

lemma hatch_call_step:
  assumes "workspace_step toml vars (hatch_call_state st n [pc]) ''/w'' pc = Some (st', pc')"
  shows "hatch_sys_step toml vars (hatch_call_state st n [pc]) (hatch_call_state st' n [pc'])"
  using hatch_thread [of 0 "hatch_call_state st n [pc]" _ toml vars st' pc'] assms by simp

theorem hatch_cache_current_witness:
  "\<exists>s t e. hatch_init s \<and> (hatch_sys_step (\<lambda>_. None) (\<lambda>_. None))\<^sup>*\<^sup>* s t
     \<and> hatch_parsed (hs_state t) (components ''/w'') = Some e
     \<and> (\<exists>w i j. components w = components ''/w'' \<and> path_contains (hatch_workspaces (hs_state t)) w
          \<and> hs_configured_at t \<le> i \<and> i \<le> j \<and> j < length (hs_disks t)
          \<and> e = entry_of_sections (\<lambda>_. None) w
              (read_pyproject_section (\<lambda>_. None) (hs_disks t ! i) w, read_hatch_toml (\<lambda>_. None) (hs_disks t ! j) w))"
proof -
  let ?S = "hatch_sys_step (\<lambda>_. None) (\<lambda>_. None)" and ?fs = "plain_fs [] []"
  let ?st0 = "\<lparr>hatch_generation = 0, hatch_workspaces = [], hatch_parsed = Map.empty\<rparr>"
  let ?st1 = "hatch_configure one_workspace ?st0"
  let ?py = "read_pyproject_section (\<lambda>_. None) ?fs ''/w''"
  let ?e = "entry_of_sections (\<lambda>_. None) ''/w'' (?py, read_hatch_toml (\<lambda>_. None) ?fs ''/w'')"
  let ?st2 = "?st1\<lparr>hatch_parsed := (hatch_parsed ?st1)(components ''/w'' \<mapsto> ?e)\<rparr>"
  have st1: "hatch_parsed ?st1 = Map.empty" "hatch_workspaces ?st1 = [''/w'']" "hatch_generation ?st1 = 1"
    by (simp_all add: hatch_configure_def one_workspace_def unwrap_or_def)
  have "?S (hatch_call_state ?st0 0 []) (hatch_call_state ?st1 1 [])"
    using hatch_reconfigure [of "\<lambda>_. None" "\<lambda>_. None" "hatch_call_state ?st0 0 []" one_workspace] by simp
  moreover have "?S (hatch_call_state ?st1 1 []) (hatch_call_state ?st1 1 [WsLook])"
    using hatch_call [of "\<lambda>_. None" "\<lambda>_. None" "hatch_call_state ?st1 1 []" "''/w''"] by simp
  moreover have "?S (hatch_call_state ?st1 1 [WsLook]) (hatch_call_state ?st1 1 [WsReadPyproject 1 1])"
    by (rule hatch_call_step) (simp add: st1)
  moreover have "?S (hatch_call_state ?st1 1 [WsReadPyproject 1 1]) (hatch_call_state ?st1 1 [WsReadHatch 1 1 0 ?py])"
    by (rule hatch_call_step) simp
  moreover have "?S (hatch_call_state ?st1 1 [WsReadHatch 1 1 0 ?py]) (hatch_call_state ?st1 1 [WsInsert 1 1 0 0 ?e])"
    by (rule hatch_call_step) simp
  moreover have "?S (hatch_call_state ?st1 1 [WsInsert 1 1 0 0 ?e]) (hatch_call_state ?st2 1 [WsReturned ?e])"
    by (rule hatch_call_step) (simp add: st1 path_contains_iff)
  ultimately have run: "?S\<^sup>*\<^sup>* (hatch_call_state ?st0 0 []) (hatch_call_state ?st2 1 [WsReturned ?e])"
    by (meson converse_rtranclp_into_rtranclp rtranclp.rtrancl_refl)
  have init: "hatch_init (hatch_call_state ?st0 0 [])" by (simp add: hatch_init_def)
  show ?thesis
    using init run hatch_cache_current [OF init run, of "components ''/w''" ?e] by fastforce
qed

end
