(* ===== verification/Virtualenvwrapper.thy ===== *)
theory Virtualenvwrapper
  imports Virtual_Envs Os_Environment
begin

text \<open>The virtualenvwrapper locator, \<open>pet-virtualenvwrapper/src\<close>, in its Unix configuration.\<close>

record wrapper_vars =
  wv_home :: "path option"
  wv_workon_home :: "string option"

definition wrapper_vars_from :: "env_vars \<Rightarrow> wrapper_vars" where
  "wrapper_vars_from vars = \<lparr>wv_home = os_user_home vars, wv_workon_home = vars ''WORKON_HOME''\<rparr>"

definition get_default_virtualenvwrapper_path :: "file_system \<Rightarrow> wrapper_vars \<Rightarrow> path option" where
  "get_default_virtualenvwrapper_path fs wv =
     Option.bind (wv_home wv) (\<lambda>home.
       let d = path_join home ''.virtualenvs'' in if exists fs d then Some (norm_case d) else None)"

definition get_work_on_home_path :: "file_system \<Rightarrow> wrapper_vars \<Rightarrow> path option" where
  "get_work_on_home_path fs wv =
     (case wv_workon_home wv of
        Some d \<Rightarrow> if exists fs (norm_case d) then Some (norm_case d) else get_default_virtualenvwrapper_path fs wv
      | None \<Rightarrow> get_default_virtualenvwrapper_path fs wv)"

definition is_under_work_on_home :: "file_system \<Rightarrow> path \<Rightarrow> path \<Rightarrow> bool" where
  "is_under_work_on_home fs exe d \<longleftrightarrow>
     path_starts_with exe d
     \<or> (case (canonicalize fs exe, canonicalize fs d) of
          (Some e', Some d') \<Rightarrow> path_starts_with (norm_case e') (norm_case d') | _ \<Rightarrow> False)"

definition is_virtualenvwrapper :: "file_system \<Rightarrow> wrapper_vars \<Rightarrow> python_env \<Rightarrow> bool" where
  "is_virtualenvwrapper fs wv env \<longleftrightarrow>
     pe_prefix env \<noteq> None
     \<and> (case get_work_on_home_path fs wv of
          Some d \<Rightarrow> is_under_work_on_home fs (pe_executable env) d \<and> is_virtualenv fs env
        | None \<Rightarrow> False)"

text \<open>\<open>fs::metadata(..).is_ok()\<close> is the test \<open>exists\<close>.\<close>

definition wrapper_get_project :: "file_system \<Rightarrow> python_env \<Rightarrow> path option" where
  "wrapper_get_project fs env =
     Option.bind (pe_prefix env) (\<lambda>p.
     Option.bind (read_to_string fs (path_join p ''.project'')) (\<lambda>contents.
       let d = norm_case (trim contents) in if exists fs d then Some (norm_case d) else None))"

definition wrapper_try_from ::
  "decoder \<Rightarrow> file_system \<Rightarrow> wrapper_vars \<Rightarrow> python_env \<Rightarrow> python_environment option outcome" where
  "wrapper_try_from decode fs wv env =
     (if \<not> is_virtualenvwrapper fs wv env then Ret None
      else and_then (case (pe_version env, pe_prefix env) of
                       (Some v, _) \<Rightarrow> Ret (Some v)
                     | (None, Some p) \<Rightarrow> from_creator_for_virtual_env decode fs p
                     | (None, None) \<Rightarrow> Ret None) (\<lambda>ver.
             Ret (Some (build
               (with_symlinks (Some (case pe_prefix env of Some p \<Rightarrow> find_executables fs p | None \<Rightarrow> []))
               (with_project (wrapper_get_project fs env) (with_prefix (pe_prefix env) (with_version ver
               (with_executable (Some (pe_executable env))
               (with_name (Option.bind (pe_prefix env) file_name) (builder_new (Some VirtualEnvWrapper))))))))))))"

lemma wrapper_claim:
  "wrapper_try_from decode fs wv env = Ret (Some e) \<Longrightarrow> claims VirtualEnvWrapper (pe_executable env) e"
  by (auto simp: wrapper_try_from_def and_then_Ret simp del: not_None_eq split: if_split_asm)

interpretation virtualenvwrapper: env_locator "wrapper_try_from decode fs wv" "[VirtualEnvWrapper]" for decode fs wv
  by unfold_locales (auto simp: claims_def dest!: wrapper_claim)

text \<open>What this locator claims is a virtual environment with a prefix: the generic locator after it in
  the chain would have claimed it too, with the same version, prefix and links.\<close>

lemma wrapper_claim_virtualenv:
  assumes "wrapper_try_from decode fs wv env = Ret (Some e)"
  shows "\<exists>e'. virtualenv_try_from decode fs env = Ret (Some e') \<and> version e' = version e \<and> env_prefix e' = env_prefix e"
proof -
  from assms have v: "is_virtualenv fs env"
    by (auto simp: wrapper_try_from_def is_virtualenvwrapper_def split: if_split_asm option.split_asm)
  from assms obtain ver where "(case (pe_version env, pe_prefix env) of
      (Some v, _) \<Rightarrow> Ret (Some v) | (None, Some p) \<Rightarrow> from_creator_for_virtual_env decode fs p
      | (None, None) \<Rightarrow> Ret None) = Ret ver" "version e = ver" "env_prefix e = pe_prefix env"
    by (auto simp: wrapper_try_from_def and_then_Ret split: if_split_asm)
  with v show ?thesis by (simp add: virtualenv_try_from_def)
qed

end
