(* ===== verification/Homebrew.thy ===== *)
theory Homebrew
  imports Virtual_Envs
begin

text \<open>
  The Homebrew locator, \<open>pet-homebrew/src\<close>: the three installation prefixes, the paths under which
  Homebrew links an interpreter, and the environment that is built from the resolved interpreter.
  The threads of \<open>find\<close> are run one after the other.
\<close>

section \<open>Paths of an interpreter\<close>

definition is_homebrew_python :: "path \<Rightarrow> bool" where
  "is_homebrew_python exe \<longleftrightarrow>
     path_starts_with exe ''/opt/homebrew'' \<or> path_starts_with exe ''/usr/local/Cellar''
     \<or> path_starts_with exe ''/home/linuxbrew/.linuxbrew''"

text \<open>The version in \<open>/python@3.12/\<close> and the one in \<open>/3.12.4\<close>.\<close>

definition formula_version :: "path \<Rightarrow> string option" where
  "formula_version exe = find_map (groups_after ''/python@'') (tails exe)"

definition triple_after_slash :: "string \<Rightarrow> string option" where
  "triple_after_slash s =
     Option.bind (strip_prefix_str ''/'' s) (\<lambda>r. map_option (\<lambda>rest. take (length r - length rest) r) (match_triple r))"

definition homebrew_get_version :: "path \<Rightarrow> string option" where
  "homebrew_get_version exe = find_map triple_after_slash (tails exe)"

definition opt_homebrew_links :: "string \<Rightarrow> string \<Rightarrow> path list" where
  "opt_homebrew_links v full =
     [''/opt/homebrew/bin/python'' @ v,
      ''/opt/homebrew/opt/python@'' @ v @ ''/bin/python'' @ v,
      ''/opt/homebrew/Cellar/python@'' @ v @ ''/'' @ full @ ''/bin/python'' @ v,
      ''/opt/homebrew/Cellar/python@'' @ v @ ''/'' @ full @ ''/Frameworks/Python.framework/Versions/'' @ v @ ''/bin/python'' @ v,
      ''/opt/homebrew/Cellar/python@'' @ v @ ''/'' @ full @ ''/Frameworks/Python.framework/Versions/Current/bin/python'' @ v,
      ''/opt/homebrew/Frameworks/Python.framework/Versions/'' @ v @ ''/bin/python'' @ v,
      ''/opt/homebrew/Frameworks/Python.framework/Versions/Current/bin/python'' @ v,
      ''/usr/local/opt/python@'' @ v @ ''/bin/python3'',
      ''/usr/local/opt/python@'' @ v @ ''/bin/python'' @ v,
      ''/opt/homebrew/opt/python/bin/python3'',
      ''/opt/homebrew/opt/python/bin/python'' @ v,
      ''/opt/homebrew/opt/python@3/bin/python3'',
      ''/opt/homebrew/opt/python@3/bin/python'' @ v,
      ''/opt/homebrew/opt/python@'' @ v @ ''/bin/python3'',
      ''/opt/homebrew/opt/python@'' @ v @ ''/bin/python'' @ v,
      ''/usr/local/opt/python@3/bin/python3'',
      ''/usr/local/opt/python@3/bin/python'' @ v,
      ''/opt/homebrew/opt/python3/bin/python'' @ v,
      ''/opt/homebrew/bin/python3'',
      ''/opt/homebrew/bin/python'']"

definition usr_local_links :: "string \<Rightarrow> string \<Rightarrow> path list" where
  "usr_local_links v full =
     [''/usr/local/opt/python@'' @ v @ ''/bin/python3'',
      ''/usr/local/opt/python@'' @ v @ ''/bin/python'' @ v,
      ''/usr/local/opt/python@3/bin/python3'',
      ''/usr/local/opt/python@3/bin/python'' @ v,
      ''/usr/local/Cellar/python@'' @ v @ ''/'' @ full @ ''/bin/python'' @ v,
      ''/usr/local/Cellar/python@'' @ v @ ''/'' @ full @ ''/Frameworks/Python.framework/Versions/'' @ v @ ''/bin/python'' @ v,
      ''/usr/local/bin/python'' @ v,
      ''/usr/local/bin/python3'',
      ''/usr/local/bin/python'']"

definition linuxbrew_links :: "string \<Rightarrow> string \<Rightarrow> path list" where
  "linuxbrew_links v full =
     [''/home/linuxbrew/.linuxbrew/bin/python3'',
      ''/home/linuxbrew/.linuxbrew/bin/python'' @ v,
      ''/home/linuxbrew/.linuxbrew/Cellar/python@'' @ v @ ''/'' @ full @ ''/bin/python'' @ v,
      ''/home/linuxbrew/.linuxbrew/Cellar/python@'' @ v @ ''/'' @ full @ ''/bin/python3'',
      ''/home/linuxbrew/.linuxbrew/opt/python@'' @ v @ ''/bin/python'' @ v,
      ''/home/linuxbrew/.linuxbrew/opt/python@'' @ v @ ''/bin/python3'',
      ''/home/linuxbrew/.linuxbrew/opt/python3/bin/python'' @ v,
      ''/home/linuxbrew/.linuxbrew/opt/python3/bin/python3'',
      ''/home/linuxbrew/.linuxbrew/opt/python@3/bin/python'' @ v,
      ''/home/linuxbrew/.linuxbrew/opt/python@3/bin/python3'',
      ''/usr/local/bin/python'' @ v,
      ''/usr/local/bin/python3'',
      ''/usr/local/bin/python'']"

text \<open>A possible link is taken if it resolves to a path that has been taken before.\<close>

definition validated_links :: "(path \<Rightarrow> path option) \<Rightarrow> path \<Rightarrow> path list \<Rightarrow> path list" where
  "validated_links resolve exe possible =
     foldl (\<lambda>links l. if path_contains links (unwrap_or (resolve l) []) then links @ [l] else links) [exe] possible"

definition get_known_symlinks_impl :: "file_system \<Rightarrow> path \<Rightarrow> string \<Rightarrow> path list" where
  "get_known_symlinks_impl fs exe full =
     (let resolve_any = (\<lambda>l. or_else (resolve_symlink fs l) (canonicalize fs l)) in
      if path_starts_with exe ''/opt/homebrew''
      then (case formula_version exe of Some v \<Rightarrow> validated_links resolve_any exe (opt_homebrew_links v full) | None \<Rightarrow> [])
      else if path_starts_with exe ''/usr/local/Cellar''
      then (case formula_version exe of
              Some v \<Rightarrow> validated_links (resolve_symlink fs) exe (usr_local_links v full) | None \<Rightarrow> [])
      else if path_starts_with exe ''/home/linuxbrew/.linuxbrew''
      then (case formula_version exe of Some v \<Rightarrow> validated_links resolve_any exe (linuxbrew_links v full) | None \<Rightarrow> [])
      else [])"

definition get_known_symlinks :: "file_system \<Rightarrow> path \<Rightarrow> string \<Rightarrow> path list" where
  "get_known_symlinks fs exe full =
     (let links = get_known_symlinks_impl fs exe full;
          others = concat (map (\<lambda>l. case parent l of
                      Some bin \<Rightarrow> filter (\<lambda>p. case resolve_symlink fs p of Some r \<Rightarrow> path_contains links r | None \<Rightarrow> False)
                                    (find_executables fs bin)
                    | None \<Rightarrow> []) links)
      in sort_dedup (links @ others))"

section \<open>The locator\<close>

definition get_python_info :: "file_system \<Rightarrow> path \<Rightarrow> path \<Rightarrow> python_environment option" where
  "get_python_info fs bin_exe resolved_exe =
     (let ver = homebrew_get_version resolved_exe;
          known = (case ver of Some v \<Rightarrow> get_known_symlinks fs resolved_exe v | None \<Rightarrow> [])
      in map_option (\<lambda>d.
           let others = filter (\<lambda>l. path_eq (unwrap_or (resolve_symlink fs l) []) resolved_exe)
                          [path_join d ''python'', path_join d ''python3'']
           in build (with_symlinks (Some (sort_dedup ([bin_exe, resolved_exe] @ known @ others)))
                (with_prefix None (with_version ver (with_executable (Some bin_exe)
                (builder_new (Some environment_kind.Homebrew)))))))
           (parent bin_exe))"

text \<open>The resolved interpreter: a link that resolves into Homebrew is preferred to the link itself.\<close>

definition homebrew_resolved :: "file_system \<Rightarrow> path \<Rightarrow> path" where
  "homebrew_resolved fs exe =
     (case or_else (resolve_symlink fs exe) (canonicalize fs exe) of
        Some r \<Rightarrow> if is_homebrew_python r then r else unwrap_or (resolve_symlink fs exe) exe
      | None \<Rightarrow> unwrap_or (resolve_symlink fs exe) exe)"

definition homebrew_from :: "file_system \<Rightarrow> python_env \<Rightarrow> python_environment option" where
  "homebrew_from fs env =
     (if is_virtualenv fs env \<or> (case pe_prefix env of Some p \<Rightarrow> is_conda_env fs p | None \<Rightarrow> False) then None
      else case parent (pe_executable env) of
             None \<Rightarrow> None
           | Some bin \<Rightarrow>
               if is_conda_env fs bin then None
               else (case parent bin of
                       None \<Rightarrow> None
                     | Some d \<Rightarrow>
                         if is_conda_env fs d then None
                         else Option.bind (file_name (pe_executable env)) (\<lambda>f.
                           let r = homebrew_resolved fs (pe_executable env)
                           in if path_starts_with r ''/opt/homebrew''
                              then get_python_info fs (path_join ''/opt/homebrew/bin'' f) r
                              else if path_starts_with r ''/home/linuxbrew/.linuxbrew''
                              then get_python_info fs (path_join ''/home/linuxbrew/.linuxbrew/bin'' f) r
                              else if path_starts_with r ''/usr/local/Cellar''
                              then get_python_info fs (path_join ''/usr/local/bin'' f) r
                              else None)))"

definition get_homebrew_prefix_bin :: "file_system \<Rightarrow> env_vars \<Rightarrow> path list" where
  "get_homebrew_prefix_bin fs vars =
     (let prefixes = filter (exists fs) [''/home/linuxbrew/.linuxbrew/bin'', ''/opt/homebrew/bin'', ''/usr/local/bin'']
      in case vars ''HOMEBREW_PREFIX'' of
           None \<Rightarrow> prefixes
         | Some p \<Rightarrow>
             let b = path_join p ''bin''
             in if exists fs b \<and> \<not> path_contains prefixes b then prefixes @ [b] else prefixes)"

definition homebrew_candidate :: "path \<Rightarrow> bool" where
  "homebrew_candidate f =
     (let n = to_lowercase (unwrap_or (file_name f) []) in prefix ''python'' n \<and> n \<noteq> ''python3'' \<and> n \<noteq> ''python'')"

definition homebrew_find :: "file_system \<Rightarrow> env_vars \<Rightarrow> python_environment list outcome" where
  "homebrew_find fs vars =
     and_then (map_outcome (\<lambda>f. and_then (python_env_new fs f None None) (\<lambda>env. Ret (homebrew_from fs env)))
         (concat (map (\<lambda>b. filter homebrew_candidate (find_executables fs b)) (get_homebrew_prefix_bin fs vars))))
       (\<lambda>es. Ret (List.map_filter id es))"

section \<open>Links point to the interpreter\<close>

text \<open>\<open>fs::canonicalize\<close> gives a path that it leaves alone, whatever the spelling.\<close>

definition canonical_fs :: "file_system \<Rightarrow> bool" where
  "canonical_fs fs \<longleftrightarrow>
     (\<forall>p r. canonicalize fs p = Some r \<longrightarrow> (\<forall>q. path_eq q r \<longrightarrow> canonicalize fs q = Some r))"

definition links_to :: "file_system \<Rightarrow> path \<Rightarrow> path \<Rightarrow> bool" where
  "links_to fs exe l \<longleftrightarrow> path_eq l exe \<or> (\<exists>r. canonicalize fs l = Some r \<and> path_eq r exe)"

lemma resolve_symlink_canonical: "resolve_symlink fs p = Some r \<Longrightarrow> canonicalize fs p = Some r"
  by (auto simp: resolve_symlink_def split: option.split_asm if_split_asm)

lemma links_to_step:
  assumes "canonical_fs fs" "canonicalize fs l = Some r" "path_eq l' r" "links_to fs exe l'"
  shows "links_to fs exe l"
proof -
  from assms(1-3) have "canonicalize fs l' = Some r" unfolding canonical_fs_def by blast
  with assms(2-4) show ?thesis by (auto simp: links_to_def path_eq_def)
qed

lemma components_empty [simp]: "components [] = []"
  by (simp add: components_def comp_of_def has_root_def)

lemma validated_links_sound:
  assumes fs: "canonical_fs fs" and res: "\<And>p r. resolve p = Some r \<Longrightarrow> canonicalize fs p = Some r"
    and exe: "components exe \<noteq> []" and possible: "\<forall>l \<in> set possible. components l \<noteq> []"
  shows "\<forall>l \<in> set (validated_links resolve exe possible). links_to fs exe l \<and> components l \<noteq> []"
proof -
  have "\<forall>l \<in> set (foldl (\<lambda>links l. if path_contains links (unwrap_or (resolve l) []) then links @ [l] else links) ls ps).
      links_to fs exe l \<and> components l \<noteq> []"
    if "\<forall>l \<in> set ls. links_to fs exe l \<and> components l \<noteq> []" "\<forall>l \<in> set ps. components l \<noteq> []" for ls ps
    using that
  proof (induction ps arbitrary: ls)
    case (Cons p ps)
    have "links_to fs exe p" if c: "path_contains ls (unwrap_or (resolve p) [])"
    proof -
      from c obtain l where l: "l \<in> set ls" "path_eq l (unwrap_or (resolve p) [])" by (auto simp: path_contains_def)
      with Cons.prems(1) have "components (unwrap_or (resolve p) []) \<noteq> []" by (auto simp: path_eq_def)
      then obtain r where "resolve p = Some r" by (cases "resolve p") simp_all
      with links_to_step [OF fs res, of p r l exe] l Cons.prems(1) show ?thesis by auto
    qed
    with Cons.prems have ps: "\<forall>l \<in> set ps. components l \<noteq> []"
      and more: "path_contains ls (unwrap_or (resolve p) []) \<Longrightarrow> \<forall>l \<in> set (ls @ [p]). links_to fs exe l \<and> components l \<noteq> []"
      by auto
    show ?case
    proof (cases "path_contains ls (unwrap_or (resolve p) [])")
      case True
      from Cons.IH [OF more [OF True] ps] True show ?thesis by (simp only: foldl_Cons if_True)
    next
      case False
      from Cons.IH [OF Cons.prems(1) ps] False show ?thesis by (simp only: foldl_Cons if_False)
    qed
  qed simp
  from this [of "[exe]" possible] exe possible show ?thesis by (simp add: validated_links_def links_to_def)
qed

lemma rooted_components: "components (CHR ''/'' # s) \<noteq> []"
  by (simp add: components_def has_root_def)

lemma get_known_symlinks_impl_sound:
  assumes "canonical_fs fs" "components exe \<noteq> []" "l \<in> set (get_known_symlinks_impl fs exe full)"
  shows "links_to fs exe l \<and> components l \<noteq> []"
proof -
  have any: "canonicalize fs p = Some r" if "or_else (resolve_symlink fs p) (canonicalize fs p) = Some r" for p r
    using that resolve_symlink_canonical by (auto simp: or_else_def split: option.split_asm)
  let ?any = "\<lambda>l. or_else (resolve_symlink fs l) (canonicalize fs l)"
  have "\<forall>x \<in> set (opt_homebrew_links v full). components x \<noteq> []" "\<forall>x \<in> set (usr_local_links v full). components x \<noteq> []"
    "\<forall>x \<in> set (linuxbrew_links v full). components x \<noteq> []" for v
    by (simp_all add: opt_homebrew_links_def usr_local_links_def linuxbrew_links_def rooted_components)
  note lists = this
  have sound: "\<forall>l \<in> set (validated_links ?any exe ps). links_to fs exe l \<and> components l \<noteq> []"
    "\<forall>l \<in> set (validated_links (resolve_symlink fs) exe ps). links_to fs exe l \<and> components l \<noteq> []"
    if "\<forall>x \<in> set ps. components x \<noteq> []" for ps
    using validated_links_sound [OF assms(1), of ?any exe ps] any assms(2) that
      validated_links_sound [OF assms(1) resolve_symlink_canonical assms(2) that] by blast+
  note sound = sound(1) [OF lists(1)] sound(2) [OF lists(2)] sound(1) [OF lists(3)]
  show ?thesis
  proof (cases "formula_version exe")
    case None
    then have "get_known_symlinks_impl fs exe full = []" by (simp add: get_known_symlinks_impl_def Let_def)
    with assms(3) show ?thesis by simp
  next
    case (Some v)
    with assms(3) have "l \<in> set (validated_links ?any exe (opt_homebrew_links v full))
        \<or> l \<in> set (validated_links (resolve_symlink fs) exe (usr_local_links v full))
        \<or> l \<in> set (validated_links ?any exe (linuxbrew_links v full))"
      by (cases "path_starts_with exe ''/opt/homebrew''"; cases "path_starts_with exe ''/usr/local/Cellar''";
          cases "path_starts_with exe ''/home/linuxbrew/.linuxbrew''") (simp_all add: get_known_symlinks_impl_def)
    with sound show ?thesis by blast
  qed
qed

lemma get_known_symlinks_sound:
  assumes "canonical_fs fs" "components exe \<noteq> []" "l \<in> set (get_known_symlinks fs exe full)"
  shows "links_to fs exe l"
proof -
  let ?links = "get_known_symlinks_impl fs exe full"
  from assms(3) consider "l \<in> set ?links" | r where "resolve_symlink fs l = Some r" "path_contains ?links r"
    unfolding get_known_symlinks_def Let_def
    by (auto dest!: subsetD [OF set_sort_dedup] split: option.split_asm)
  then show ?thesis
  proof cases
    case 1
    with get_known_symlinks_impl_sound [OF assms(1,2)] show ?thesis by blast
  next
    case (2 r)
    then obtain l' where l': "l' \<in> set ?links" "path_eq l' r" by (auto simp: path_contains_def)
    with get_known_symlinks_impl_sound [OF assms(1,2)]
      links_to_step [OF assms(1) resolve_symlink_canonical [OF 2(1)] l'(2)] show ?thesis by blast
  qed
qed

lemma known_paths_new_executable: "known_paths (with_executable (Some exe) (builder_new k)) = {components exe}"
  by (cases "parent exe"; cases "file_name exe")
    (simp_all add: with_executable_def known_paths_update known_paths_set norm_case_def components_parent_join)

lemma homebrew_from_info:
  assumes "homebrew_from fs env = Some e"
  shows "\<exists>f b. file_name (pe_executable env) = Some f
    \<and> b \<in> {''/opt/homebrew/bin'', ''/home/linuxbrew/.linuxbrew/bin'', ''/usr/local/bin''}
    \<and> is_homebrew_python (homebrew_resolved fs (pe_executable env))
    \<and> get_python_info fs (path_join b f) (homebrew_resolved fs (pe_executable env)) = Some e"
  using assms
  by (auto simp: homebrew_from_def is_homebrew_python_def Let_def bind_eq_Some_conv split: if_split_asm option.split_asm)

lemma homebrew_resolved_nonempty: "is_homebrew_python r \<Longrightarrow> components r \<noteq> []"
  by (auto simp: is_homebrew_python_def path_starts_with_def rooted_components)

lemma get_python_info_claims:
  assumes "get_python_info fs b r = Some e" shows "claims environment_kind.Homebrew b e"
proof -
  from assms obtain ls v where
    "e = build (with_symlinks ls (with_prefix None (with_version v (with_executable (Some b) (builder_new (Some environment_kind.Homebrew))))))"
    by (auto simp: get_python_info_def Let_def)
  then show ?thesis by (simp del: not_None_eq)
qed

lemma get_python_info_paths:
  assumes "canonical_fs fs" "is_homebrew_python r" "get_python_info fs b r = Some e"
  shows "\<forall>k \<in> known_paths e. k = components b \<or> (\<exists>l. components l = k \<and> links_to fs r l)"
proof -
  note nonempty = homebrew_resolved_nonempty [OF assms(2)]
  from assms(3) obtain d where d: "parent b = Some d" by (auto simp: get_python_info_def Let_def)
  let ?known = "case homebrew_get_version r of Some v \<Rightarrow> get_known_symlinks fs r v | None \<Rightarrow> []"
  let ?others = "filter (\<lambda>l. path_eq (unwrap_or (resolve_symlink fs l) []) r) [path_join d ''python'', path_join d ''python3'']"
  from assms(3) d have e: "e = build (with_symlinks (Some (sort_dedup ([b, r] @ ?known @ ?others)))
      (with_prefix None (with_version (homebrew_get_version r) (with_executable (Some b) (builder_new (Some environment_kind.Homebrew))))))"
    by (simp add: get_python_info_def Let_def)
  have known: "links_to fs r l" if "l \<in> set ?known" for l
    using that get_known_symlinks_sound [OF assms(1) nonempty] by (auto split: option.split_asm)
  have others: "links_to fs r l" if l: "l \<in> set ?others" for l
  proof -
    from l have p: "path_eq (unwrap_or (resolve_symlink fs l) []) r" by (simp only: set_filter mem_Collect_eq)
    with nonempty have "resolve_symlink fs l \<noteq> None" by (cases "resolve_symlink fs l") (auto simp: path_eq_def)
    with p show ?thesis by (auto simp: links_to_def dest: resolve_symlink_canonical)
  qed
  have "known_paths e = {components b} \<union> components ` set ([b, r] @ ?known @ ?others)"
    unfolding e by (simp only: known_paths_build known_paths_with_symlinks known_paths_frames known_paths_new_executable
      unwrap_or_simps components_sort_dedup)
  then have paths: "known_paths e = components ` ({b, r} \<union> set ?known \<union> set ?others)" by (simp only: set_append list.set) blast
  have r: "links_to fs r r" by (simp add: links_to_def)
  show ?thesis
  proof
    fix k assume "k \<in> known_paths e"
    then obtain l where l: "k = components l" "l \<in> {b, r} \<union> set ?known \<union> set ?others" unfolding paths by (rule imageE)
    from l(2) consider "l = b" | "l = r" | "l \<in> set ?known" | "l \<in> set ?others" by (elim UnE insertE emptyE) simp_all
    then show "k = components b \<or> (\<exists>l. components l = k \<and> links_to fs r l)"
      by cases (use l(1) r known others in blast)+
  qed
qed

interpretation homebrew: building_locator "\<lambda>env. Ret (homebrew_from fs env)" "[environment_kind.Homebrew]" for fs
proof
  fix env e assume "Ret (homebrew_from fs env) = Ret (Some e)"
  then obtain b where "get_python_info fs b (homebrew_resolved fs (pe_executable env)) = Some e"
    using homebrew_from_info by (metis outcome.inject(1))
  from get_python_info_claims [OF this]
  show "env_wf e" "kind e \<in> Some ` set [environment_kind.Homebrew]" "executable e \<noteq> None"
    by (simp_all add: claims_def del: not_None_eq)
qed

section \<open>Properties\<close>

text \<open>C34: Of the paths that Homebrew lists for an interpreter, only the one in the \<open>bin\<close> directory of
  the prefix is not checked: every other path is the resolved interpreter itself or a link to it.\<close>

theorem homebrew_paths_resolve:
  assumes "canonical_fs fs" "homebrew_from fs env = Some e" "k \<in> known_paths e"
  shows "\<exists>l. components l = k \<and>
    (links_to fs (homebrew_resolved fs (pe_executable env)) l
     \<or> (\<exists>f. file_name (pe_executable env) = Some f
          \<and> l \<in> (\<lambda>b. path_join b f) ` {''/opt/homebrew/bin'', ''/home/linuxbrew/.linuxbrew/bin'', ''/usr/local/bin''}))"
proof -
  from homebrew_from_info [OF assms(2)] obtain f b where f: "file_name (pe_executable env) = Some f"
    "b \<in> {''/opt/homebrew/bin'', ''/home/linuxbrew/.linuxbrew/bin'', ''/usr/local/bin''}"
    "is_homebrew_python (homebrew_resolved fs (pe_executable env))"
    "get_python_info fs (path_join b f) (homebrew_resolved fs (pe_executable env)) = Some e" by blast
  from get_python_info_paths [OF assms(1) f(3,4)] assms(3) have
    "k = components (path_join b f) \<or> (\<exists>l. components l = k \<and> links_to fs (homebrew_resolved fs (pe_executable env)) l)" by blast
  with f(1,2) show ?thesis by blast
qed

text \<open>A link from outside into the Cellar, and no link in the \<open>bin\<close> directory of the prefix.\<close>

definition cellar_exe :: path where
  "cellar_exe = ''/opt/homebrew/Cellar/p/bin/python3''"

definition alias_fs :: file_system where
  "alias_fs =
     (plain_fs [cellar_exe, ''/x/b/python3''] [''/x'', ''/x/b''])
       \<lparr>symlink_metadata := (\<lambda>p. if path_eq p ''/x/b/python3'' then Some Symlink else None),
        canonicalize := (\<lambda>p. if path_contains [cellar_exe, ''/x/b/python3''] p then Some cellar_exe else None)\<rparr>"

definition alias_env :: python_env where
  "alias_env = \<lparr>pe_executable = ''/x/b/python3'', pe_prefix = None, pe_version = None, pe_symlinks = None\<rparr>"

lemma alias_claimed:
  "\<exists>e. homebrew_from alias_fs alias_env = Some e \<and> executable e = Some ''/opt/homebrew/bin/python3''
     \<and> symlinks e = Some [cellar_exe, ''/opt/homebrew/bin/python3'']"
proof -
  let ?b = "''/opt/homebrew/bin/python3''"
  let ?e = "build (with_symlinks (Some (sort_dedup [?b, cellar_exe])) (with_prefix None (with_version None
      (with_executable (Some ?b) (builder_new (Some environment_kind.Homebrew))))))"
  have guards: "\<not> is_virtualenv alias_fs alias_env" "\<not> is_conda_env alias_fs ''/x/b''" "\<not> is_conda_env alias_fs ''/x''"
    by code_simp+
  have paths: "parent ''/x/b/python3'' = Some ''/x/b''" "parent ''/x/b'' = Some ''/x''" "file_name ''/x/b/python3'' = Some ''python3''"
    "path_join ''/opt/homebrew/bin'' ''python3'' = ?b" "parent ?b = Some ''/opt/homebrew/bin''"
    "path_starts_with cellar_exe ''/opt/homebrew''" by code_simp+
  have resolved: "homebrew_resolved alias_fs ''/x/b/python3'' = cellar_exe" by code_simp
  have ver: "homebrew_get_version cellar_exe = None" by code_simp
  have others: "filter (\<lambda>l. path_eq (unwrap_or (resolve_symlink alias_fs l) []) cellar_exe)
      [path_join ''/opt/homebrew/bin'' ''python'', path_join ''/opt/homebrew/bin'' ''python3''] = []" by code_simp
  have "get_python_info alias_fs ?b cellar_exe = Some ?e"
    using ver paths(5) others by (simp add: get_python_info_def Let_def del: filter.simps)
  with guards paths resolved have "homebrew_from alias_fs alias_env = Some ?e"
    by (simp add: homebrew_from_def alias_env_def Let_def)
  moreover have "executable ?e = Some ?b \<and> symlinks ?e = Some [cellar_exe, ?b]" by code_simp
  ultimately show ?thesis by blast
qed

lemma alias_fs_canonical: "canonical_fs alias_fs"
  by (auto simp: canonical_fs_def alias_fs_def path_contains_def path_eq_def split: if_split_asm)

theorem homebrew_paths_resolve_witness:
  "\<exists>e. homebrew_from alias_fs alias_env = Some e \<and> components cellar_exe \<in> known_paths e
    \<and> (\<exists>l. components l = components cellar_exe \<and>
        (links_to alias_fs (homebrew_resolved alias_fs (pe_executable alias_env)) l
         \<or> (\<exists>f. file_name (pe_executable alias_env) = Some f
              \<and> l \<in> (\<lambda>b. path_join b f) ` {''/opt/homebrew/bin'', ''/home/linuxbrew/.linuxbrew/bin'', ''/usr/local/bin''})))"
proof -
  from alias_claimed obtain e where e: "homebrew_from alias_fs alias_env = Some e"
    "symlinks e = Some [cellar_exe, ''/opt/homebrew/bin/python3'']" by blast
  then have "components cellar_exe \<in> known_paths e" by (simp add: known_paths_def)
  with homebrew_paths_resolve [OF alias_fs_canonical e(1) this] e show ?thesis by blast
qed

text \<open>That unchecked path can be wrong: asked about a link from outside into the Cellar, the
  locator claims an environment whose executable does not exist, and the path that was asked for is
  not among its paths.\<close>

theorem homebrew_claims_missing:
  "\<exists>fs env e exe. canonical_fs fs \<and> exists fs (pe_executable env) \<and> homebrew_from fs env = Some e
     \<and> executable e = Some exe \<and> \<not> exists fs exe \<and> components (pe_executable env) \<notin> known_paths e"
proof -
  from alias_claimed obtain e where e: "homebrew_from alias_fs alias_env = Some e"
    "executable e = Some ''/opt/homebrew/bin/python3''" "symlinks e = Some [cellar_exe, ''/opt/homebrew/bin/python3'']"
    by blast
  have "exists alias_fs (pe_executable alias_env)" by code_simp
  moreover have "\<not> exists alias_fs ''/opt/homebrew/bin/python3''" by code_simp
  moreover have "components (pe_executable alias_env) \<notin> components ` set [''/opt/homebrew/bin/python3'', cellar_exe]" by code_simp
  then have "components (pe_executable alias_env) \<notin> known_paths e" by (simp add: known_paths_def e)
  ultimately show ?thesis using alias_fs_canonical e by blast
qed

end
