(* ===== verification/Interpreter_Cache.thy ===== *)
theory Interpreter_Cache
  imports Locators Transition "HOL-Library.Product_Lexorder" "HOL-Library.Option_ord"
begin

text \<open>
  Resolving an interpreter by running it, and the cache of the answers in memory and in files:
  \<open>pet-python-utils/src/env.rs\<close>, \<open>cache.rs\<close> and \<open>fs_cache.rs\<close>. Running the interpreter, the file times
  and the JSON and SHA-256 crates are arguments: what a run printed (or that it failed, timed out or
  printed no UTF-8), the decoded answer, and the first 16 digits of the hash. A cache file is its
  decoded contents; a file that cannot be decoded counts as absent. An operation sees one state of
  the disk, except where the text says otherwise.
\<close>

section \<open>Running an interpreter\<close>

record interpreter_info =
  ii_version :: string
  ii_sys_prefix :: string
  ii_executable :: string
  ii_is64_bit :: bool

datatype child_result = NoOutput | NotUtf8 | Output string

text \<open>Times are modification time and, where the file system has it, creation time; paths with the same
  components name the same file.\<close>

record cache_world =
  iw_run :: "path \<Rightarrow> child_result"
  iw_stat :: "component list \<Rightarrow> (nat option \<times> nat option) option"
  iw_writable :: bool

record cache_crates =
  ip_json :: "string \<Rightarrow> interpreter_info option"
  ip_hash :: "path \<Rightarrow> string"

definition python_info_json_separator :: string where
  "python_info_json_separator = ''093385e9-59f7-4a16-a604-14bf206256fe''"

text \<open>\<open>str::split_once\<close>: what follows the first occurrence.\<close>

definition after_first :: "string \<Rightarrow> string \<Rightarrow> string option" where
  "after_first sep s = map_option (\<lambda>i. drop (i + length sep) s) (str_find sep s)"

definition resolved_of_info :: "path \<Rightarrow> interpreter_info \<Rightarrow> resolved_python_env" where
  "resolved_of_info exe info =
     \<lparr>res_executable = ii_executable info, res_prefix = ii_sys_prefix info, res_version = trim (ii_version info),
      res_is64_bit = ii_is64_bit info, res_symlinks = Some (sort_dedup [exe, ii_executable info])\<rparr>"

definition get_interpreter_details ::
  "cache_crates \<Rightarrow> cache_world \<Rightarrow> path \<Rightarrow> resolved_python_env option outcome" where
  "get_interpreter_details ip w exe =
     (case iw_run w exe of
        NoOutput \<Rightarrow> Ret None
      | NotUtf8 \<Rightarrow> Panic ''called `Result::unwrap()` on an `Err` value''
      | Output out \<Rightarrow>
          Ret (Option.bind (after_first python_info_json_separator (trim out)) (\<lambda>t.
            map_option (resolved_of_info exe) (ip_json ip t))))"

section \<open>Cache files\<close>

type_synonym stamp = "path \<times> nat \<times> nat option"
type_synonym cache_files = "path \<rightharpoonup> resolved_python_env \<times> stamp list"

definition generate_cache_file :: "cache_crates \<Rightarrow> path \<Rightarrow> path \<Rightarrow> path" where
  "generate_cache_file ip dir exe = path_join dir (ip_hash ip (norm_case exe) @ ''.4.json'')"

definition delete_cache_file :: "cache_crates \<Rightarrow> path \<Rightarrow> path \<Rightarrow> cache_files \<Rightarrow> cache_files" where
  "delete_cache_file ip dir exe files = files(generate_cache_file ip dir exe := None)"

text \<open>A link that is unchanged, as the file cache tests it.\<close>

definition stamp_valid :: "cache_world \<Rightarrow> stamp \<Rightarrow> bool" where
  "stamp_valid w s =
     (case s of (p, m, c) \<Rightarrow>
        (case iw_stat w (components p) of
           None \<Rightarrow> False
         | Some (m', c') \<Rightarrow> m' = Some m \<and> (c = None \<or> c' = c)))"

definition res_links :: "resolved_python_env \<Rightarrow> path list" where
  "res_links r = unwrap_or (res_symlinks r) []"

definition get_cache_from_file ::
  "cache_crates \<Rightarrow> cache_world \<Rightarrow> path \<Rightarrow> path \<Rightarrow> cache_files
   \<Rightarrow> cache_files \<times> (resolved_python_env \<times> stamp list) option" where
  "get_cache_from_file ip w dir exe files =
     (case files (generate_cache_file ip dir exe) of
        None \<Rightarrow> (files, None)
      | Some (r, stamps) \<Rightarrow>
          if \<not> path_contains (res_links r) exe then (files, None)
          else if list_all (stamp_valid w) stamps then (files, Some (r, stamps))
          else (delete_cache_file ip dir exe files, None))"

definition store_cache_in_file ::
  "cache_crates \<Rightarrow> cache_world \<Rightarrow> path \<Rightarrow> path \<Rightarrow> resolved_python_env \<Rightarrow> stamp list \<Rightarrow> cache_files \<Rightarrow> cache_files" where
  "store_cache_in_file ip w dir exe r stamps files =
     (if iw_writable w then files(generate_cache_file ip dir exe \<mapsto> (r, stamps)) else files)"

section \<open>Entries\<close>

record cache_entry =
  ce_cache_directory :: "path option"
  ce_executable :: path
  ce_environment :: "resolved_python_env option"
  ce_symlinks :: "stamp list"
  ce_poisoned :: bool

definition cache_entry_create :: "path option \<Rightarrow> path \<Rightarrow> cache_entry" where
  "cache_entry_create dir exe =
     \<lparr>ce_cache_directory = dir, ce_executable = exe, ce_environment = None, ce_symlinks = [], ce_poisoned = False\<rparr>"

text \<open>A link that has changed, as the entry in memory tests it.\<close>

definition stamp_changed :: "cache_world \<Rightarrow> stamp \<Rightarrow> bool" where
  "stamp_changed w s =
     (case s of (p, m, c) \<Rightarrow>
        (case iw_stat w (components p) of
           None \<Rightarrow> False
         | Some (m', c') \<Rightarrow> m' \<noteq> Some m \<or> (case c of Some t \<Rightarrow> c' \<noteq> Some t | None \<Rightarrow> False)))"

definition verify_in_memory_cache ::
  "cache_crates \<Rightarrow> cache_world \<Rightarrow> cache_entry \<times> cache_files \<Rightarrow> cache_entry \<times> cache_files" where
  "verify_in_memory_cache ip w ef =
     (case ef of (e, files) \<Rightarrow>
        if list_ex (stamp_changed w) (ce_symlinks e)
        then (e\<lparr>ce_environment := None\<rparr>,
              case ce_cache_directory e of Some d \<Rightarrow> delete_cache_file ip d (ce_executable e) files | None \<Rightarrow> files)
        else (e, files))"

definition entry_get ::
  "cache_crates \<Rightarrow> cache_world \<Rightarrow> cache_entry \<times> cache_files
   \<Rightarrow> (cache_entry \<times> cache_files) \<times> resolved_python_env option" where
  "entry_get ip w ef =
     (case verify_in_memory_cache ip w ef of (e, files) \<Rightarrow>
        (case (ce_environment e, ce_cache_directory e) of
           (Some r, _) \<Rightarrow> ((e, files), Some r)
         | (None, None) \<Rightarrow> ((e, files), None)
         | (None, Some d) \<Rightarrow>
             (case get_cache_from_file ip w d (ce_executable e) files of
                (files', None) \<Rightarrow> ((e, files'), None)
              | (files', Some (r, stamps)) \<Rightarrow>
                  ((e\<lparr>ce_environment := Some r, ce_symlinks := stamps\<rparr>, files'), Some r))))"

definition stamps_of :: "cache_world \<Rightarrow> path list \<Rightarrow> stamp list" where
  "stamps_of w links =
     List.map_filter (\<lambda>p. case iw_stat w (components p) of Some (Some m, c) \<Rightarrow> Some (p, m, c) | _ \<Rightarrow> None) links"

definition sort_stamps :: "stamp list \<Rightarrow> stamp list" where
  "sort_stamps ss =
     dedup_by (\<lambda>a b. components (fst a) = components (fst b) \<and> snd a = snd b)
       (sort_key (\<lambda>(p, m, c). (components p, m, c)) ss)"

definition entry_store ::
  "cache_crates \<Rightarrow> cache_world \<Rightarrow> resolved_python_env \<Rightarrow> cache_entry \<times> cache_files \<Rightarrow> cache_entry \<times> cache_files" where
  "entry_store ip w r ef =
     (case ef of (e, files) \<Rightarrow>
        let stamps = sort_stamps (stamps_of w (res_links r))
        in (e\<lparr>ce_symlinks := stamps, ce_environment := Some r\<rparr>,
            case ce_cache_directory e of
              Some d \<Rightarrow> store_cache_in_file ip w d (ce_executable e) r stamps files
            | None \<Rightarrow> files))"

definition track_symlinks ::
  "cache_crates \<Rightarrow> cache_world \<Rightarrow> path list \<Rightarrow> cache_entry \<times> cache_files \<Rightarrow> cache_entry \<times> cache_files" where
  "track_symlinks ip w links ef =
     (case verify_in_memory_cache ip w ef of (e, files) \<Rightarrow>
        if list_all (path_contains (map fst (ce_symlinks e))) links then (e, files)
        else (case ce_cache_directory e of
                None \<Rightarrow> (e, files)
              | Some d \<Rightarrow>
                  (case get_cache_from_file ip w d (ce_executable e) files of
                     (files', None) \<Rightarrow> (e, files')
                   | (files', Some (r, _)) \<Rightarrow>
                       entry_store ip w (r\<lparr>res_symlinks := Some (sort_dedup (res_links r @ links))\<rparr>) (e, files'))))"

section \<open>The cache\<close>

record interpreter_cache =
  ic_dir :: "path option"
  ic_locks :: "component list \<rightharpoonup> cache_entry"
  ic_files :: cache_files

text \<open>\<open>set_cache_directory\<close>; its lock is modelled in \<open>Configure\<close>.\<close>

definition use_cache_directory :: "path \<Rightarrow> interpreter_cache \<Rightarrow> interpreter_cache" where
  "use_cache_directory d s = (if ic_dir s \<noteq> None then s else s\<lparr>ic_dir := Some d\<rparr>)"

text \<open>\<open>clear\<close>, when the directory can be removed.\<close>

definition clear_cache :: "interpreter_cache \<Rightarrow> interpreter_cache" where
  "clear_cache s =
     s\<lparr>ic_locks := Map.empty,
       ic_files := (case ic_dir s of Some d \<Rightarrow> ic_files s |` {p. \<not> path_starts_with p d} | None \<Rightarrow> ic_files s)\<rparr>"

definition create_cache :: "path \<Rightarrow> interpreter_cache \<Rightarrow> interpreter_cache \<times> cache_entry" where
  "create_cache exe s =
     (case ic_locks s (components exe) of
        Some e \<Rightarrow> (s, e)
      | None \<Rightarrow>
          let e = cache_entry_create (ic_dir s) exe
          in (s\<lparr>ic_locks := (ic_locks s)(components exe \<mapsto> e)\<rparr>, e))"

definition put_entry :: "path \<Rightarrow> cache_entry \<times> cache_files \<Rightarrow> interpreter_cache \<Rightarrow> interpreter_cache" where
  "put_entry exe ef s = s\<lparr>ic_locks := (ic_locks s)(components exe \<mapsto> fst ef), ic_files := snd ef\<rparr>"

text \<open>\<open>ResolvedPythonEnv::from\<close>. The entry is locked while the interpreter runs, so a panic there
  leaves the lock poisoned.\<close>

definition resolved_from ::
  "cache_crates \<Rightarrow> cache_world \<Rightarrow> path \<Rightarrow> interpreter_cache \<Rightarrow> interpreter_cache \<times> resolved_python_env option outcome" where
  "resolved_from ip w exe s =
     (case create_cache exe s of (s1, e) \<Rightarrow>
        if ce_poisoned e then (s1, Panic ''cache mutex poisoned'')
        else (case entry_get ip w (e, ic_files s1) of
                (ef, Some r) \<Rightarrow> (put_entry exe ef s1, Ret (Some r))
              | (ef, None) \<Rightarrow>
                  (case get_interpreter_details ip w exe of
                     Panic m \<Rightarrow> (put_entry exe ((fst ef)\<lparr>ce_poisoned := True\<rparr>, snd ef) s1, Panic m)
                   | Ret None \<Rightarrow> (put_entry exe ef s1, Ret None)
                   | Ret (Some r) \<Rightarrow> (put_entry exe (entry_store ip w r ef) s1, Ret (Some r)))))"

text \<open>\<open>ResolvedPythonEnv::add_to_cache\<close>.\<close>

definition add_to_cache ::
  "cache_crates \<Rightarrow> cache_world \<Rightarrow> resolved_python_env \<Rightarrow> python_environment \<Rightarrow> interpreter_cache
   \<Rightarrow> interpreter_cache \<times> unit outcome" where
  "add_to_cache ip w r env s =
     (let links = unwrap_or (symlinks env) []
      in if path_contains links (res_executable r) \<and> unwrap_or (version env) [] = res_version r
            \<and> path_eq (unwrap_or (env_prefix env) []) (res_prefix r)
            \<and> arch env = Some (if res_is64_bit r then X64 else X86)
         then (case create_cache (res_executable r) s of (s1, e) \<Rightarrow>
                 if ce_poisoned e then (s1, Panic ''cache mutex poisoned'')
                 else (put_entry (res_executable r) (track_symlinks ip w links (e, ic_files s1)) s1, Ret ()))
         else (s, Ret ()))"

section \<open>What is kept of every cached answer\<close>

definition entry_ok :: "path set \<Rightarrow> (path \<Rightarrow> resolved_python_env \<Rightarrow> stamp list \<Rightarrow> bool) \<Rightarrow> cache_entry \<Rightarrow> bool" where
  "entry_ok ps G e \<longleftrightarrow>
     ce_executable e \<in> ps \<and> (\<forall>r. ce_environment e = Some r \<longrightarrow> G (ce_executable e) r (ce_symlinks e))"

definition files_ok ::
  "cache_crates \<Rightarrow> path set \<Rightarrow> (path \<Rightarrow> resolved_python_env \<Rightarrow> stamp list \<Rightarrow> bool) \<Rightarrow> cache_files \<Rightarrow> bool" where
  "files_ok ip ps F files \<longleftrightarrow>
     (\<forall>d. \<forall>exe \<in> ps. \<forall>r stamps. files (generate_cache_file ip d exe) = Some (r, stamps) \<longrightarrow> F exe r stamps)"

definition cache_ok ::
  "cache_crates \<Rightarrow> path set \<Rightarrow> (path \<Rightarrow> resolved_python_env \<Rightarrow> stamp list \<Rightarrow> bool)
   \<Rightarrow> (path \<Rightarrow> resolved_python_env \<Rightarrow> stamp list \<Rightarrow> bool) \<Rightarrow> interpreter_cache \<Rightarrow> bool" where
  "cache_ok ip ps G F s \<longleftrightarrow>
     (\<forall>k e. ic_locks s k = Some e \<longrightarrow> components (ce_executable e) = k \<and> entry_ok ps G e) \<and> files_ok ip ps F (ic_files s)"

lemma files_ok_delete [simp]: "files_ok ip ps F files \<Longrightarrow> files_ok ip ps F (delete_cache_file ip d exe files)"
  by (simp add: files_ok_def delete_cache_file_def)

lemma files_ok_restrict [simp]: "files_ok ip ps F files \<Longrightarrow> files_ok ip ps F (files |` A)"
  by (simp add: files_ok_def restrict_map_def)

lemma stamp_valid_unchanged: "stamp_valid w s \<Longrightarrow> \<not> stamp_changed w s"
  by (cases s) (auto simp: stamp_valid_def stamp_changed_def split: option.splits)

lemma verify_in_memory_cache_keeps:
  assumes "verify_in_memory_cache ip w (e, files) = (e', files')" "entry_ok ps G e" "files_ok ip ps F files"
  shows "entry_ok ps G e'" "files_ok ip ps F files'" "ce_executable e' = ce_executable e"
    "ce_environment e' = Some r \<Longrightarrow> e' = e \<and> \<not> list_ex (stamp_changed w) (ce_symlinks e)"
  using assms by (auto simp: verify_in_memory_cache_def entry_ok_def split: if_split_asm option.split_asm)

lemma get_cache_from_file_cases:
  assumes "get_cache_from_file ip w d exe files = (files', r)" "files_ok ip ps F files"
  shows "files_ok ip ps F files'"
    "r = Some (x, stamps) \<Longrightarrow> files (generate_cache_file ip d exe) = Some (x, stamps)
       \<and> path_contains (res_links x) exe \<and> list_all (stamp_valid w) stamps"
  using assms by (auto simp: get_cache_from_file_def split: option.split_asm if_split_asm)

text \<open>
  A fact \<open>G\<close> about every answer in memory and \<open>F\<close> about every answer in a file holds for good if
  running the interpreter establishes it, files carry it from one entry to the next, and adding
  links to an answer whose stamps are valid keeps it.
\<close>

locale cached_facts =
  fixes ip :: cache_crates and w :: cache_world and ps :: "path set"
    and G F :: "path \<Rightarrow> resolved_python_env \<Rightarrow> stamp list \<Rightarrow> bool"
  assumes fact_run: "exe \<in> ps \<Longrightarrow> get_interpreter_details ip w exe = Ret (Some r)
      \<Longrightarrow> G exe r (sort_stamps (stamps_of w (res_links r)))"
    and fact_spelling: "exe \<in> ps \<Longrightarrow> exe' \<in> ps \<Longrightarrow> components exe = components exe' \<Longrightarrow> G exe r st \<Longrightarrow> G exe' r st"
    and fact_written: "exe \<in> ps \<Longrightarrow> exe' \<in> ps \<Longrightarrow> generate_cache_file ip d exe = generate_cache_file ip d' exe'
      \<Longrightarrow> G exe r st \<Longrightarrow> F exe' r st"
    and fact_read: "exe \<in> ps \<Longrightarrow> F exe r st \<Longrightarrow> path_contains (res_links r) exe \<Longrightarrow> G exe r st"
    and fact_tracked: "exe \<in> ps \<Longrightarrow> G exe r st \<Longrightarrow> list_all (stamp_valid w) st \<Longrightarrow> path_contains (res_links r) exe
      \<Longrightarrow> G exe (r\<lparr>res_symlinks := Some (sort_dedup (res_links r @ links))\<rparr>)
            (sort_stamps (stamps_of w (sort_dedup (res_links r @ links))))"
begin

lemma entry_store_keeps:
  assumes "entry_ok ps G e" "files_ok ip ps F files"
    and "G (ce_executable e) r (sort_stamps (stamps_of w (res_links r)))"
    and "entry_store ip w r (e, files) = (e', files')"
  shows "entry_ok ps G e'" "files_ok ip ps F files'" "ce_executable e' = ce_executable e"
proof -
  let ?st = "sort_stamps (stamps_of w (res_links r))"
  have exe: "ce_executable e \<in> ps" using assms(1) by (simp add: entry_ok_def)
  have "F exe' r ?st" if "exe' \<in> ps" "generate_cache_file ip d (ce_executable e) = generate_cache_file ip d' exe'" for d d' exe'
    using fact_written [OF exe that assms(3)] .
  with assms(2) have "files_ok ip ps F (files(generate_cache_file ip d (ce_executable e) \<mapsto> (r, ?st)))" for d
    unfolding files_ok_def by (metis fun_upd_apply option.inject prod.inject)
  with assms exe show "entry_ok ps G e'" "files_ok ip ps F files'" "ce_executable e' = ce_executable e"
    by (auto simp: entry_store_def entry_ok_def store_cache_in_file_def Let_def split: option.split_asm if_split_asm)
qed

lemma entry_get_keeps:
  assumes "entry_ok ps G e" "files_ok ip ps F files" "entry_get ip w (e, files) = ((e', files'), x)"
  shows "entry_ok ps G e'" "files_ok ip ps F files'" "ce_executable e' = ce_executable e"
    "x = Some r \<Longrightarrow> G (ce_executable e) r (ce_symlinks e') \<and> \<not> list_ex (stamp_changed w) (ce_symlinks e')"
proof -
  obtain e1 files1 where v: "verify_in_memory_cache ip w (e, files) = (e1, files1)" by fastforce
  note 1 = verify_in_memory_cache_keeps [OF v assms(1,2)]
  have valid: "\<not> list_ex (stamp_changed w) st" if "list_all (stamp_valid w) st" for st
    using that stamp_valid_unchanged by (auto simp: list_ex_iff list_all_iff)
  have "entry_ok ps G e' \<and> files_ok ip ps F files' \<and> ce_executable e' = ce_executable e
      \<and> (x = Some r \<longrightarrow> G (ce_executable e) r (ce_symlinks e') \<and> \<not> list_ex (stamp_changed w) (ce_symlinks e'))"
  proof (cases "ce_environment e1")
    case (Some q)
    with assms(3) v have x: "e' = e1" "files' = files1" "x = Some q" by (auto simp: entry_get_def)
    from 1(4) [OF Some] have "e1 = e" "\<not> list_ex (stamp_changed w) (ce_symlinks e)" by simp_all
    with x 1(1,2) Some show ?thesis by (simp add: entry_ok_def) blast
  next
    case None
    show ?thesis
    proof (cases "ce_cache_directory e1")
      case no_dir: None
      with None assms(3) v 1(1-3) show ?thesis by (auto simp: entry_get_def)
    next
      case (Some d)
      obtain files2 y where f: "get_cache_from_file ip w d (ce_executable e1) files1 = (files2, y)" by fastforce
      note 2 = get_cache_from_file_cases [OF f 1(2)]
      show ?thesis
      proof (cases y)
        case no: None
        with None Some f assms(3) v 1(1-3) 2(1) show ?thesis by (auto simp: entry_get_def)
      next
        case yes: (Some z)
        obtain q st where z: "z = (q, st)" by fastforce
        with yes 2(2) [of q st] have q: "files1 (generate_cache_file ip d (ce_executable e1)) = Some (q, st)"
          "path_contains (res_links q) (ce_executable e1)" "list_all (stamp_valid w) st" by simp_all
        have "ce_executable e1 \<in> ps" using 1(1) by (simp add: entry_ok_def)
        with fact_read q 1(2) have "G (ce_executable e1) q st" by (auto simp: files_ok_def)
        with None Some yes z f assms(3) v 1(1-3) 2(1) valid [OF q(3)] show ?thesis by (auto simp: entry_get_def entry_ok_def)
      qed
    qed
  qed
  then show "entry_ok ps G e'" "files_ok ip ps F files'" "ce_executable e' = ce_executable e"
    "x = Some r \<Longrightarrow> G (ce_executable e) r (ce_symlinks e') \<and> \<not> list_ex (stamp_changed w) (ce_symlinks e')"
    by simp_all
qed

lemma track_symlinks_keeps:
  assumes "entry_ok ps G e" "files_ok ip ps F files" "track_symlinks ip w links (e, files) = (e', files')"
  shows "entry_ok ps G e' \<and> files_ok ip ps F files' \<and> ce_executable e' = ce_executable e"
proof -
  obtain e1 files1 where v: "verify_in_memory_cache ip w (e, files) = (e1, files1)" by fastforce
  note 1 = verify_in_memory_cache_keeps [OF v assms(1,2)]
  show ?thesis
  proof (cases "list_all (path_contains (map fst (ce_symlinks e1))) links \<or> ce_cache_directory e1 = None")
    case True
    with assms(3) v have "e' = e1" "files' = files1" by (auto simp: track_symlinks_def split: if_split_asm)
    with 1 show ?thesis by simp
  next
    case False
    then obtain d where d: "ce_cache_directory e1 = Some d" by blast
    obtain files2 y where f: "get_cache_from_file ip w d (ce_executable e1) files1 = (files2, y)" by fastforce
    note 2 = get_cache_from_file_cases [OF f 1(2)]
    show ?thesis
    proof (cases y)
      case None
      with False d f assms(3) v 1(1-3) 2(1) show ?thesis by (auto simp: track_symlinks_def)
    next
      case (Some z)
      obtain q st where z: "z = (q, st)" by fastforce
      with Some 2(2) [of q st] have q: "files1 (generate_cache_file ip d (ce_executable e1)) = Some (q, st)"
        "path_contains (res_links q) (ce_executable e1)" "list_all (stamp_valid w) st" by simp_all
      have exe: "ce_executable e1 \<in> ps" using 1(1) by (simp add: entry_ok_def)
      with fact_read q 1(2) have g: "G (ce_executable e1) q st" by (auto simp: files_ok_def)
      let ?r = "q\<lparr>res_symlinks := Some (sort_dedup (res_links q @ links))\<rparr>"
      have "G (ce_executable e1) ?r (sort_stamps (stamps_of w (res_links ?r)))"
        using fact_tracked [OF exe g q(3,2), of links] by (simp add: res_links_def)
      moreover have "entry_store ip w ?r (e1, files2) = (e', files')"
        using False d f Some z assms(3) v by (auto simp: track_symlinks_def)
      ultimately show ?thesis using entry_store_keeps [OF 1(1) 2(1)] 1(3) by metis
    qed
  qed
qed

lemma create_cache_keeps:
  assumes "cache_ok ip ps G F s" "exe \<in> ps" "create_cache exe s = (s1, e)"
  shows "cache_ok ip ps G F s1" "entry_ok ps G e" "components (ce_executable e) = components exe"
    "files_ok ip ps F (ic_files s1)"
  using assms
  by (auto simp: create_cache_def cache_ok_def cache_entry_create_def entry_ok_def Let_def
      split: option.split_asm if_split_asm)

lemma put_entry_keeps:
  assumes "cache_ok ip ps G F s" "entry_ok ps G e" "files_ok ip ps F files" "components (ce_executable e) = components exe"
  shows "cache_ok ip ps G F (put_entry exe (e, files) s)"
  using assms by (auto simp: cache_ok_def put_entry_def)

lemma resolved_from_keeps:
  assumes ok: "cache_ok ip ps G F s" and exe: "exe \<in> ps" and r: "resolved_from ip w exe s = (t, x)"
  shows "cache_ok ip ps G F t"
    "x = Ret (Some r) \<Longrightarrow> get_interpreter_details ip w exe = Ret (Some r)
       \<or> (\<exists>st. G exe r st \<and> \<not> list_ex (stamp_changed w) st)"
proof -
  obtain s1 e where c: "create_cache exe s = (s1, e)" by fastforce
  note 1 = create_cache_keeps [OF ok exe c]
  obtain e' files' y where g: "entry_get ip w (e, ic_files s1) = ((e', files'), y)" by (metis surj_pair)
  note 2 = entry_get_keeps [OF 1(2,4) g]
  have e': "ce_executable e' \<in> ps" "components (ce_executable e') = components exe"
    using 2(1,3) 1(3) by (simp_all add: entry_ok_def)
  note put = put_entry_keeps [OF 1(1) _ _ e'(2)]
  have stored: "cache_ok ip ps G F (put_entry exe (entry_store ip w q (e', files')) s1)"
    if q: "get_interpreter_details ip w exe = Ret (Some q)" for q
  proof -
    obtain e2 files2 where st: "entry_store ip w q (e', files') = (e2, files2)" by fastforce
    have "G (ce_executable e') q (sort_stamps (stamps_of w (res_links q)))"
      using fact_spelling [OF exe e'(1) e'(2) [symmetric] fact_run [OF exe q]] .
    note 3 = entry_store_keeps [OF 2(1,2) this st]
    with e'(2) show ?thesis using put_entry_keeps [OF 1(1) 3(1,2)] st by simp
  qed
  have poisoned: "entry_ok ps G (e'\<lparr>ce_poisoned := True\<rparr>)" using 2(1) by (simp add: entry_ok_def)
  have "cache_ok ip ps G F t \<and> (x = Ret (Some r) \<longrightarrow> get_interpreter_details ip w exe = Ret (Some r)
       \<or> (\<exists>st. G exe r st \<and> \<not> list_ex (stamp_changed w) st))"
  proof (cases "ce_poisoned e")
    case True
    with r c 1(1) show ?thesis by (auto simp: resolved_from_def)
  next
    case False
    show ?thesis
    proof (cases y)
      case (Some q)
      with r c g False have t: "t = put_entry exe (e', files') s1" "x = Ret (Some q)" by (auto simp: resolved_from_def)
      from Some 2(4) [of q] have q: "G (ce_executable e) q (ce_symlinks e')" "\<not> list_ex (stamp_changed w) (ce_symlinks e')"
        by simp_all
      have "G exe q (ce_symlinks e')"
        using fact_spelling [OF e'(1) exe e'(2)] q(1) 2(3) by simp
      with t q put [OF 2(1,2)] show ?thesis by auto
    next
      case None
      with r c g False have "case get_interpreter_details ip w exe of
          Panic m \<Rightarrow> t = put_entry exe (e'\<lparr>ce_poisoned := True\<rparr>, files') s1 \<and> x = Panic m
        | Ret None \<Rightarrow> t = put_entry exe (e', files') s1 \<and> x = Ret None
        | Ret (Some q) \<Rightarrow> t = put_entry exe (entry_store ip w q (e', files')) s1 \<and> x = Ret (Some q)"
        by (auto simp: resolved_from_def split: outcome.split option.split)
      with put [OF 2(1,2)] put_entry_keeps [OF 1(1) poisoned 2(2)] e'(2) stored show ?thesis
        by (auto split: outcome.split_asm option.split_asm)
    qed
  qed
  then show "cache_ok ip ps G F t" "x = Ret (Some r) \<Longrightarrow> get_interpreter_details ip w exe = Ret (Some r)
       \<or> (\<exists>st. G exe r st \<and> \<not> list_ex (stamp_changed w) st)" by simp_all
qed

lemma add_to_cache_keeps:
  assumes ok: "cache_ok ip ps G F s" and exe: "res_executable r \<in> ps" and r: "add_to_cache ip w r env s = (t, x)"
  shows "cache_ok ip ps G F t"
proof -
  let ?links = "unwrap_or (symlinks env) []"
  obtain s1 e where c: "create_cache (res_executable r) s = (s1, e)" by fastforce
  note 1 = create_cache_keeps [OF ok exe c]
  obtain e' files' where k: "track_symlinks ip w ?links (e, ic_files s1) = (e', files')" by fastforce
  note 2 = track_symlinks_keeps [OF 1(2,4) k]
  with 1(3) have "cache_ok ip ps G F (put_entry (res_executable r) (e', files') s1)"
    using put_entry_keeps [OF 1(1)] by simp
  with r c k ok 1(1) show ?thesis by (auto simp: add_to_cache_def Let_def split: if_split_asm)
qed

end

section \<open>The cache over time\<close>

text \<open>
  The system: the states of the disk so far, the last one being the present, and the cache of the
  running server. A restart forgets everything but the files. When the files are not \<open>honest\<close>,
  anybody may write anything into the cache directory.
\<close>

record cache_system =
  cs_worlds :: "cache_world list"
  cs_cache :: interpreter_cache

inductive cache_sys_step :: "bool \<Rightarrow> cache_crates \<Rightarrow> path set \<Rightarrow> cache_system \<Rightarrow> cache_system \<Rightarrow> bool"
  for honest ip ps where
  cache_resolve: "exe \<in> ps \<Longrightarrow> resolved_from ip (last (cs_worlds s)) exe (cs_cache s) = (c, x)
     \<Longrightarrow> cache_sys_step honest ip ps s (s\<lparr>cs_cache := c\<rparr>)"
| cache_add: "res_executable r \<in> ps \<Longrightarrow> add_to_cache ip (last (cs_worlds s)) r env (cs_cache s) = (c, u)
     \<Longrightarrow> cache_sys_step honest ip ps s (s\<lparr>cs_cache := c\<rparr>)"
| cache_set_dir: "cache_sys_step honest ip ps s (s\<lparr>cs_cache := use_cache_directory d (cs_cache s)\<rparr>)"
| cache_clear_all: "cache_sys_step honest ip ps s (s\<lparr>cs_cache := clear_cache (cs_cache s)\<rparr>)"
| cache_restart: "cache_sys_step honest ip ps s (s\<lparr>cs_cache := (cs_cache s)\<lparr>ic_dir := None, ic_locks := Map.empty\<rparr>\<rparr>)"
| cache_change: "cache_sys_step honest ip ps s (s\<lparr>cs_worlds := cs_worlds s @ [w]\<rparr>)"
| cache_tamper: "\<not> honest \<Longrightarrow> cache_sys_step honest ip ps s (s\<lparr>cs_cache := (cs_cache s)\<lparr>ic_files := files\<rparr>\<rparr>)"

definition cache_init :: "cache_system \<Rightarrow> bool" where
  "cache_init s \<longleftrightarrow> cs_worlds s \<noteq> [] \<and> cs_cache s = \<lparr>ic_dir = None, ic_locks = Map.empty, ic_files = Map.empty\<rparr>"

lemma cache_ok_init [simp]:
  "cache_ok ip ps G F \<lparr>ic_dir = None, ic_locks = Map.empty, ic_files = Map.empty\<rparr>"
  by (simp add: cache_ok_def files_ok_def)

lemma cache_ok_admin:
  assumes "cache_ok ip ps G F c"
  shows "cache_ok ip ps G F (use_cache_directory d c)" "cache_ok ip ps G F (clear_cache c)"
    "cache_ok ip ps G F (c\<lparr>ic_dir := None, ic_locks := Map.empty\<rparr>)"
  using assms by (auto simp: cache_ok_def use_cache_directory_def clear_cache_def split: option.split)

subsection \<open>An answer is about the interpreter that was asked for\<close>

definition about_executable :: "path \<Rightarrow> resolved_python_env \<Rightarrow> stamp list \<Rightarrow> bool" where
  "about_executable exe r st \<longleftrightarrow> path_contains (res_links r) exe"

definition any_contents :: "path \<Rightarrow> resolved_python_env \<Rightarrow> stamp list \<Rightarrow> bool" where
  "any_contents exe r st \<longleftrightarrow> True"

lemma details_about:
  "get_interpreter_details ip w exe = Ret (Some r) \<Longrightarrow> path_contains (res_links r) exe"
  by (auto simp: get_interpreter_details_def resolved_of_info_def res_links_def bind_eq_Some_conv path_contains_iff
      components_sort_dedup split: child_result.split_asm)

interpretation about: cached_facts ip w ps about_executable any_contents for ip w ps
proof
  fix exe exe' r st links
  show "get_interpreter_details ip w exe = Ret (Some r) \<Longrightarrow> about_executable exe r (sort_stamps (stamps_of w (res_links r)))"
    by (simp add: about_executable_def details_about)
  show "about_executable exe' r st" if "components exe = components exe'" "about_executable exe r st"
    using that by (simp add: about_executable_def path_contains_iff)
  show "about_executable exe (r\<lparr>res_symlinks := Some (sort_dedup (res_links r @ links))\<rparr>)
      (sort_stamps (stamps_of w (sort_dedup (res_links r @ links))))" if "about_executable exe r st"
    using that by (auto simp: about_executable_def path_contains_iff res_links_def components_sort_dedup)
qed (simp_all add: any_contents_def about_executable_def)

definition about_ok :: "cache_crates \<Rightarrow> path set \<Rightarrow> cache_system \<Rightarrow> bool" where
  "about_ok ip ps s \<longleftrightarrow> cache_ok ip ps about_executable any_contents (cs_cache s)"

lemma about_ok_step: "about_ok ip ps s \<Longrightarrow> cache_sys_step honest ip ps s t \<Longrightarrow> about_ok ip ps t"
proof -
  assume ok: "about_ok ip ps s" and step: "cache_sys_step honest ip ps s t"
  from ok have ok: "cache_ok ip ps about_executable any_contents (cs_cache s)" by (simp add: about_ok_def)
  from step show ?thesis
  proof cases
    case (cache_tamper files)
    with ok show ?thesis by (simp add: about_ok_def cache_ok_def files_ok_def any_contents_def)
  next
    case (cache_resolve exe c x)
    with about.resolved_from_keeps(1) [OF ok cache_resolve(2,3)] show ?thesis by (simp add: about_ok_def)
  next
    case (cache_add r env c u)
    with about.add_to_cache_keeps [OF ok cache_add(2,3)] show ?thesis by (simp add: about_ok_def)
  qed (simp_all add: about_ok_def ok cache_ok_admin)
qed

interpretation about_system: inv_system cache_init "cache_sys_step honest ip ps" "about_ok ip ps" for honest ip ps
proof
  show "about_ok ip ps s" if "cache_init s" for s
    using that by (simp add: cache_init_def about_ok_def)
qed (rule about_ok_step)

text \<open>C30: Whatever anybody writes into the cache directory, and even if the hashes of two
  interpreters collide, an answer is about the interpreter that was asked for: the path is one of
  the paths of the resolved interpreter.\<close>

theorem resolved_about_executable:
  assumes "cache_init s" "(cache_sys_step False ip ps)\<^sup>*\<^sup>* s t" "exe \<in> ps"
    and "resolved_from ip w exe (cs_cache t) = (c, Ret (Some r))"
  shows "path_contains (res_links r) exe"
proof -
  have "cache_ok ip ps about_executable any_contents (cs_cache t)"
    using about_system.inv_reachable [OF assms(1,2)] by (simp add: about_ok_def)
  from about.resolved_from_keeps(2) [OF this assms(3,4)] show ?thesis
    by (auto simp: about_executable_def dest: details_about)
qed

subsection \<open>An answer is what the interpreter would say now\<close>

definition same_interpreter :: "resolved_python_env \<Rightarrow> resolved_python_env \<Rightarrow> bool" where
  "same_interpreter r q \<longleftrightarrow> r\<lparr>res_symlinks := None\<rparr> = q\<lparr>res_symlinks := None\<rparr>"

text \<open>The interpreters have one spelling each and hashes of their own.\<close>

definition separates :: "cache_crates \<Rightarrow> path set \<Rightarrow> bool" where
  "separates ip ps \<longleftrightarrow>
     inj_on components ps \<and> inj_on (ip_hash ip) ps \<and> (\<forall>exe \<in> ps. CHR ''/'' \<notin> set (ip_hash ip exe))"

definition seen_at :: "cache_crates \<Rightarrow> cache_world \<Rightarrow> path \<Rightarrow> resolved_python_env \<Rightarrow> stamp list \<Rightarrow> bool" where
  "seen_at ip w exe r st \<longleftrightarrow>
     (\<exists>q. get_interpreter_details ip w exe = Ret (Some q) \<and> same_interpreter r q)
     \<and> (\<forall>m c. iw_stat w (components exe) = Some (Some m, c) \<longrightarrow>
          (\<exists>p c'. components p = components exe \<and> (p, m, c') \<in> set st))"

definition genuine :: "cache_crates \<Rightarrow> path set \<Rightarrow> cache_world list \<Rightarrow> path \<Rightarrow> resolved_python_env \<Rightarrow> stamp list \<Rightarrow> bool" where
  "genuine ip ps ws exe r st \<longleftrightarrow> (separates ip ps \<longrightarrow> (\<exists>w \<in> set ws. seen_at ip w exe r st))"

lemma sort_stamps_covers:
  assumes "(p, m, c) \<in> set ss"
  shows "\<exists>p'. components p' = components p \<and> (p', m, c) \<in> set (sort_stamps ss)"
proof -
  let ?f = "\<lambda>(p, m, c). (components p, m, c)" and ?eq = "\<lambda>a b. components (fst a) = components (fst b) \<and> snd a = snd b"
  from assms have "(p, m, c) \<in> set (sort_key ?f ss)" by simp
  from dedup_by_covers [of ?eq, OF _ this] show ?thesis by (fastforce simp: sort_stamps_def)
qed

lemma stamps_of_covers:
  assumes "path_contains links exe" "iw_stat w (components exe) = Some (Some m, c)"
  shows "\<exists>p. components p = components exe \<and> (p, m, c) \<in> set (sort_stamps (stamps_of w links))"
proof -
  from assms(1) obtain p where p: "p \<in> set links" "components p = components exe" by (auto simp: path_contains_iff)
  with assms(2) have "(p, m, c) \<in> set (stamps_of w links)"
    by (auto simp: stamps_of_def List.map_filter_def intro!: image_eqI [of _ _ p])
  from sort_stamps_covers [OF this] p(2) show ?thesis by metis
qed

lemma generate_cache_file_inj:
  assumes "separates ip ps" "exe \<in> ps" "exe' \<in> ps" "generate_cache_file ip d exe = generate_cache_file ip d' exe'"
  shows "exe = exe'"
proof -
  have "simple_name (ip_hash ip q @ ''.4.json'')" if "q \<in> ps" for q
    using that assms(1) by (auto simp: simple_name_def separates_def append_eq_Cons_conv)
  then have "file_name (generate_cache_file ip d q) = Some (ip_hash ip q @ ''.4.json'')" if "q \<in> ps" for d q
    using that by (simp add: generate_cache_file_def norm_case_def path_simps)
  then have "ip_hash ip exe @ ''.4.json'' = ip_hash ip exe' @ ''.4.json''" using assms(2-4) by (metis option.inject)
  then have "ip_hash ip exe = ip_hash ip exe'" by simp
  with assms(1-3) show ?thesis by (auto simp: separates_def dest: inj_onD)
qed

lemma seen_at_tracked:
  assumes "seen_at ip v exe r st" "list_all (stamp_valid w) st" "path_contains (res_links r) exe"
  shows "seen_at ip v exe (r\<lparr>res_symlinks := Some (sort_dedup (res_links r @ links))\<rparr>)
           (sort_stamps (stamps_of w (sort_dedup (res_links r @ links))))"
proof -
  have links: "path_contains (sort_dedup (res_links r @ links)) exe" using assms(3) by (auto simp: path_contains_iff components_sort_dedup)
  have "\<exists>p c'. components p = components exe \<and> (p, m, c') \<in> set (sort_stamps (stamps_of w (sort_dedup (res_links r @ links))))"
    if "iw_stat v (components exe) = Some (Some m, c)" for m c
  proof -
    from assms(1) that obtain p c' where "components p = components exe" "(p, m, c') \<in> set st" by (auto simp: seen_at_def)
    with assms(2) obtain c'' where "iw_stat w (components exe) = Some (Some m, c'')"
      by (fastforce simp: list_all_iff stamp_valid_def split: option.split_asm)
    from stamps_of_covers [OF links this] show ?thesis by blast
  qed
  with assms(1) show ?thesis by (auto simp: seen_at_def same_interpreter_def)
qed

lemma seen_at_run:
  assumes "get_interpreter_details ip w exe = Ret (Some r)"
  shows "seen_at ip w exe r (sort_stamps (stamps_of w (res_links r)))"
  using assms stamps_of_covers [OF details_about [OF assms]] unfolding seen_at_def same_interpreter_def by blast

interpretation genuine: cached_facts ip w ps "genuine ip ps (ws @ [w])" "genuine ip ps (ws @ [w])" for ip w ps ws
proof
  fix exe exe' d d' r st links
  let ?G = "genuine ip ps (ws @ [w])"
  show "get_interpreter_details ip w exe = Ret (Some r) \<Longrightarrow> ?G exe r (sort_stamps (stamps_of w (res_links r)))"
    by (auto simp: genuine_def intro: seen_at_run)
  show "exe \<in> ps \<Longrightarrow> exe' \<in> ps \<Longrightarrow> components exe = components exe' \<Longrightarrow> ?G exe r st \<Longrightarrow> ?G exe' r st"
    by (auto simp: genuine_def separates_def dest: inj_onD)
  show "exe \<in> ps \<Longrightarrow> exe' \<in> ps \<Longrightarrow> generate_cache_file ip d exe = generate_cache_file ip d' exe'
      \<Longrightarrow> ?G exe r st \<Longrightarrow> ?G exe' r st"
    using generate_cache_file_inj [of ip ps exe exe' d d'] by (auto simp: genuine_def)
  show "?G exe r st \<Longrightarrow> list_all (stamp_valid w) st \<Longrightarrow> path_contains (res_links r) exe
      \<Longrightarrow> ?G exe (r\<lparr>res_symlinks := Some (sort_dedup (res_links r @ links))\<rparr>)
            (sort_stamps (stamps_of w (sort_dedup (res_links r @ links))))"
    using seen_at_tracked unfolding genuine_def by blast
qed

lemma cache_ok_mono:
  assumes "cache_ok ip ps G F s" "\<And>exe r st. G exe r st \<Longrightarrow> G' exe r st" "\<And>exe r st. F exe r st \<Longrightarrow> F' exe r st"
  shows "cache_ok ip ps G' F' s"
  using assms unfolding cache_ok_def entry_ok_def files_ok_def by blast

definition genuine_ok :: "cache_crates \<Rightarrow> path set \<Rightarrow> cache_system \<Rightarrow> bool" where
  "genuine_ok ip ps s \<longleftrightarrow> cs_worlds s \<noteq> []
     \<and> cache_ok ip ps (genuine ip ps (cs_worlds s)) (genuine ip ps (cs_worlds s)) (cs_cache s)"

text \<open>The laws for the present state of the disk.\<close>

lemmas genuine_now = genuine.resolved_from_keeps [where ws = "butlast ws" and w = "last ws" for ws]
  genuine.add_to_cache_keeps [where ws = "butlast ws" and w = "last ws" for ws]

lemma genuine_ok_step:
  assumes "genuine_ok ip ps s" "cache_sys_step True ip ps s t" shows "genuine_ok ip ps t"
proof -
  let ?ws = "cs_worlds s"
  from assms(1) have ws: "?ws \<noteq> []" "butlast ?ws @ [last ?ws] = ?ws"
    and ok: "cache_ok ip ps (genuine ip ps ?ws) (genuine ip ps ?ws) (cs_cache s)"
    by (simp_all add: genuine_ok_def)
  note now = genuine_now [of ip ps ?ws, unfolded ws(2), OF ok]
  from assms(2) show ?thesis
  proof cases
    case (cache_resolve exe c x)
    with now(1) [OF cache_resolve(2,3)] ws show ?thesis by (simp add: genuine_ok_def)
  next
    case (cache_add r env c u)
    with now(3) [OF cache_add(2,3)] ws show ?thesis by (simp add: genuine_ok_def)
  next
    case (cache_change w)
    have "genuine ip ps (?ws @ [w]) exe r st" if "genuine ip ps ?ws exe r st" for exe r st
      using that by (auto simp: genuine_def)
    with cache_ok_mono [OF ok] cache_change show ?thesis by (simp add: genuine_ok_def)
  qed (use ws ok in \<open>simp_all add: genuine_ok_def cache_ok_admin\<close>)
qed

interpretation genuine_system: inv_system cache_init "cache_sys_step True ip ps" "genuine_ok ip ps" for ip ps
proof
  show "genuine_ok ip ps s" if "cache_init s" for s
    using that by (simp add: cache_init_def genuine_ok_def)
qed (rule genuine_ok_step)


section \<open>Where the cache is not transparent\<close>

text \<open>What was stored is found again in the state of the disk in which it was stored, whatever it
  is: an interpreter that is replaced between its run and the reading of its times is cached with
  the answer of the old one.\<close>

lemma stamps_of_unchanged: "\<not> list_ex (stamp_changed w) (sort_stamps (stamps_of w links))"
proof -
  have "\<not> stamp_changed w s" if "s \<in> set (sort_stamps (stamps_of w links))" for s links
  proof -
    from that have "s \<in> set (stamps_of w links)"
      using set_dedup_by_subset by (fastforce simp: sort_stamps_def)
    then show ?thesis by (auto simp: stamps_of_def List.map_filter_def stamp_changed_def split: option.splits)
  qed
  then show ?thesis by (auto simp: list_ex_iff)
qed

lemma entry_store_get: "snd (entry_get ip w (entry_store ip w r ef)) = Some r"
  by (cases ef) (simp add: entry_store_def entry_get_def verify_in_memory_cache_def stamps_of_unchanged Let_def)

lemma get_cache_from_file_unchanged:
  "get_cache_from_file ip w d exe files = (files', Some (r, st)) \<Longrightarrow> \<not> list_ex (stamp_changed w) st"
  using stamp_valid_unchanged
  by (fastforce simp: get_cache_from_file_def list_all_iff list_ex_iff split: option.split_asm if_split_asm)

lemma entry_get_keeps_answer:
  assumes "entry_get ip w (e, files) = ((e', files'), Some r)"
  shows "ce_environment e' = Some r \<and> ce_poisoned e' = ce_poisoned e \<and> \<not> list_ex (stamp_changed w) (ce_symlinks e')"
proof -
  obtain e1 files1 where v: "verify_in_memory_cache ip w (e, files) = (e1, files1)" by fastforce
  then have e1: "ce_poisoned e1 = ce_poisoned e" "ce_environment e1 \<noteq> None \<longrightarrow> \<not> list_ex (stamp_changed w) (ce_symlinks e1)"
    by (auto simp: verify_in_memory_cache_def split: if_split_asm)
  show ?thesis
  proof (cases "ce_environment e1")
    case (Some q)
    with assms v e1 show ?thesis by (auto simp: entry_get_def)
  next
    case None
    with assms v e1(1) show ?thesis
      by (auto simp: entry_get_def dest: get_cache_from_file_unchanged split: option.split_asm prod.split_asm)
  qed
qed

lemma create_cache_hit: "ic_locks s (components exe) = Some e \<Longrightarrow> create_cache exe s = (s, e)"
  by (simp add: create_cache_def)

lemma create_cache_poisoned:
  assumes "create_cache exe s = (s1, e)" "ce_poisoned e" shows "ic_locks s1 (components exe) = Some e"
  using assms by (auto simp: create_cache_def cache_entry_create_def Let_def split: option.split_asm)


text \<open>What a successful call leaves behind.\<close>

lemma resolved_entry:
  assumes "resolved_from ip w exe s = (t, Ret (Some r))"
  shows "\<exists>e. ic_locks t (components exe) = Some e \<and> ce_environment e = Some r \<and> \<not> ce_poisoned e
    \<and> \<not> list_ex (stamp_changed w) (ce_symlinks e)"
proof -
  obtain s1 e where c: "create_cache exe s = (s1, e)" by fastforce
  obtain e1 files1 y where g: "entry_get ip w (e, ic_files s1) = ((e1, files1), y)" by (metis surj_pair)
  from assms c have np: "\<not> ce_poisoned e" by (auto simp: resolved_from_def)
  show ?thesis
  proof (cases y)
    case (Some q)
    with assms c g np have "t = put_entry exe (e1, files1) s1" "q = r" by (auto simp: resolved_from_def)
    with entry_get_keeps_answer [of ip w e "ic_files s1" e1 files1 q] g Some np show ?thesis by (simp add: put_entry_def)
  next
    case None
    with assms c g np have t: "t = put_entry exe (entry_store ip w r (e1, files1)) s1"
      by (auto simp: resolved_from_def split: option.split_asm outcome.split_asm)
    have "ce_poisoned e1 = ce_poisoned e" using g None
      by (auto simp: entry_get_def verify_in_memory_cache_def split: option.split_asm prod.split_asm if_split_asm)
    with t np show ?thesis by (simp add: put_entry_def entry_store_def stamps_of_unchanged Let_def)
  qed
qed

lemma resolved_from_hit:
  assumes "ic_locks t (components exe) = Some e" "ce_environment e = Some r" "\<not> ce_poisoned e"
    "\<not> list_ex (stamp_changed w) (ce_symlinks e)"
  shows "snd (resolved_from ip w exe t) = Ret (Some r)"
  using assms by (simp add: resolved_from_def create_cache_hit entry_get_def verify_in_memory_cache_def)


section \<open>Concrete runs\<close>

definition demo_info :: interpreter_info where
  "demo_info = \<lparr>ii_version = ''3.12'', ii_sys_prefix = ''/x'', ii_executable = ''/x/python'', ii_is64_bit = True\<rparr>"

definition demo_crates :: cache_crates where
  "demo_crates = \<lparr>ip_json = (\<lambda>_. Some demo_info), ip_hash = (\<lambda>_. ''h'')\<rparr>"

definition demo_world :: "child_result \<Rightarrow> nat option \<Rightarrow> cache_world" where
  "demo_world out m = \<lparr>iw_run = (\<lambda>_. out), iw_stat = (\<lambda>_. map_option (\<lambda>m. (Some m, None)) m), iw_writable = True\<rparr>"

abbreviation empty_cache :: interpreter_cache where
  "empty_cache \<equiv> \<lparr>ic_dir = None, ic_locks = Map.empty, ic_files = Map.empty\<rparr>"

lemma fresh_resolve:
  "\<exists>t. resolved_from ip w exe empty_cache = (t, get_interpreter_details ip w exe)"
  by (simp add: resolved_from_def create_cache_def cache_entry_create_def entry_get_def verify_in_memory_cache_def Let_def
      split: outcome.split option.split)

lemma fresh_resolve_entry:
  assumes "get_interpreter_details ip w exe = Ret (Some r)"
  shows "\<exists>t e. resolved_from ip w exe empty_cache = (t, Ret (Some r)) \<and> ic_locks t = [components exe \<mapsto> e] \<and> \<not> ce_poisoned e"
  using assms
  by (simp add: resolved_from_def create_cache_def cache_entry_create_def entry_get_def verify_in_memory_cache_def
      put_entry_def entry_store_def Let_def) (metis cache_entry.select_convs(5))

lemma add_to_cache_returns:
  assumes "\<And>k e. ic_locks s k = Some e \<Longrightarrow> \<not> ce_poisoned e" shows "\<exists>t. add_to_cache ip w r env s = (t, Ret ())"
  using assms
  by (auto simp: add_to_cache_def create_cache_def cache_entry_create_def Let_def split: option.split prod.split)

lemma demo_details:
  "get_interpreter_details demo_crates (demo_world (Output python_info_json_separator) m) exe = Ret (Some (resolved_of_info exe demo_info))"
proof -
  have "after_first python_info_json_separator (trim python_info_json_separator) = Some []" by code_simp
  then show ?thesis by (simp add: get_interpreter_details_def demo_world_def demo_crates_def)
qed

abbreviation demo_now :: cache_world where
  "demo_now \<equiv> demo_world (Output python_info_json_separator) (Some 1)"

theorem resolved_about_executable_witness:
  "\<exists>c r. resolved_from demo_crates demo_now ''/p'' empty_cache = (c, Ret (Some r)) \<and> path_contains (res_links r) ''/p''"
proof -
  let ?s = "\<lparr>cs_worlds = [demo_now], cs_cache = empty_cache\<rparr>"
  obtain c where c: "resolved_from demo_crates demo_now ''/p'' empty_cache = (c, Ret (Some (resolved_of_info ''/p'' demo_info)))"
    using fresh_resolve [of demo_crates demo_now "''/p''"] by (auto simp: demo_details)
  from resolved_about_executable [of ?s demo_crates "{''/p''}" ?s "''/p''"] c show ?thesis
    by (fastforce simp: cache_init_def)
qed




end
