(* ===== verification/Linux_Global.thy ===== *)
theory Linux_Global
  imports Virtual_Envs Locator_Cache Interpreter_Cache
begin

text \<open>
  The locator of the system interpreters of Linux, \<open>pet-linux-global-python/src/lib.rs\<close>: it runs
  every interpreter of the three \<open>bin\<close> directories through the interpreter cache and remembers what
  it found under every path of an interpreter. The threads, one per directory, are run one after the
  other.
\<close>

section \<open>The code\<close>

record linux_world =
  lw_os :: target_os
  lw_fs :: file_system
  lw_crates :: cache_crates
  lw_cache :: cache_world

type_synonym reported_executables = "(component list, python_environment) cache_map"

record linux_state =
  ls_reported :: reported_executables
  ls_interpreters :: interpreter_cache

text \<open>The paths of the interpreter in its own directory, first for the executable, then for every
  other executable of the directory, which may join because one before it has.\<close>

definition link_target :: "file_system \<Rightarrow> path \<Rightarrow> path option" where
  "link_target fs exe = or_else (resolve_symlink fs exe) (canonicalize fs exe)"

definition own_targets :: "file_system \<Rightarrow> path \<Rightarrow> path \<Rightarrow> path list \<times> path option" where
  "own_targets fs bin exe =
     foldl (\<lambda>(links, other) t. case t of
              None \<Rightarrow> (links, other)
            | Some l \<Rightarrow> if path_starts_with l bin then (links @ [l], other) else (links, Some l))
       ([], None) [link_target fs exe, canonicalize fs exe]"

definition add_possible_link :: "file_system \<Rightarrow> path \<Rightarrow> path option \<Rightarrow> path list \<Rightarrow> path \<Rightarrow> path list" where
  "add_possible_link fs bin other links possible =
     (case link_target fs possible of
        None \<Rightarrow> links
      | Some l \<Rightarrow>
          links
          @ (if path_starts_with l bin \<and> path_contains links l then [possible] else [])
          @ (case other of Some r \<Rightarrow> if path_eq r l then [possible] else [] | None \<Rightarrow> []))"

definition get_python_in_bin :: "file_system \<Rightarrow> python_env \<Rightarrow> bool \<Rightarrow> python_environment option" where
  "get_python_in_bin fs env is64 =
     (if pe_version env = None \<or> pe_prefix env = None then None
      else map_option (\<lambda>bin.
        let exe = pe_executable env; (own, other) = own_targets fs bin exe;
            links = foldl (add_possible_link fs bin other) (unwrap_or (pe_symlinks env) [] @ [exe] @ own)
                      (find_executables fs bin)
        in build (with_symlinks (Some (sort_dedup links)) (with_prefix (pe_prefix env)
             (with_arch (Some (if is64 then X64 else X86)) (with_version (pe_version env)
             (with_executable (Some exe) (builder_new (Some LinuxGlobal))))))))
        (parent (pe_executable env)))"

definition reported_entries :: "python_environment \<Rightarrow> (component list \<times> python_environment) list" where
  "reported_entries e = map (\<lambda>p. (components p, e)) (unwrap_or (symlinks e) [] @ to_list (executable e))"

fun find_and_report_global_pythons_in ::
  "linux_world \<Rightarrow> path list \<Rightarrow> linux_state \<Rightarrow> (linux_state \<times> python_environment list) outcome" where
  "find_and_report_global_pythons_in w [] s = Ret (s, [])"
| "find_and_report_global_pythons_in w (exe # exes) s =
     (if cache_contains_key (ls_reported s) (components exe) then find_and_report_global_pythons_in w exes s
      else case resolved_from (lw_crates w) (lw_cache w) exe (ls_interpreters s) of
             (ic, Panic m) \<Rightarrow> Panic m
           | (ic, Ret None) \<Rightarrow> find_and_report_global_pythons_in w exes (s\<lparr>ls_interpreters := ic\<rparr>)
           | (ic, Ret (Some r)) \<Rightarrow>
               (case get_python_in_bin (lw_fs w) (to_python_env r) (res_is64_bit r) of
                  None \<Rightarrow> find_and_report_global_pythons_in w exes (s\<lparr>ls_interpreters := ic\<rparr>)
                | Some env \<Rightarrow>
                    (case add_to_cache (lw_crates w) (lw_cache w) r env ic of
                       (ic', Panic m) \<Rightarrow> Panic m
                     | (ic', Ret _) \<Rightarrow>
                         and_then (find_and_report_global_pythons_in w exes
                             (s\<lparr>ls_interpreters := ic', ls_reported := cache_insert_many (ls_reported s) (reported_entries env)\<rparr>))
                           (\<lambda>(s', es). Ret (s', env # es)))))"

definition global_bin_dirs :: "file_system \<Rightarrow> path list" where
  "global_bin_dirs fs =
     foldl (\<lambda>ds d. if path_contains ds d then ds else ds @ [d]) []
       (map (\<lambda>p. unwrap_or (canonicalize fs p) p) [''/bin'', ''/usr/bin'', ''/usr/local/bin''])"

fun find_in_dirs :: "linux_world \<Rightarrow> path list \<Rightarrow> linux_state \<Rightarrow> (linux_state \<times> python_environment list) outcome" where
  "find_in_dirs w [] s = Ret (s, [])"
| "find_in_dirs w (d # ds) s =
     and_then (find_and_report_global_pythons_in w (find_executables (lw_fs w) d) s) (\<lambda>(s1, es1).
     and_then (find_in_dirs w ds s1) (\<lambda>(s2, es2). Ret (s2, es1 @ es2)))"

definition find_cached :: "linux_world \<Rightarrow> linux_state \<Rightarrow> (linux_state \<times> python_environment list) outcome" where
  "find_cached w s =
     (if lw_os w = MacOs \<or> lw_os w = Windows then Ret (s, []) else find_in_dirs w (global_bin_dirs (lw_fs w)) s)"

definition dominated :: "path \<Rightarrow> bool" where
  "dominated p \<longleftrightarrow> path_starts_with p ''/bin'' \<or> path_starts_with p ''/usr/bin'' \<or> path_starts_with p ''/usr/local/bin''"

text \<open>The link under which an interpreter was asked for is added to what is known of its target.\<close>

definition with_alias :: "path \<Rightarrow> python_environment \<Rightarrow> python_environment" where
  "with_alias exe e =
     (let links = unwrap_or (symlinks e) []
      in if path_contains links exe then e else e\<lparr>symlinks := Some (sort_dedup (links @ [exe]))\<rparr>)"

definition linux_try_from ::
  "linux_world \<Rightarrow> python_env \<Rightarrow> linux_state \<Rightarrow> (linux_state \<times> python_environment option) outcome" where
  "linux_try_from w env s =
     (let fs = lw_fs w; exe = pe_executable env; canonical = canonicalize fs exe in
      if lw_os w = MacOs \<or> lw_os w = Windows \<or> is_virtualenv fs env \<or> pe_version env = None
         \<or> \<not> dominated exe \<and> \<not> (case canonical of Some c \<Rightarrow> dominated c | None \<Rightarrow> False)
      then Ret (s, None)
      else and_then (find_cached w s) (\<lambda>(s1, _).
        case cache_get (ls_reported s1) (components exe) of
          Some e \<Rightarrow> Ret (s1, Some e)
        | None \<Rightarrow>
            (case canonical of
               None \<Rightarrow> Ret (s1, None)
             | Some c \<Rightarrow>
                 if path_eq c exe then Ret (s1, None)
                 else (case cache_get (ls_reported s1) (components c) of
                         None \<Rightarrow> Ret (s1, None)
                       | Some e \<Rightarrow>
                           let e' = with_alias exe e;
                               rep = fst (cache_insert (fst (cache_insert (ls_reported s1) (components c) e')) (components exe) e')
                           in Ret (s1\<lparr>ls_reported := rep\<rparr>, Some e')))))"

definition linux_find :: "linux_world \<Rightarrow> linux_state \<Rightarrow> (linux_state \<times> python_environment list) outcome" where
  "linux_find w s =
     (if lw_os w = MacOs \<or> lw_os w = Windows then Ret (s, [])
      else find_cached w (s\<lparr>ls_reported := cache_clear (ls_reported s)\<rparr>))"

section \<open>What is remembered\<close>

definition linux_entry_ok :: "component list \<Rightarrow> python_environment \<Rightarrow> bool" where
  "linux_entry_ok k e \<longleftrightarrow> kind e = Some LinuxGlobal \<and> executable e \<noteq> None \<and> k \<in> known_paths e"

definition linux_ok :: "linux_state \<Rightarrow> bool" where
  "linux_ok s \<longleftrightarrow> (\<forall>k e. ls_reported s k = Some e \<longrightarrow> linux_entry_ok k e)"

lemma cache_insert_many_Some:
  "cache_insert_many c es k = Some v \<Longrightarrow> c k = Some v \<or> (k, v) \<in> set es"
proof (induction es arbitrary: c)
  case (Cons a es)
  obtain k' v' where a: "a = (k', v')" by fastforce
  with Cons.prems have "cache_insert_many (c(k' \<mapsto> v')) es k = Some v" by (simp add: cache_insert_many_def cache_insert_def)
  from Cons.IH [OF this] a show ?case by (auto split: if_split_asm)
qed (simp add: cache_insert_many_def)

lemma cache_insert_many_hit:
  "k \<in> fst ` set es \<Longrightarrow> (\<And>k' v'. (k', v') \<in> set es \<Longrightarrow> v' = v) \<Longrightarrow> cache_insert_many c es k = Some v"
proof (induction es arbitrary: c rule: rev_induct)
  case (snoc a es)
  then show ?case
    by (cases a; cases "k = fst a") (auto simp: cache_insert_many_def cache_insert_def)
qed simp

lemma get_python_in_bin_claims:
  assumes "get_python_in_bin fs env is64 = Some e" shows "claims LinuxGlobal (pe_executable env) e"
proof -
  from assms obtain bin where "parent (pe_executable env) = Some bin" by (auto simp: get_python_in_bin_def split: if_split_asm)
  moreover obtain own other where "own_targets fs bin (pe_executable env) = (own, other)" by fastforce
  ultimately show ?thesis using assms
    by (auto simp: get_python_in_bin_def Let_def simp del: not_None_eq split: if_split_asm)
qed

lemma get_python_in_bin_entries:
  assumes "get_python_in_bin fs env is64 = Some e" "(k, x) \<in> set (reported_entries e)"
  shows "x = e \<and> linux_entry_ok k e"
  using get_python_in_bin_claims [OF assms(1)] assms(2)
  by (auto simp: reported_entries_def linux_entry_ok_def claims_def known_paths_def)

text \<open>The links that were known before the search for others are kept.\<close>

lemma add_possible_links_keep: "set links \<subseteq> set (foldl (add_possible_link fs bin other) links ps)"
proof (induction ps arbitrary: links)
  case (Cons p ps)
  have "set links \<subseteq> set (add_possible_link fs bin other links p)" by (auto simp: add_possible_link_def split: option.split)
  with Cons.IH [of "add_possible_link fs bin other links p"] show ?case by auto
qed simp

lemma get_python_in_bin_total:
  assumes "pe_version env \<noteq> None" "pe_prefix env \<noteq> None" "parent (pe_executable env) = Some bin"
  shows "\<exists>e. get_python_in_bin fs env is64 = Some e \<and> components ` set (unwrap_or (pe_symlinks env) []) \<subseteq> known_paths e"
proof -
  obtain own other where o: "own_targets fs bin (pe_executable env) = (own, other)" by fastforce
  let ?links = "foldl (add_possible_link fs bin other) (unwrap_or (pe_symlinks env) [] @ [pe_executable env] @ own) (find_executables fs bin)"
  have "set (unwrap_or (pe_symlinks env) []) \<subseteq> set ?links" using add_possible_links_keep by fastforce
  with assms o show ?thesis
    by (auto simp: get_python_in_bin_def Let_def known_paths_build components_sort_dedup)
qed

lemma reported_entries_hit:
  assumes "env_wf e" "k \<in> known_paths e" shows "cache_insert_many c (reported_entries e) k = Some e"
  using assms by (intro cache_insert_many_hit) (force simp: reported_entries_def known_paths_def)+

lemma find_and_report_keeps:
  "linux_ok s \<Longrightarrow> find_and_report_global_pythons_in w exes s = Ret (s', es) \<Longrightarrow> linux_ok s'"
proof (induction w exes s arbitrary: s' es rule: find_and_report_global_pythons_in.induct)
  case (2 w exe exes s)
  show ?case
  proof (cases "cache_contains_key (ls_reported s) (components exe)")
    case True
    with 2 show ?thesis by simp
  next
    case False
    obtain ic x where r: "resolved_from (lw_crates w) (lw_cache w) exe (ls_interpreters s) = (ic, x)" by fastforce
    have ok: "linux_ok (s\<lparr>ls_interpreters := ic\<rparr>)" using "2.prems"(1) by (simp add: linux_ok_def)
    show ?thesis
    proof (cases x)
      case (Panic m)
      with False r "2.prems" show ?thesis by simp
    next
      case (Ret v)
      show ?thesis
      proof (cases v)
        case None
        with False r Ret "2.prems" "2.IH"(2) [OF False r [symmetric] Ret None ok] show ?thesis by simp
      next
        case (Some res)
        show ?thesis
        proof (cases "get_python_in_bin (lw_fs w) (to_python_env res) (res_is64_bit res)")
          case None
          with False r Ret Some "2.prems" "2.IH"(3) [OF False r [symmetric] Ret Some None ok] show ?thesis by simp
        next
          case env: (Some e)
          obtain ic' u where a: "add_to_cache (lw_crates w) (lw_cache w) res e ic = (ic', u)" by fastforce
          let ?s = "s\<lparr>ls_interpreters := ic', ls_reported := cache_insert_many (ls_reported s) (reported_entries e)\<rparr>"
          have ok': "linux_ok ?s" using "2.prems"(1) get_python_in_bin_entries [OF env]
            by (auto simp: linux_ok_def dest!: cache_insert_many_Some)
          show ?thesis
          proof (cases u)
            case (Panic m)
            with False r Ret Some env a "2.prems" show ?thesis by simp
          next
            case u: (Ret y)
            with False r Ret Some env a "2.prems"(2) obtain es' where
              "find_and_report_global_pythons_in w exes ?s = Ret (s', es')" by (auto simp: and_then_Ret)
            from "2.IH"(4) [OF False r [symmetric] Ret Some env a [symmetric] u ok' this] show ?thesis .
          qed
        qed
      qed
    qed
  qed
qed simp

lemma find_in_dirs_keeps: "linux_ok s \<Longrightarrow> find_in_dirs w ds s = Ret (s', es) \<Longrightarrow> linux_ok s'"
  by (induction w ds s arbitrary: s' es rule: find_in_dirs.induct) (auto simp: and_then_Ret dest: find_and_report_keeps)

lemma find_cached_keeps: "linux_ok s \<Longrightarrow> find_cached w s = Ret (s', es) \<Longrightarrow> linux_ok s'"
  by (auto simp: find_cached_def dest: find_in_dirs_keeps split: if_split_asm)

lemma with_alias_ok:
  assumes "linux_entry_ok k e"
  shows "linux_entry_ok k (with_alias exe e)" "linux_entry_ok (components exe) (with_alias exe e)"
  using assms
  by (auto simp: linux_entry_ok_def with_alias_def known_paths_def path_contains_iff components_sort_dedup Let_def)

lemma linux_try_from_keeps:
  assumes "linux_ok s" "linux_try_from w env s = Ret (s', e)"
  shows "linux_ok s' \<and> (\<forall>x. e = Some x \<longrightarrow> linux_entry_ok (components (pe_executable env)) x)"
proof (cases "find_cached w s")
  case (Ret r)
  obtain s1 es where r: "r = (s1, es)" by fastforce
  have ok: "linux_ok s1" using find_cached_keeps [OF assms(1)] Ret r by simp
  have entry: "linux_entry_ok k x" if "ls_reported s1 k = Some x" for k x using ok that by (simp add: linux_ok_def)
  note entry_alias = with_alias_ok [OF entry]
  from assms ok show ?thesis
    by (auto simp: linux_try_from_def Ret r Let_def cache_get_def cache_insert_def linux_ok_def dest: entry entry_alias
      split: if_split_asm option.split_asm)
next
  case (Panic m)
  with assms show ?thesis by (auto simp: linux_try_from_def Let_def split: if_split_asm)
qed

section \<open>Properties\<close>

text \<open>The operations of the locator in any order, each with the disk of its time.\<close>

inductive linux_step :: "linux_state \<Rightarrow> linux_state \<Rightarrow> bool" where
  linux_finds: "linux_find w s = Ret (t, es) \<Longrightarrow> linux_step s t"
| linux_identifies: "linux_try_from w env s = Ret (t, e) \<Longrightarrow> linux_step s t"

interpretation linux_cache: inv_system "\<lambda>s. ls_reported s = Map.empty" linux_step linux_ok
proof
  fix s t assume ok: "linux_ok s" and "linux_step s t"
  from this(2) show "linux_ok t"
  proof cases
    case (linux_finds w es)
    have "linux_ok (s\<lparr>ls_reported := cache_clear (ls_reported s)\<rparr>)" by (simp add: linux_ok_def cache_clear_def)
    from find_cached_keeps [OF this] linux_finds ok show ?thesis by (auto simp: linux_find_def split: if_split_asm)
  next
    case (linux_identifies w env e)
    with linux_try_from_keeps [OF ok] show ?thesis by blast
  qed
qed (simp add: linux_ok_def)

text \<open>Whatever was searched and identified before, and however the disk has changed since, a
  system interpreter that is claimed is of this locator's kind, has an executable, and knows the path
  that was asked for, also when only the target of that path had been found.\<close>

theorem linux_claim_known:
  assumes "ls_reported s = Map.empty" "linux_step\<^sup>*\<^sup>* s t" "linux_try_from w env t = Ret (t', Some e)"
  shows "kind e = Some LinuxGlobal \<and> executable e \<noteq> None \<and> components (pe_executable env) \<in> known_paths e"
  using linux_try_from_keeps [OF linux_cache.inv_reachable [OF assms(1,2)] assms(3)]
  by (simp add: linux_entry_ok_def)

definition linux_demo_world :: linux_world where
  "linux_demo_world = \<lparr>lw_os = OtherUnix, lw_fs = plain_fs [''/bin/python''] [''/bin''], lw_crates = demo_crates, lw_cache = demo_now\<rparr>"

definition linux_demo_env :: python_env where
  "linux_demo_env = \<lparr>pe_executable = ''/bin/python'', pe_prefix = Some ''/x'', pe_version = Some ''3.12'', pe_symlinks = None\<rparr>"

theorem linux_claim_known_witness:
  "\<exists>t' e. linux_try_from linux_demo_world linux_demo_env \<lparr>ls_reported = Map.empty, ls_interpreters = empty_cache\<rparr> = Ret (t', Some e)
     \<and> kind e = Some LinuxGlobal \<and> executable e \<noteq> None \<and> components ''/bin/python'' \<in> known_paths e"
proof -
  let ?s = "\<lparr>ls_reported = Map.empty, ls_interpreters = empty_cache\<rparr>"
  let ?fs = "plain_fs [''/bin/python''] [''/bin'']" and ?r = "resolved_of_info ''/bin/python'' demo_info"
  have dirs: "global_bin_dirs ?fs = [''/bin'', ''/usr/bin'', ''/usr/local/bin'']" by code_simp
  have exes: "find_executables ?fs ''/bin'' = [''/bin/python'']" "find_executables ?fs ''/usr/bin'' = []"
    "find_executables ?fs ''/usr/local/bin'' = []" by code_simp+
  have guard: "\<not> is_virtualenv ?fs linux_demo_env" "dominated ''/bin/python''" by code_simp+
  have x: "parent ''/x/python'' = Some ''/x''" by code_simp
  obtain ic en where ic: "resolved_from demo_crates demo_now ''/bin/python'' empty_cache = (ic, Ret (Some ?r))"
    "ic_locks ic = [components ''/bin/python'' \<mapsto> en]" "\<not> ce_poisoned en"
    using fresh_resolve_entry [OF demo_details] by blast
  obtain e where e: "get_python_in_bin ?fs (to_python_env ?r) True = Some e"
    "components ` set (unwrap_or (pe_symlinks (to_python_env ?r)) []) \<subseteq> known_paths e"
    using get_python_in_bin_total [of "to_python_env ?r" "''/x''" ?fs True] x
    by (auto simp: to_python_env_def resolved_of_info_def demo_info_def norm_case_def)
  obtain ic' where ic': "add_to_cache demo_crates demo_now ?r e ic = (ic', Ret ())"
    using add_to_cache_returns [of ic demo_crates demo_now ?r e] ic(2,3) by (metis fun_upd_apply option.distinct(1) option.inject)
  have "components ''/bin/python'' \<in> known_paths e"
    using e(2) by (auto simp: to_python_env_def resolved_of_info_def components_sort_dedup)
  then have hit: "cache_insert_many Map.empty (reported_entries e) (components ''/bin/python'') = Some e"
    using get_python_in_bin_claims [OF e(1)] by (intro reported_entries_hit) (auto simp: claims_def)
  have "res_is64_bit ?r" by (simp add: resolved_of_info_def demo_info_def)
  with ic e ic' dirs exes have "\<exists>s1. find_cached linux_demo_world ?s = Ret (s1, [e])
      \<and> ls_reported s1 = cache_insert_many Map.empty (reported_entries e)"
    by (simp add: find_cached_def linux_demo_world_def cache_contains_key_def)
  with hit guard obtain t' where e: "linux_try_from linux_demo_world linux_demo_env ?s = Ret (t', Some e)"
    by (auto simp: linux_try_from_def linux_demo_world_def linux_demo_env_def cache_get_def Let_def)
  from linux_claim_known [OF _ _ e, of ?s] e show ?thesis by (auto simp: linux_demo_env_def)
qed

end
