(* ===== verification/Mac_Locators.thy ===== *)
theory Mac_Locators
  imports Path_Walk Virtual_Envs Interpreter_Cache
begin

text \<open>
  The locators of the three kinds of system interpreters of macOS: the installers of python.org
  (\<open>pet-mac-python-org/src/lib.rs\<close>), the command line tools (\<open>pet-mac-commandlinetools/src/lib.rs\<close>)
  and Xcode (\<open>pet-mac-xcode/src/lib.rs\<close>). The last two run \<open>/usr/bin/python3\<close> through the cache of
  interpreters, because it leads to their interpreter without being a link.
\<close>

section \<open>Where the interpreters are\<close>

text \<open>The first two tests are the same code in more than one of the crates.\<close>

definition is_macos_python_executable_name :: "string \<Rightarrow> bool" where
  "is_macos_python_executable_name name \<longleftrightarrow>
     name = ''python'' \<or> name = ''python3''
     \<or> (case strip_prefix_str ''python3.'' name of
          None \<Rightarrow> False
        | Some minor \<Rightarrow> minor \<noteq> [] \<and> list_all is_digit minor)"

definition is_macos_framework_version_dir :: "string \<Rightarrow> bool" where
  "is_macos_framework_version_dir v \<longleftrightarrow>
     v = ''Current''
     \<or> (case split_on (CHR ''.'') v of
          [major, minor] \<Rightarrow> major \<noteq> [] \<and> list_all is_digit major \<and> minor \<noteq> [] \<and> list_all is_digit minor
        | _ \<Rightarrow> False)"

definition is_valid_framework_version_dir :: "string \<Rightarrow> bool" where
  "is_valid_framework_version_dir dir \<longleftrightarrow>
     dir = ''Current''
     \<or> (case str_find ''.'' dir of
          None \<Rightarrow> False
        | Some i \<Rightarrow> take i dir \<noteq> [] \<and> list_all is_digit (take i dir)
                    \<and> drop (Suc i) dir \<noteq> [] \<and> list_all is_digit (drop (Suc i) dir))"

definition framework_versions :: path where
  "framework_versions = ''/Library/Frameworks/Python.framework/Versions''"

definition framework_current :: path where
  "framework_current = ''/Library/Frameworks/Python.framework/Versions/Current''"

definition current_bin :: path where
  "current_bin = ''/Library/Frameworks/Python.framework/Versions/Current/bin''"

definition current_python3 :: path where
  "current_python3 = ''/Library/Frameworks/Python.framework/Versions/Current/bin/python3''"

definition is_mac_python_org_framework_path :: "path \<Rightarrow> bool" where
  "is_mac_python_org_framework_path exe \<longleftrightarrow>
     (case path_strip_prefix exe framework_versions of
        None \<Rightarrow> False
      | Some entry \<Rightarrow>
          (case components entry of
             [Normal v, Normal part, Normal name] \<Rightarrow>
               is_macos_framework_version_dir v \<and> part = ''bin'' \<and> is_macos_python_executable_name name
           | _ \<Rightarrow> False))"

definition tools_usr :: path where
  "tools_usr = ''/Library/Developer/CommandLineTools/usr''"

definition tools_usr_bin :: path where
  "tools_usr_bin = ''/Library/Developer/CommandLineTools/usr/bin''"

definition tools_frameworks :: path where
  "tools_frameworks = ''/Library/Developer/CommandLineTools/Library/Frameworks''"

definition tools_versions :: path where
  "tools_versions = ''/Library/Developer/CommandLineTools/Library/Frameworks/Python3.framework/Versions''"

definition is_cmdlinetools_python_path :: "path \<Rightarrow> bool" where
  "is_cmdlinetools_python_path p \<longleftrightarrow>
     (case file_name p of
        None \<Rightarrow> False
      | Some name \<Rightarrow>
          is_macos_python_executable_name name
          \<and> (case path_strip_prefix p tools_usr_bin of
               Some rest \<Rightarrow> length (components rest) = 1
             | None \<Rightarrow>
                 (case path_strip_prefix p tools_versions of
                    None \<Rightarrow> False
                  | Some rest \<Rightarrow>
                      (case components rest of
                         [v, b, exe] \<Rightarrow> is_valid_framework_version_dir (component_text v) \<and> component_text b = ''bin''
                       | _ \<Rightarrow> False))))"

definition is_xcode_python_path :: "string \<Rightarrow> bool" where
  "is_xcode_python_path exe \<longleftrightarrow>
     (case strip_prefix_str ''/Applications/'' exe of
        None \<Rightarrow> False
      | Some rest \<Rightarrow>
          let bundle = hd (split_on (CHR ''/'') rest); relative = drop (length bundle) rest
          in if \<not> prefix ''Xcode'' bundle \<or> \<not> suffix ''.app'' bundle then False
             else case strip_prefix_str ''/Contents/Developer/usr/bin/'' relative of
                    Some entry \<Rightarrow> is_macos_python_executable_name entry \<and> CHR ''/'' \<notin> set entry
                  | None \<Rightarrow>
                      (case strip_prefix_str ''/Contents/Developer/Library/Frameworks/Python3.framework/Versions/'' relative of
                         None \<Rightarrow> False
                       | Some entry \<Rightarrow>
                           (case split_on (CHR ''/'') entry of
                              [v, b, name] \<Rightarrow>
                                is_macos_framework_version_dir v \<and> b = ''bin'' \<and> is_macos_python_executable_name name
                            | _ \<Rightarrow> False)))"

section \<open>Interpreters of python.org\<close>

text \<open>A file that is a link to a path already known joins the paths.\<close>

definition join_if_linked :: "file_system \<Rightarrow> path list \<Rightarrow> path \<Rightarrow> path list" where
  "join_if_linked fs links exe =
     (if path_contains links exe then links
      else case resolve_symlink fs exe of
             None \<Rightarrow> links
           | Some l \<Rightarrow> if path_contains links l then links @ [exe] else links)"

text \<open>Whether the installation is the current one: the interpreter that is reported, its paths.\<close>

definition resolve_current :: "file_system \<Rightarrow> path \<Rightarrow> path list \<Rightarrow> path \<times> path list \<times> bool" where
  "resolve_current fs exe links =
     (case resolve_symlink fs current_python3 of
        None \<Rightarrow> (exe, links, False)
      | Some r \<Rightarrow>
          if path_starts_with exe framework_current
          then if path_starts_with r framework_versions \<and> \<not> path_starts_with r framework_current
               then (r, links @ [r, current_python3], True) else (exe, links, False)
          else if path_eq r exe then (exe, links @ [r, current_python3], True) else (exe, links, False))"

definition join_global_link :: "file_system \<Rightarrow> bool \<Rightarrow> path list \<Rightarrow> path \<Rightarrow> path list" where
  "join_global_link fs version_is_current links file =
     (if version_is_current \<and> path_starts_with file current_bin then links @ [file]
      else case resolve_symlink fs file of
             None \<Rightarrow> links
           | Some l \<Rightarrow> if path_contains links l then links @ [file] else links)"

definition python_org_try_from :: "target_os \<Rightarrow> file_system \<Rightarrow> python_env \<Rightarrow> python_environment option" where
  "python_org_try_from os fs env =
     (if os \<noteq> MacOs then None
      else if is_virtualenv fs env then None
      else let resolved = unwrap_or (resolve_symlink fs (pe_executable env)) (pe_executable env) in
        if \<not> is_mac_python_org_framework_path resolved then None
        else case resolve_current fs resolved [resolved, pe_executable env] of (exe, links, version_is_current) \<Rightarrow>
          Option.bind (parent exe) (\<lambda>bin. Option.bind (parent bin) (\<lambda>pre.
          Option.bind (from_header_files fs pre) (\<lambda>v.
            let own = foldl (join_if_linked fs) links (find_executables fs bin);
                all = foldl (join_global_link fs version_is_current) own
                        (find_executables fs ''/usr/local/bin'' @ find_executables fs current_bin)
            in Some (build (with_symlinks (Some (sort_dedup all)) (with_prefix (Some pre) (with_version (Some v)
                 (with_executable (Some exe) (builder_new (Some MacPythonOrg)))))))))))"

definition python_org_find :: "target_os \<Rightarrow> file_system \<Rightarrow> python_environment list outcome" where
  "python_org_find os fs =
     (if os \<noteq> MacOs then Ret []
      else and_then (map_outcome (\<lambda>pre.
               and_then (python_env_new fs (path_join (path_join pre ''bin'') ''python3'') (Some pre) (from_header_files fs pre))
                 (\<lambda>env. Ret (python_org_try_from os fs env)))
             (filter (\<lambda>pre. \<not> prefix framework_current pre)
               (unwrap_or (read_dir fs (framework_versions @ ''/'')) [])))
           (\<lambda>es. Ret (List.map_filter id es)))"

section \<open>What the command line tools and Xcode share\<close>

record mac_scan =
  ms_version :: "string option"
  ms_prefix :: "path option"
  ms_arch :: "architecture option"
  ms_links :: "path list"
  ms_resolved :: "resolved_python_env list"

definition mac_scan_new :: "python_env \<Rightarrow> path list \<Rightarrow> mac_scan" where
  "mac_scan_new env links =
     \<lparr>ms_version = pe_version env, ms_prefix = pe_prefix env, ms_arch = None, ms_links = links, ms_resolved = []\<rparr>"

definition use_resolved :: "resolved_python_env \<Rightarrow> mac_scan \<Rightarrow> mac_scan" where
  "use_resolved r m =
     m\<lparr>ms_version := Some (res_version r), ms_prefix := Some (res_prefix r),
       ms_arch := Some (if res_is64_bit r then X64 else X86), ms_resolved := ms_resolved m @ [r]\<rparr>"

definition usr_bin_python3 :: path where
  "usr_bin_python3 = ''/usr/bin/python3''"

definition check_usr_bin ::
  "cache_crates \<Rightarrow> cache_world \<Rightarrow> mac_scan \<Rightarrow> interpreter_cache \<Rightarrow> (interpreter_cache \<times> mac_scan) outcome" where
  "check_usr_bin ip cw m ic =
     (if path_contains (ms_links m) usr_bin_python3 then Ret (ic, m)
      else case resolved_from ip cw usr_bin_python3 ic of
             (ic', x) \<Rightarrow> and_then x (\<lambda>r. Ret (ic', case r of
                 None \<Rightarrow> m
               | Some r \<Rightarrow> if path_contains (ms_links m) (res_executable r)
                           then (use_resolved r m)\<lparr>ms_links := ms_links m @ [usr_bin_python3]\<rparr> else m)))"

definition with_file_name :: "path \<Rightarrow> string \<Rightarrow> path" where
  "with_file_name p name = path_join (if file_name p = None then p else path_pop p) name"

definition join_framework_python3 :: "file_system \<Rightarrow> string \<Rightarrow> mac_scan \<Rightarrow> mac_scan" where
  "join_framework_python3 fs frameworks m =
     (case List.find (str_contains frameworks) (ms_links m) of
        None \<Rightarrow> m
      | Some real \<Rightarrow> m\<lparr>ms_links := join_if_linked fs (ms_links m) (with_file_name real ''python3'')\<rparr>)"

definition header_version :: "file_system \<Rightarrow> mac_scan \<Rightarrow> mac_scan" where
  "header_version fs m =
     (if ms_version m = None
      then (case ms_prefix m of None \<Rightarrow> m | Some p \<Rightarrow> m\<lparr>ms_version := from_header_files fs p\<rparr>) else m)"

definition resolve_missing ::
  "cache_crates \<Rightarrow> cache_world \<Rightarrow> path \<Rightarrow> mac_scan \<Rightarrow> interpreter_cache \<Rightarrow> (interpreter_cache \<times> mac_scan) outcome" where
  "resolve_missing ip cw exe m ic =
     (if ms_version m = None \<or> ms_prefix m = None
      then (case resolved_from ip cw exe ic of
              (ic', x) \<Rightarrow> and_then x (\<lambda>r. Ret (ic', case r of None \<Rightarrow> m | Some r \<Rightarrow> use_resolved r m)))
      else Ret (ic, m))"

definition mac_environment :: "environment_kind \<Rightarrow> path \<Rightarrow> mac_scan \<Rightarrow> python_environment" where
  "mac_environment k exe m =
     build (with_symlinks (Some (ms_links m)) (with_arch (ms_arch m) (with_prefix (ms_prefix m)
       (with_version (ms_version m) (with_executable (Some exe) (builder_new (Some k)))))))"

fun remember_resolved ::
  "cache_crates \<Rightarrow> cache_world \<Rightarrow> resolved_python_env list \<Rightarrow> python_environment \<Rightarrow> interpreter_cache \<Rightarrow> interpreter_cache outcome" where
  "remember_resolved ip cw [] e ic = Ret ic"
| "remember_resolved ip cw (r # rs) e ic =
     (case add_to_cache ip cw r e ic of (ic', x) \<Rightarrow> and_then x (\<lambda>_. remember_resolved ip cw rs e ic'))"

text \<open>The last steps of both: a missing version is read from the headers, what is still missing is
  asked of the interpreter itself, and what was run is remembered with all the paths.\<close>

definition complete_scan ::
  "file_system \<Rightarrow> cache_crates \<Rightarrow> cache_world \<Rightarrow> environment_kind \<Rightarrow> path \<Rightarrow> mac_scan \<Rightarrow> interpreter_cache
   \<Rightarrow> (interpreter_cache \<times> python_environment option) outcome" where
  "complete_scan fs ip cw k exe m ic =
     and_then (resolve_missing ip cw exe (header_version fs m) ic) (\<lambda>(ic1, m1).
       let e = mac_environment k exe m1
       in and_then (remember_resolved ip cw (ms_resolved m1) e ic1) (\<lambda>ic2. Ret (ic2, Some e)))"

section \<open>Command line tools\<close>

definition cmdline_links :: "file_system \<Rightarrow> python_env \<Rightarrow> path list" where
  "cmdline_links fs env =
     (let exe = pe_executable env;
          links = exe # unwrap_or (pe_symlinks env) [] @ to_list (resolve_symlink fs exe)
      in if \<not> path_starts_with exe tools_usr_bin then links
         else case resolve_symlink fs (path_join tools_usr_bin ''python3'') of
                None \<Rightarrow> links
              | Some l \<Rightarrow> if path_contains links l
                          then foldl (join_if_linked fs) (links @ [l]) (find_executables fs tools_usr_bin) else links)"

text \<open>Without a parent directory the function returns early with nothing.\<close>

definition cmdline_prefix :: "mac_scan \<Rightarrow> mac_scan option" where
  "cmdline_prefix m =
     (if ms_prefix m \<noteq> None then Some m
      else case List.find (prefix tools_versions) (ms_links m) of
             None \<Rightarrow> Some m
           | Some l \<Rightarrow> map_option (\<lambda>d. m\<lparr>ms_prefix := parent d\<rparr>) (parent l))"

definition cmdline_try_from ::
  "target_os \<Rightarrow> file_system \<Rightarrow> cache_crates \<Rightarrow> cache_world \<Rightarrow> python_env \<Rightarrow> interpreter_cache
   \<Rightarrow> (interpreter_cache \<times> python_environment option) outcome" where
  "cmdline_try_from os fs ip cw env ic =
     (if os \<noteq> MacOs then Ret (ic, None)
      else if is_virtualenv fs env then Ret (ic, None)
      else if \<not> is_cmdlinetools_python_path (pe_executable env) then Ret (ic, None)
      else and_then (check_usr_bin ip cw (mac_scan_new env (cmdline_links fs env)) ic) (\<lambda>(ic1, m1).
        let m2 = join_framework_python3 fs tools_frameworks m1;
            m3 = m2\<lparr>ms_links := foldl (join_if_linked fs) (sort_dedup (ms_links m2)) (find_executables fs tools_usr_bin)\<rparr>
        in case cmdline_prefix m3 of
             None \<Rightarrow> Ret (ic1, None)
           | Some m4 \<Rightarrow> complete_scan fs ip cw MacCommandLineTools (pe_executable env) m4 ic1))"

definition cmdline_find_links :: "file_system \<Rightarrow> path \<Rightarrow> path list" where
  "cmdline_find_links fs exe =
     foldl (\<lambda>links name.
         case resolve_symlink fs (with_file_name exe name) of
           None \<Rightarrow> links
         | Some l \<Rightarrow> if path_contains links l then links @ [with_file_name exe name] else links)
       (to_list (resolve_symlink fs exe)) [''python'', ''python3'']"

fun cmdline_find_in ::
  "target_os \<Rightarrow> file_system \<Rightarrow> cache_crates \<Rightarrow> cache_world \<Rightarrow> path list \<Rightarrow> interpreter_cache
   \<Rightarrow> (interpreter_cache \<times> python_environment list) outcome" where
  "cmdline_find_in os fs ip cw [] ic = Ret (ic, [])"
| "cmdline_find_in os fs ip cw (exe # exes) ic =
     and_then (python_env_new fs exe None None) (\<lambda>env.
     and_then (cmdline_try_from os fs ip cw (env\<lparr>pe_symlinks := Some (cmdline_find_links fs exe)\<rparr>) ic) (\<lambda>(ic1, r).
     and_then (cmdline_find_in os fs ip cw exes ic1) (\<lambda>(ic2, es). Ret (ic2, to_list r @ es))))"

definition cmdline_find ::
  "target_os \<Rightarrow> file_system \<Rightarrow> cache_crates \<Rightarrow> cache_world \<Rightarrow> interpreter_cache
   \<Rightarrow> (interpreter_cache \<times> python_environment list) outcome" where
  "cmdline_find os fs ip cw ic =
     (if os \<noteq> MacOs then Ret (ic, [])
      else cmdline_find_in os fs ip cw
             (filter (\<lambda>f. let n = unwrap_or (file_name f) [] in n \<noteq> ''python3'' \<and> n \<noteq> ''python'')
               (find_executables fs tools_usr)) ic)"

section \<open>Xcode\<close>

text \<open>The paths of the interpreter: the link's directory, then \<open>usr/bin\<close> of the application.\<close>

definition xcode_own_links :: "file_system \<Rightarrow> python_env \<Rightarrow> path list outcome" where
  "xcode_own_links fs env =
     (let links = pe_executable env # unwrap_or (pe_symlinks env) []
      in case resolve_symlink fs (pe_executable env) of
           None \<Rightarrow> Ret links
         | Some l \<Rightarrow>
             (case parent l of
                None \<Rightarrow> Panic ''called `Option::unwrap()` on a `None` value''
              | Some d \<Rightarrow> Ret (links @ l # find_executables fs d)))"

definition xcode_bin :: "path \<Rightarrow> path" where
  "xcode_bin exe =
     (let parts = split_on (CHR ''/'') exe
      in ''/Applications/'' @ (if 2 < length parts then parts ! 2 else []) @ ''/Contents/Developer/usr/bin'')"

definition xcode_links :: "file_system \<Rightarrow> python_env \<Rightarrow> path list outcome" where
  "xcode_links fs env =
     and_then (xcode_own_links fs env) (\<lambda>links.
       let bin = xcode_bin (pe_executable env); exe = path_join bin ''python3''
       in Ret (case resolve_symlink fs exe of
                 None \<Rightarrow> links
               | Some l \<Rightarrow> if path_contains links l then links @ exe # find_executables fs bin else links))"

definition xcode_try_from ::
  "target_os \<Rightarrow> file_system \<Rightarrow> cache_crates \<Rightarrow> cache_world \<Rightarrow> python_env \<Rightarrow> interpreter_cache
   \<Rightarrow> (interpreter_cache \<times> python_environment option) outcome" where
  "xcode_try_from os fs ip cw env ic =
     (if os \<noteq> MacOs then Ret (ic, None)
      else if is_virtualenv fs env then Ret (ic, None)
      else if \<not> is_xcode_python_path (pe_executable env) then Ret (ic, None)
      else and_then (xcode_links fs env) (\<lambda>links.
        and_then (check_usr_bin ip cw (mac_scan_new env links) ic) (\<lambda>(ic1, m1).
          let m2 = join_framework_python3 fs ''Contents/Developer/Library/Frameworks'' m1
          in complete_scan fs ip cw MacXCode (pe_executable env) (m2\<lparr>ms_links := sort_dedup (ms_links m2)\<rparr>) ic1)))"

section \<open>What is claimed\<close>

text \<open>The two crates' tests of a version directory agree, although one splits at the first dot only.\<close>

lemma is_valid_framework_version_dir_eq: "is_valid_framework_version_dir d = is_macos_framework_version_dir d"
proof (cases "str_find ''.'' d")
  case None
  then have "CHR ''.'' \<notin> set d" by (simp add: str_find_char_None)
  then show ?thesis
    unfolding is_valid_framework_version_dir_def is_macos_framework_version_dir_def None by (simp add: split_on_no_sep)
next
  case (Some i)
  then obtain a b where d: "d = a @ CHR ''.'' # b" "i = length a" "CHR ''.'' \<notin> set a"
    by (rule str_find_charE)
  have dot: "\<not> is_digit (CHR ''.'')" by code_simp
  show ?thesis
  proof (cases "CHR ''.'' \<in> set b")
    case True
    then obtain x y where "b = x @ CHR ''.'' # y" by (auto dest: split_list)
    moreover have "\<not> list_all is_digit b" using True dot by (auto simp: list_all_iff)
    ultimately show ?thesis using Some d
      by (cases "split_on (CHR ''.'') y"; cases "split_on (CHR ''.'') x")
        (auto simp: is_valid_framework_version_dir_def is_macos_framework_version_dir_def split_on_append_sep split_on_no_sep
          split: list.split)
  next
    case False
    with Some d show ?thesis
      by (simp add: is_valid_framework_version_dir_def is_macos_framework_version_dir_def split_on_append_sep split_on_no_sep)
  qed
qed

lemma join_if_linked_keeps: "set links \<subseteq> set (join_if_linked fs links exe)"
  by (auto simp: join_if_linked_def split: option.split)

lemma join_global_link_keeps: "set links \<subseteq> set (join_global_link fs cur links exe)"
  by (auto simp: join_global_link_def split: option.split)

lemma foldl_keeps: "(\<And>ls x. set ls \<subseteq> set (f ls x)) \<Longrightarrow> set ls \<subseteq> set (foldl f ls xs)"
  by (induction xs arbitrary: ls) (auto, blast)

lemma resolve_current_links:
  "resolve_current fs exe links = (exe', links', cur) \<Longrightarrow> set links \<subseteq> set links'"
  by (auto simp: resolve_current_def split: option.split_asm if_split_asm)

lemma resolve_current_below:
  "resolve_current fs exe links = (exe', links', cur) \<Longrightarrow> path_starts_with exe framework_versions
   \<Longrightarrow> path_starts_with exe' framework_versions"
  by (auto simp: resolve_current_def split: option.split_asm if_split_asm)

lemma python_org_path_below: "is_mac_python_org_framework_path exe \<Longrightarrow> path_starts_with exe framework_versions"
  using path_strip_prefix_None [of exe framework_versions]
  by (auto simp: is_mac_python_org_framework_path_def path_starts_with_def split: option.split_asm)

lemma python_org_try_from_Some:
  assumes "python_org_try_from os fs env = Some e"
  shows "\<exists>exe ls pre v. os = MacOs \<and> path_starts_with exe framework_versions \<and> components (pe_executable env) \<in> components ` set ls
    \<and> e = build (with_symlinks (Some ls) (with_prefix (Some pre) (with_version (Some v)
            (with_executable (Some exe) (builder_new (Some MacPythonOrg))))))"
proof -
  let ?resolved = "unwrap_or (resolve_symlink fs (pe_executable env)) (pe_executable env)"
  obtain exe links cur where c: "resolve_current fs ?resolved [?resolved, pe_executable env] = (exe, links, cur)"
    by (metis prod_cases3)
  from assms have ok: "os = MacOs" "is_mac_python_org_framework_path ?resolved"
    by (auto simp: python_org_try_from_def Let_def split: if_split_asm)
  from assms c obtain bin pre v where "e = build (with_symlinks (Some (sort_dedup
      (foldl (join_global_link fs cur) (foldl (join_if_linked fs) links (find_executables fs bin))
        (find_executables fs ''/usr/local/bin'' @ find_executables fs current_bin))))
      (with_prefix (Some pre) (with_version (Some v) (with_executable (Some exe) (builder_new (Some MacPythonOrg))))))"
    by (auto simp: python_org_try_from_def Let_def bind_eq_Some_conv split: if_split_asm)
  moreover have "pe_executable env \<in> set links" using resolve_current_links [OF c] by auto
  then have "components (pe_executable env) \<in> components ` set (sort_dedup
      (foldl (join_global_link fs cur) (foldl (join_if_linked fs) links (find_executables fs bin))
        (find_executables fs ''/usr/local/bin'' @ find_executables fs current_bin)))"
    using foldl_keeps [of "join_if_linked fs" links, OF join_if_linked_keeps]
      foldl_keeps [of "join_global_link fs cur", OF join_global_link_keeps]
    unfolding components_sort_dedup by blast
  moreover note ok(1) resolve_current_below [OF c python_org_path_below [OF ok(2)]]
  ultimately show ?thesis by blast
qed

lemma python_org_claim:
  "python_org_try_from os fs env = Some e \<Longrightarrow> claims MacPythonOrg (pe_executable env) e"
  by (auto simp: known_paths_with_symlinks simp del: not_None_eq dest!: python_org_try_from_Some)

text \<open>Scanning keeps the paths and never touches what identifies the environment.\<close>

lemma use_resolved_links [simp]: "ms_links (use_resolved r m) = ms_links m"
  by (simp add: use_resolved_def)

lemma check_usr_bin_links:
  assumes "check_usr_bin ip cw m ic = Ret (ic', m')"
  shows "set (ms_links m) \<subseteq> set (ms_links m')"
proof (cases "path_contains (ms_links m) usr_bin_python3")
  case True
  with assms show ?thesis by (simp add: check_usr_bin_def)
next
  case False
  obtain ic1 x where r: "resolved_from ip cw usr_bin_python3 ic = (ic1, x)" by fastforce
  show ?thesis
  proof (cases x)
    case (Ret v)
    with assms False r show ?thesis by (cases v) (auto simp: check_usr_bin_def)
  qed (use assms False r in \<open>simp add: check_usr_bin_def\<close>)
qed

lemma join_framework_python3_links: "set (ms_links m) \<subseteq> set (ms_links (join_framework_python3 fs f m))"
  using join_if_linked_keeps by (auto simp: join_framework_python3_def split: option.split)

lemma mac_environment_claims:
  "claims k exe (mac_environment k exe m)"
  by (simp add: mac_environment_def known_paths_with_symlinks known_paths_with_executable del: not_None_eq)

lemma complete_scan_Some:
  assumes "complete_scan fs ip cw k exe m ic = Ret (ic', Some e)"
  shows "\<exists>m'. e = mac_environment k exe m'"
  using assms by (auto simp: complete_scan_def and_then_Ret Let_def)

lemma cmdline_claim:
  "cmdline_try_from os fs ip cw env ic = Ret (ic', Some e) \<Longrightarrow> claims MacCommandLineTools (pe_executable env) e"
  by (auto simp: cmdline_try_from_def and_then_Ret Let_def mac_environment_claims dest!: complete_scan_Some
      split: if_split_asm option.split_asm)

lemma xcode_claim:
  "xcode_try_from os fs ip cw env ic = Ret (ic', Some e) \<Longrightarrow> claims MacXCode (pe_executable env) e"
  by (auto simp: xcode_try_from_def and_then_Ret Let_def mac_environment_claims dest!: complete_scan_Some
      split: if_split_asm option.split_asm)

interpretation mac_python_org: env_locator "\<lambda>env. Ret (python_org_try_from os fs env)" "[MacPythonOrg]" for os fs
  by unfold_locales (use python_org_claim claims_def in auto)

interpretation mac_cmdline: env_locator
    "\<lambda>env. and_then (cmdline_try_from os fs ip cw env ic) (\<lambda>(_, e). Ret e)" "[MacCommandLineTools]" for os fs ip cw ic
  by unfold_locales (use cmdline_claim claims_def in \<open>auto simp: and_then_Ret\<close>)

interpretation mac_xcode: env_locator
    "\<lambda>env. and_then (xcode_try_from os fs ip cw env ic) (\<lambda>(_, e). Ret e)" "[MacXCode]" for os fs ip cw ic
  by unfold_locales (use xcode_claim claims_def in \<open>auto simp: and_then_Ret\<close>)

end
