(* ===== verification/Locator_Chain.thy ===== *)
theory Locator_Chain
  imports Pyenv Uv Poetry Pipenv Hatch Virtualenvwrapper Homebrew Linux_Global Mac_Locators
begin

text \<open>
  The chain of locators on Linux and macOS with the locators themselves: what \<open>create_locators\<close> of
  \<open>pet/src/locators.rs\<close> builds, each link the \<open>try_from\<close> of its own theory, and the identification
  of an interpreter with the state it changes: the caches of the locators and the cache of
  interpreters. A panic of a locator is a panic of the identification; what the panic leaves
  behind is not described here. The locators of Windows are not modelled: a world of Windows is
  outside this theory.
\<close>

section \<open>State and links\<close>

record chain_world =
  ch_pyenv_world :: pyenv_world
  ch_package_version :: "path \<Rightarrow> string option"
  ch_conda_world :: conda_world
  ch_uv_context :: uv_context
  ch_uv_install_dir :: "path option"
  ch_poetry_context :: poetry_context
  ch_pipenv_vars :: pipenv_vars
  ch_hatch_context :: hatch_context
  ch_hatch_storage :: "path option"
  ch_wrapper_vars :: wrapper_vars
  ch_linux_world :: linux_world
  ch_decode :: decoder

abbreviation ch_fs :: "chain_world \<Rightarrow> file_system" where
  "ch_fs w \<equiv> lw_fs (ch_linux_world w)"

abbreviation ch_os :: "chain_world \<Rightarrow> target_os" where
  "ch_os w \<equiv> lw_os (ch_linux_world w)"

record chain_state =
  ch_pyenv :: pyenv
  ch_conda :: conda
  ch_poetry :: poetry
  ch_hatch :: hatch_state
  ch_linux :: linux_state

type_synonym 's link = "python_env \<Rightarrow> 's \<Rightarrow> ('s \<times> python_environment option) outcome"

definition stateless :: "python_environment option outcome \<Rightarrow> 's \<Rightarrow> ('s \<times> python_environment option) outcome" where
  "stateless r s = and_then r (\<lambda>e. Ret (s, e))"

definition on_part ::
  "('p \<times> python_environment option) outcome \<Rightarrow> ('p \<Rightarrow> 's) \<Rightarrow> ('s \<times> python_environment option) outcome" where
  "on_part r put = and_then r (\<lambda>(p, e). Ret (put p, e))"

fun chain_try_from :: "chain_world \<Rightarrow> locator_kind \<Rightarrow> chain_state link" where
  "chain_try_from w LPyEnv env s =
     on_part (pyenv_try_from (ch_pyenv_world w) env (ch_pyenv s)) (\<lambda>p. s\<lparr>ch_pyenv := p\<rparr>)"
| "chain_try_from w LPixi env s = stateless (pixi_try_from (ch_package_version w) (ch_fs w) env) s"
| "chain_try_from w LConda env s =
     on_part (Ret (conda_try_from (ch_conda_world w) env (ch_conda s))) (\<lambda>p. s\<lparr>ch_conda := p\<rparr>)"
| "chain_try_from w LUv env s = stateless (uv_try_from (ch_uv_context w) (ch_uv_install_dir w) env) s"
| "chain_try_from w LPoetry env s =
     on_part (poetry_try_from (ch_poetry_context w) env (ch_poetry s)) (\<lambda>p. s\<lparr>ch_poetry := p\<rparr>)"
| "chain_try_from w LPipEnv env s = stateless (pipenv_try_from (ch_decode w) (ch_fs w) (ch_pipenv_vars w) env) s"
| "chain_try_from w LHatch env s =
     on_part (hatch_try_from (ch_hatch_context w) (ch_hatch_storage w) env (ch_hatch s)) (\<lambda>p. s\<lparr>ch_hatch := p\<rparr>)"
| "chain_try_from w LVirtualEnvWrapper env s =
     stateless (wrapper_try_from (ch_decode w) (ch_fs w) (ch_wrapper_vars w) env) s"
| "chain_try_from w LVenv env s = stateless (venv_try_from (ch_decode w) (ch_fs w) env) s"
| "chain_try_from w LVirtualEnv env s = stateless (virtualenv_try_from (ch_decode w) (ch_fs w) env) s"
| "chain_try_from w LHomebrew env s = stateless (Ret (homebrew_from (ch_fs w) env)) s"
| "chain_try_from w LMacXCode env s =
     on_part (xcode_try_from (ch_os w) (ch_fs w) (lw_crates (ch_linux_world w)) (lw_cache (ch_linux_world w)) env
         (ls_interpreters (ch_linux s))) (\<lambda>ic. s\<lparr>ch_linux := (ch_linux s)\<lparr>ls_interpreters := ic\<rparr>\<rparr>)"
| "chain_try_from w LMacCommandLineTools env s =
     on_part (cmdline_try_from (ch_os w) (ch_fs w) (lw_crates (ch_linux_world w)) (lw_cache (ch_linux_world w)) env
         (ls_interpreters (ch_linux s))) (\<lambda>ic. s\<lparr>ch_linux := (ch_linux s)\<lparr>ls_interpreters := ic\<rparr>\<rparr>)"
| "chain_try_from w LMacPythonOrg env s = stateless (Ret (python_org_try_from (ch_os w) (ch_fs w) env)) s"
| "chain_try_from w LLinuxGlobal env s =
     on_part (linux_try_from (ch_linux_world w) env (ch_linux s)) (\<lambda>p. s\<lparr>ch_linux := p\<rparr>)"
| "chain_try_from w _ env s = Ret (s, None)"

fun supported_categories :: "locator_kind \<Rightarrow> environment_kind list" where
  "supported_categories LPyEnv = [environment_kind.Pyenv, PyenvVirtualEnv]"
| "supported_categories LPixi = [Pixi]"
| "supported_categories LConda = [environment_kind.Conda]"
| "supported_categories LUv = [environment_kind.Uv, UvWorkspace]"
| "supported_categories LPoetry = [environment_kind.Poetry]"
| "supported_categories LPipEnv = [environment_kind.Pipenv]"
| "supported_categories LHatch = [environment_kind.Hatch]"
| "supported_categories LVirtualEnvWrapper = [VirtualEnvWrapper]"
| "supported_categories LVenv = [Venv]"
| "supported_categories LVirtualEnv = [VirtualEnv]"
| "supported_categories LHomebrew = [environment_kind.Homebrew]"
| "supported_categories LMacXCode = [MacXCode]"
| "supported_categories LMacCommandLineTools = [MacCommandLineTools]"
| "supported_categories LMacPythonOrg = [MacPythonOrg]"
| "supported_categories LLinuxGlobal = [LinuxGlobal]"
| "supported_categories _ = []"

section \<open>Identification\<close>

fun first_claim :: "'s link list \<Rightarrow> 's link" where
  "first_claim [] env s = Ret (s, None)"
| "first_claim (l # ls) env s =
     and_then (l env s) (\<lambda>(s', r). case r of Some e \<Rightarrow> Ret (s', Some e) | None \<Rightarrow> first_claim ls env s')"

text \<open>\<open>ResolvedPythonEnv::from\<close> on the cache of interpreters inside the state.\<close>

definition chain_resolve :: "chain_world \<Rightarrow> path \<Rightarrow> chain_state \<Rightarrow> (chain_state \<times> resolved_python_env option) outcome" where
  "chain_resolve w exe s =
     (case resolved_from (lw_crates (ch_linux_world w)) (lw_cache (ch_linux_world w)) exe (ls_interpreters (ch_linux s)) of
        (ic, r) \<Rightarrow> and_then r (\<lambda>r. Ret (s\<lparr>ch_linux := (ch_linux s)\<lparr>ls_interpreters := ic\<rparr>\<rparr>, r)))"

definition identify_with_links ::
  "file_system \<Rightarrow> (path \<Rightarrow> 's \<Rightarrow> ('s \<times> resolved_python_env option) outcome) \<Rightarrow> 's link list \<Rightarrow> path list \<Rightarrow> 's link" where
  "identify_with_links fs resolve links global_paths env s =
     and_then (first_claim links env s) (\<lambda>(s1, r1).
       case r1 of
         Some e \<Rightarrow> Ret (s1, Some e)
       | None \<Rightarrow>
           and_then (resolve (pe_executable env) s1) (\<lambda>(s2, r2).
             case r2 of
               None \<Rightarrow> Ret (s2, None)
             | Some r \<Rightarrow>
                 and_then (first_claim links (to_python_env r) s2) (\<lambda>(s3, r3).
                   case r3 of
                     Some e \<Rightarrow> Ret (s3, Some e)
                   | None \<Rightarrow>
                       let paths = unwrap_or (res_symlinks r) [] @ [res_executable r, pe_executable env]
                       in Ret (s3, Some (create_unknown_env fs r (fallback_kind global_paths paths))))))"

definition chain_identify :: "chain_world \<Rightarrow> path list \<Rightarrow> chain_state link" where
  "chain_identify w = identify_with_links (ch_fs w) (chain_resolve w) (map (chain_try_from w) (create_locators (ch_os w)))"

section \<open>Links that keep an invariant\<close>

text \<open>What the identification relies on: every link keeps the invariant of the state and, asked in a
  state with the invariant, claims only what it promises.\<close>

locale link_chain =
  fixes links :: "'k \<Rightarrow> 's link"
    and ok :: "'s \<Rightarrow> bool"
    and promise :: "'k \<Rightarrow> python_env \<Rightarrow> python_environment \<Rightarrow> bool"
  assumes link_ok: "ok s \<Longrightarrow> links k env s = Ret (s', r) \<Longrightarrow> ok s'"
    and link_promise: "ok s \<Longrightarrow> links k env s = Ret (s', Some e) \<Longrightarrow> promise k env e"
begin

lemma first_claim_ok:
  "ok s \<Longrightarrow> first_claim (map links ks) env s = Ret (s', r) \<Longrightarrow>
   ok s' \<and> (\<forall>e. r = Some e \<longrightarrow> (\<exists>k \<in> set ks. promise k env e))"
proof (induction ks arbitrary: s)
  case (Cons k ks)
  from Cons.prems(2) obtain t q where l: "links k env s = Ret (t, q)"
    and c: "(case q of Some e \<Rightarrow> Ret (t, Some e) | None \<Rightarrow> first_claim (map links ks) env t) = Ret (s', r)"
    by (auto simp: and_then_Ret)
  have t: "ok t" using link_ok [OF Cons.prems(1) l] .
  show ?case
  proof (cases q)
    case None
    with c Cons.IH [OF t] show ?thesis by auto
  next
    case (Some e)
    with c t link_promise [OF Cons.prems(1)] l show ?thesis by auto
  qed
qed simp

text \<open>An identified environment was claimed by a link, for the interpreter that was asked about or
  for the one that running it revealed, or it was made from what running it revealed.\<close>

lemma identify_ok:
  assumes "ok s" "identify_with_links fs resolve (map links ks) gp env s = Ret (s', r)"
    and resolve: "\<And>p s t q. ok s \<Longrightarrow> resolve p s = Ret (t, q) \<Longrightarrow> ok t"
  shows "ok s' \<and> (\<forall>e. r = Some e \<longrightarrow>
      (\<exists>k \<in> set ks. promise k env e)
      \<or> (\<exists>i t t' x. resolve (pe_executable env) t = Ret (t', Some x) \<and> ok t \<and> i = to_python_env x
           \<and> ((\<exists>k \<in> set ks. promise k i e) \<or> (\<exists>k. k \<in> {None, Some GlobalPaths} \<and> e = create_unknown_env fs x k))))"
proof -
  from assms(2) obtain s1 r1 where f: "first_claim (map links ks) env s = Ret (s1, r1)"
    by (auto simp: identify_with_links_def and_then_Ret)
  note f1 = first_claim_ok [OF assms(1) f]
  show ?thesis
  proof (cases r1)
    case (Some e)
    with assms(2) f f1 show ?thesis by (auto simp: identify_with_links_def)
  next
    case None
    with assms(2) f obtain s2 r2 where g: "resolve (pe_executable env) s1 = Ret (s2, r2)"
      by (auto simp: identify_with_links_def and_then_Ret)
    have s2: "ok s2" using resolve f1 g by blast
    show ?thesis
    proof (cases r2)
      case r2: None
      with assms(2) f None g s2 show ?thesis by (auto simp: identify_with_links_def)
    next
      case (Some x)
      with assms(2) f None g obtain s3 r3 where h: "first_claim (map links ks) (to_python_env x) s2 = Ret (s3, r3)"
        by (auto simp: identify_with_links_def and_then_Ret)
      note h1 = first_claim_ok [OF s2 h]
      have k: "fallback_kind gp ls \<in> {None, Some GlobalPaths}" for ls by (simp add: fallback_kind_def)
      show ?thesis
      proof (cases r3)
        case r3: None
        with assms(2) f None g Some h have "r = Some (create_unknown_env fs x
            (fallback_kind gp (unwrap_or (res_symlinks x) [] @ [res_executable x, pe_executable env])))" "s' = s3"
          by (auto simp: identify_with_links_def Let_def)
        with h1 k f1 g Some show ?thesis by blast
      next
        case r3: (Some e)
        with assms(2) f None g Some h have "r = Some e" "s' = s3" by (auto simp: identify_with_links_def)
        with h1 r3 f1 g Some show ?thesis by blast
      qed
    qed
  qed
qed

end

text \<open>Without state and without panics it is the identification of theory \<open>Locators\<close>.\<close>

lemma first_claim_pure:
  "first_claim (map (\<lambda>f env s. Ret (s, f env)) fs) env s = Ret (s, find_map (\<lambda>f. f env) fs)"
  by (induction fs) (auto split: option.split)

lemma identify_pure:
  "identify_with_links fs (\<lambda>p s. Ret (s, resolve p)) (map (\<lambda>f env s. Ret (s, f env)) locators) gp env s
   = Ret (s, identify_python_environment_using_locators fs resolve locators gp env)"
  by (auto simp: identify_with_links_def identify_python_environment_using_locators_def first_claim_pure Let_def
      split: option.split)

section \<open>The invariant of the chain\<close>

definition conda_ok :: "conda \<Rightarrow> bool" where
  "conda_ok co \<longleftrightarrow>
     (\<forall>k e. co_environments co k = Some e \<longrightarrow> kind e = Some environment_kind.Conda)
     \<and> (\<forall>k c. co_info_cache co k = Some c \<longrightarrow> kind (cd_environment (cc_details c)) = Some environment_kind.Conda)"

definition chain_ok :: "chain_state \<Rightarrow> bool" where
  "chain_ok s \<longleftrightarrow> conda_ok (ch_conda s) \<and> poetry_ok (ch_poetry s) \<and> linux_ok (ch_linux s)"

text \<open>What a claim is: of a kind its locator announces, with an executable (a Conda environment may
  have none), and for most locators with the path that was asked for.\<close>

definition chain_promise :: "locator_kind \<Rightarrow> python_env \<Rightarrow> python_environment \<Rightarrow> bool" where
  "chain_promise k env e \<longleftrightarrow>
     kind e \<in> Some ` set (supported_categories k)
     \<and> (executable e = None \<longrightarrow> k = LConda)
     \<and> (components (pe_executable env) \<in> known_paths e \<or> k \<in> {LConda, LPoetry, LHomebrew})"

lemma load_environment_details_kind:
  "load_environment_details meta fs p = Some d \<Longrightarrow> kind (cd_environment d) = Some environment_kind.Conda"
  by (auto simp: load_environment_details_def to_python_environment_def)

lemma get_environment_details_kind:
  assumes "\<forall>k c. cache k = Some c \<longrightarrow> kind (cd_environment (cc_details c)) = Some environment_kind.Conda"
    and "get_environment_details meta dk p cache = (cache', d)"
  shows "(\<forall>k c. cache' k = Some c \<longrightarrow> kind (cd_environment (cc_details c)) = Some environment_kind.Conda)
    \<and> (\<forall>x. d = Some x \<longrightarrow> kind (cd_environment x) = Some environment_kind.Conda)"
proof (cases "cached_details cache p (fingerprint_from_prefix (dk_metadata dk) p)")
  case (Some x)
  with assms show ?thesis
    by (auto simp: get_environment_details_def cached_details_def bind_eq_Some_conv split: if_split_asm)
next
  case None
  have "kind (cd_environment x) = Some environment_kind.Conda" if "load_environment_details meta (dk_fs dk) p = Some x" for x
    using load_environment_details_kind that by blast
  with None assms show ?thesis
    by (cases "load_environment_details meta (dk_fs dk) p"; cases "fingerprint_from_prefix (dk_metadata dk) p")
      (auto simp: get_environment_details_def store_details_def split: if_split_asm)
qed

lemma conda_details_of_ok:
  assumes "conda_ok co" "conda_details_of w p co = (co', d)"
  shows "conda_ok co' \<and> (\<forall>x. d = Some x \<longrightarrow> kind (cd_environment x) = Some environment_kind.Conda)"
proof -
  obtain ic x where g: "get_environment_details (cx_meta w) (world_disk w) p (co_info_cache co) = (ic, x)" by fastforce
  with assms(2) have co': "co' = co\<lparr>co_info_cache := ic\<rparr>" "d = x" by (simp_all add: conda_details_of_def)
  have "\<forall>k c. co_info_cache co k = Some c \<longrightarrow> kind (cd_environment (cc_details c)) = Some environment_kind.Conda"
    using assms(1) by (simp add: conda_ok_def)
  from get_environment_details_kind [OF this g] assms(1) show ?thesis unfolding co' conda_ok_def by simp
qed

lemma conda_ok_operations:
  "conda_ok conda_new" "conda_ok co \<Longrightarrow> conda_ok (conda_clear co)" "conda_ok co \<Longrightarrow> conda_ok (conda_set_executable exe co)"
  "conda_ok co \<Longrightarrow> conda_ok (fst (conda_get_manager w dir co))"
  "conda_ok co \<Longrightarrow> kind e = Some environment_kind.Conda \<Longrightarrow> conda_ok (conda_insert_env p e co)"
  by (auto simp: conda_ok_def conda_new_def conda_with_info_cache_def conda_clear_def cache_clear_def
      conda_set_executable_def conda_get_manager_def conda_insert_env_def cache_insert_def split: prod.split)

lemma conda_try_from_ok:
  assumes "conda_ok co" "conda_try_from w env co = (co', r)"
  shows "conda_ok co' \<and> (\<forall>e. r = Some e \<longrightarrow> kind e = Some environment_kind.Conda)"
proof (cases "conda_env_prefix (cx_fs w) env")
  case None
  with assms show ?thesis by (simp add: conda_try_from_def)
next
  case p: (Some p)
  obtain co1 d where d: "conda_details_of w p co = (co1, d)" by fastforce
  note d1 = conda_details_of_ok [OF assms(1) d]
  show ?thesis
  proof (cases "\<not> is_conda_env (cx_fs w) p \<or> cache_get (co_environments co) (components p) \<noteq> None \<or> d = None")
    case True
    with assms p d d1 show ?thesis
      by (auto simp: conda_try_from_def conda_ok_def cache_get_def split: option.split_asm if_split_asm)
  next
    case False
    then obtain x where x: "d = Some x" by blast
    show ?thesis
    proof (cases "cd_conda_dir x")
      case None
      with assms p d d1 x False show ?thesis by (auto simp: conda_try_from_def intro: conda_ok_operations)
    next
      case (Some dir)
      obtain co2 m where m: "conda_get_manager w dir co1 = (co2, m)" by fastforce
      have "conda_ok co2" using conda_ok_operations(4) [of co1 w dir] d1 m by simp
      with assms p d d1 x False Some m show ?thesis
        by (cases m) (auto simp: conda_try_from_def Let_def intro: conda_ok_operations)
    qed
  qed
qed

lemma stateless_Ret [simp]: "stateless r s = Ret (t, e) \<longleftrightarrow> r = Ret e \<and> t = s"
  by (auto simp: stateless_def and_then_Ret)

lemma on_part_Ret [simp]: "on_part r put = Ret (t, e) \<longleftrightarrow> (\<exists>p. r = Ret (p, e) \<and> t = put p)"
  by (auto simp: on_part_def and_then_Ret)

text \<open>The contract of a locator gives the promise of its link.\<close>

lemma env_locator_promise:
  assumes "env_locator f (supported_categories l)" "f env = Ret (Some e)" shows "chain_promise l env e"
  using building_locator.claim_kind [OF env_locator.axioms(1) [OF assms(1)] assms(2)]
    building_locator.claim_exe [OF env_locator.axioms(1) [OF assms(1)] assms(2)]
    env_locator.claim_known [OF assms]
  by (auto simp: chain_promise_def)

lemma building_locator_promise:
  assumes "building_locator f (supported_categories l)" "f env = Ret (Some e)" "l \<in> {LPoetry, LHomebrew}"
  shows "chain_promise l env e"
  using building_locator.claim_kind [OF assms(1,2)] building_locator.claim_exe [OF assms(1,2)] assms(3)
  by (auto simp: chain_promise_def)

lemma stateless_locators:
  "env_locator (pixi_try_from pv fs) (supported_categories LPixi)"
  "env_locator (uv_try_from ux d) (supported_categories LUv)"
  "env_locator (pipenv_try_from decode fs pe) (supported_categories LPipEnv)"
  "env_locator (wrapper_try_from decode fs wv) (supported_categories LVirtualEnvWrapper)"
  "env_locator (venv_try_from decode fs) (supported_categories LVenv)"
  "env_locator (virtualenv_try_from decode fs) (supported_categories LVirtualEnv)"
  "env_locator (\<lambda>env. Ret (python_org_try_from os fs env)) (supported_categories LMacPythonOrg)"
  using mac_python_org.env_locator_axioms pixi.env_locator_axioms uv.env_locator_axioms pipenv.env_locator_axioms
    virtualenvwrapper.env_locator_axioms venv.env_locator_axioms virtualenv.env_locator_axioms
  by simp_all

lemma pyenv_hatch_locators:
  "env_locator (\<lambda>env. and_then (pyenv_try_from pw env py) (\<lambda>(_, e). Ret e)) (supported_categories LPyEnv)"
  "env_locator (\<lambda>env. and_then (hatch_try_from hx d env h) (\<lambda>(_, e). Ret e)) (supported_categories LHatch)"
  using pyenv.env_locator_axioms hatch.env_locator_axioms by simp_all

lemma mac_spawning_promise:
  "xcode_try_from os fs ip cw env ic = Ret (ic', Some e) \<Longrightarrow> chain_promise LMacXCode env e"
  "cmdline_try_from os fs ip cw env ic = Ret (ic', Some e) \<Longrightarrow> chain_promise LMacCommandLineTools env e"
  by (drule xcode_claim, simp add: claims_def chain_promise_def del: not_None_eq)
    (drule cmdline_claim, simp add: claims_def chain_promise_def del: not_None_eq)

lemma pyenv_promise: "pyenv_try_from pw env py = Ret (p, Some e) \<Longrightarrow> chain_promise LPyEnv env e"
  by (rule env_locator_promise [OF pyenv_hatch_locators(1) [of pw py]]) simp

lemma hatch_promise: "hatch_try_from hx d env h = Ret (q, Some e) \<Longrightarrow> chain_promise LHatch env e"
  by (rule env_locator_promise [OF pyenv_hatch_locators(2) [of hx d h]]) simp

lemma poetry_promise:
  assumes "poetry_ok po" "poetry_try_from px env po = Ret (p, Some e)" shows "chain_promise LPoetry env e"
  by (rule building_locator_promise [of "\<lambda>env. and_then (poetry_try_from px env po) (\<lambda>(_, e). Ret e)"])
    (use poetry_building_locator [OF assms(1)] assms(2) in simp_all)

lemma homebrew_promise:
  assumes "homebrew_from fs env = Some e" shows "chain_promise LHomebrew env e"
  by (rule building_locator_promise [of "\<lambda>env. Ret (homebrew_from fs env)"])
    (use homebrew.building_locator_axioms assms in simp_all)

lemma linux_promise:
  assumes "linux_ok s" "linux_try_from w env s = Ret (t, Some e)" shows "chain_promise LLinuxGlobal env e"
  using linux_try_from_keeps [OF assms] by (auto simp: chain_promise_def linux_entry_ok_def)

lemma conda_promise:
  assumes "conda_ok co" "conda_try_from w env co = (co', Some e)" shows "chain_promise LConda env e"
  using conda_try_from_ok [OF assms] by (auto simp: chain_promise_def)

lemma chain_try_from_promise:
  assumes "chain_ok s" "chain_try_from w l env s = Ret (s', Some e)"
  shows "chain_promise l env e"
  using assms
  by (cases l) (auto simp: chain_ok_def intro: poetry_promise homebrew_promise linux_promise conda_promise
      pyenv_promise hatch_promise mac_spawning_promise stateless_locators [THEN env_locator_promise])

lemma chain_try_from_keeps:
  assumes "chain_ok s" "chain_try_from w l env s = Ret (s', r)"
  shows "chain_ok s'"
proof (cases l)
  case LConda
  with assms obtain p where "conda_try_from (ch_conda_world w) env (ch_conda s) = (p, r)" "s' = s\<lparr>ch_conda := p\<rparr>" by auto
  with conda_try_from_ok [of "ch_conda s"] assms(1) show ?thesis by (auto simp: chain_ok_def)
next
  case LPoetry
  with assms obtain p where "poetry_try_from (ch_poetry_context w) env (ch_poetry s) = Ret (p, r)" "s' = s\<lparr>ch_poetry := p\<rparr>" by auto
  with poetry_try_from_ok(1) [of "ch_poetry s"] assms(1) show ?thesis by (auto simp: chain_ok_def)
next
  case LLinuxGlobal
  with assms obtain p where "linux_try_from (ch_linux_world w) env (ch_linux s) = Ret (p, r)" "s' = s\<lparr>ch_linux := p\<rparr>" by auto
  with linux_try_from_keeps [of "ch_linux s"] assms(1) show ?thesis by (auto simp: chain_ok_def)
qed (use assms in \<open>auto simp: chain_ok_def linux_ok_def\<close>)

interpretation linux_chain: link_chain "chain_try_from w" chain_ok chain_promise for w
  by unfold_locales (rule chain_try_from_keeps, assumption+, rule chain_try_from_promise)

lemma chain_resolve_keeps: "chain_ok s \<Longrightarrow> chain_resolve w p s = Ret (t, r) \<Longrightarrow> chain_ok t"
  by (auto simp: chain_resolve_def and_then_Ret chain_ok_def linux_ok_def split: prod.split_asm)

section \<open>The shared chain of the server\<close>

text \<open>The locators that \<open>resolve\<close> and \<open>find\<close> requests share: they are created empty, identify
  interpreters (each time with the disk of that moment) and are configured. What a refresh hands
  over to them is theory \<open>Refresh_Sync\<close>.\<close>

definition chain_new :: "chain_state \<Rightarrow> bool" where
  "chain_new s \<longleftrightarrow>
     py_manager (ch_pyenv s) = None \<and> py_versions_dir (ch_pyenv s) = None \<and> ch_conda s = conda_new
     \<and> ch_poetry s = poetry_new \<and> hatch_parsed (ch_hatch s) = Map.empty \<and> ls_reported (ch_linux s) = Map.empty"

definition chain_configure :: "configuration \<Rightarrow> chain_state \<Rightarrow> chain_state" where
  "chain_configure c s =
     s\<lparr>ch_conda := conda_set_executable (conda_executable c) (ch_conda s),
       ch_poetry := Poetry.poetry_configure (workspace_directories c) (poetry_executable c) (ch_poetry s),
       ch_hatch := hatch_configure c (ch_hatch s)\<rparr>"

inductive chain_step :: "chain_state \<Rightarrow> chain_state \<Rightarrow> bool" where
  chain_identifies: "chain_identify w gp env s = Ret (t, r) \<Longrightarrow> chain_step s t"
| chain_resolves: "chain_resolve w exe s = Ret (t, x) \<Longrightarrow> chain_step s t"
| chain_configures: "chain_step s (chain_configure c s)"

lemma chain_identify_keeps:
  assumes "chain_ok s" "chain_identify w gp env s = Ret (t, r)" shows "chain_ok t"
  using linux_chain.identify_ok [OF assms(1) assms(2) [unfolded chain_identify_def]] chain_resolve_keeps by blast

interpretation shared_chain: inv_system chain_new chain_step chain_ok
proof
  show "chain_ok s" if "chain_new s" for s
    using that conda_ok_operations(1) poetry_ok_operations(1) by (simp add: chain_new_def chain_ok_def linux_ok_def)
  fix s t assume "chain_ok s" "chain_step s t"
  from this(2,1) show "chain_ok t"
  proof cases
    case chain_configures
    then show ?thesis using \<open>chain_ok s\<close>
      by (simp add: chain_configure_def chain_ok_def conda_ok_operations poetry_ok_operations)
  qed (use chain_identify_keeps chain_resolve_keeps in blast)+
qed

section \<open>Properties\<close>


text \<open>An environment with a \<open>pyvenv.cfg\<close> among the versions of pyenv, and the new locators of a server.\<close>

definition chain_demo_fs :: file_system where
  "chain_demo_fs =
     (plain_fs [''/r/versions/a/pyvenv.cfg'', ''/r/versions/a/bin/python''] [''/r'', ''/r/versions'', ''/r/versions/a'', ''/r/versions/a/bin''])
       \<lparr>read_to_string := map_of [(''/r/versions/a/pyvenv.cfg'', [])]\<rparr>"

definition chain_demo_pyenv :: pyenv_world where
  "chain_demo_pyenv =
     \<lparr>pw_conda =
        \<lparr>cx_os = OtherUnix, cx_vars = (\<lambda>_. None), cx_fs = chain_demo_fs, cx_yaml = (\<lambda>_. None), cx_meta = (\<lambda>_. None),
         cx_env = conda_vars_from [] (\<lambda>_. None), cw_metadata = (\<lambda>_. MetaNotFound)\<rparr>,
      pw_read_link = (\<lambda>_. None), pw_vars = pw_vars pyenv_demo_world\<rparr>"

definition chain_demo_world :: chain_world where
  "chain_demo_world =
     \<lparr>ch_pyenv_world = chain_demo_pyenv, ch_package_version = (\<lambda>_. None), ch_conda_world = pw_conda chain_demo_pyenv,
      ch_uv_context = \<lparr>ux_fs = chain_demo_fs, ux_toml = (\<lambda>_. None), ux_glob = (\<lambda>_. None)\<rparr>, ch_uv_install_dir = None,
      ch_poetry_context = \<lparr>px_os = OtherUnix, px_vars = (\<lambda>_. None), px_fs = chain_demo_fs, px_toml = (\<lambda>_. None),
        px_decode = (\<lambda>_. None), px_digest = (\<lambda>s. s)\<rparr>,
      ch_pipenv_vars = pipenv_vars_from (\<lambda>_. None),
      ch_hatch_context = \<lparr>hx_os = OtherUnix, hx_vars = (\<lambda>_. None), hx_fs = chain_demo_fs, hx_toml = (\<lambda>_. None)\<rparr>,
      ch_hatch_storage = None, ch_wrapper_vars = wrapper_vars_from (\<lambda>_. None),
      ch_linux_world = \<lparr>lw_os = OtherUnix, lw_fs = chain_demo_fs, lw_crates = demo_crates, lw_cache = demo_now\<rparr>,
      ch_decode = (\<lambda>_. None)\<rparr>"

definition chain_demo_state :: chain_state where
  "chain_demo_state =
     \<lparr>ch_pyenv = \<lparr>py_manager = None, py_versions_dir = None\<rparr>, ch_conda = conda_new, ch_poetry = poetry_new,
      ch_hatch = \<lparr>hatch_generation = 0, hatch_workspaces = [], hatch_parsed = Map.empty\<rparr>,
      ch_linux = \<lparr>ls_reported = Map.empty, ls_interpreters = empty_cache\<rparr>\<rparr>"

definition chain_demo_env :: python_env where
  "chain_demo_env = \<lparr>pe_executable = ''/r/versions/a/bin/python'', pe_prefix = Some ''/r/versions/a'', pe_version = None, pe_symlinks = None\<rparr>"

lemma chain_demo_new: "chain_new chain_demo_state"
  by (simp add: chain_new_def chain_demo_state_def)

lemma chain_demo_identified:
  assumes "ch_pyenv_world w = chain_demo_pyenv" "ch_os w = OtherUnix"
  shows "\<exists>p e. chain_identify w gp chain_demo_env chain_demo_state = Ret (chain_demo_state\<lparr>ch_pyenv := p\<rparr>, Some e)
     \<and> pyenv_environment chain_demo_fs ''/r/versions/a/bin/python'' ''/r/versions/a'' (py_manager p) = Ret (Some e)"
proof -
  let ?w = chain_demo_pyenv and ?py = "\<lparr>py_manager = None, py_versions_dir = None\<rparr>"
  let ?py' = "get_manager_versions_dir ?w ?py"
  have fs: "pw_fs ?w = chain_demo_fs" by (simp add: chain_demo_pyenv_def)
  have v: "py_versions_dir ?py' = Some ''/r/versions''" by code_simp
  have c: "\<not> is_conda_env chain_demo_fs ''/r/versions/a''" "\<not> is_conda_env chain_demo_fs ''/r/versions/a/bin''" by code_simp+
  have p: "parent ''/r/versions/a/bin/python'' = Some ''/r/versions/a/bin''" "parent ''/r/versions/a/bin'' = Some ''/r/versions/a''"
    "path_starts_with ''/r/versions/a/bin/python'' ''/r/versions''" by code_simp+
  have "from_pyvenv_cfg chain_demo_fs ''/r/versions/a'' = Ret None" by code_simp
  moreover have "file_name ''/r/versions/a'' = Some ''a''" by code_simp
  ultimately obtain e where e: "pyenv_environment chain_demo_fs ''/r/versions/a/bin/python'' ''/r/versions/a'' (py_manager ?py') = Ret (Some e)"
    by (simp add: pyenv_environment_def get_virtual_env_environment_def get_generic_python_environment_def Let_def)
  have "pyenv_try_from ?w chain_demo_env ?py = Ret (?py', Some e)"
    using v c p e by (simp add: pyenv_try_from_def fs chain_demo_env_def Let_def)
  then have "chain_identify w gp chain_demo_env chain_demo_state = Ret (chain_demo_state\<lparr>ch_pyenv := ?py'\<rparr>, Some e)"
    by (simp add: chain_identify_def identify_with_links_def create_locators_def on_part_def chain_demo_state_def assms)
  with e show ?thesis by blast
qed

lemma chain_demo_pyenv_world: "ch_pyenv_world chain_demo_world = chain_demo_pyenv" "ch_os chain_demo_world = OtherUnix"
  by (simp_all add: chain_demo_world_def)


end
