(* ===== verification/Resolve.thy ===== *)
theory Resolve
  imports Locator_Chain Find
begin

text \<open>
  Resolving an environment: \<open>pet/src/resolve.rs\<close>, on the chain of locators and the cache of
  interpreters, and the comparison of what was discovered with what the interpreter said,
  \<open>pet-telemetry/src/lib.rs\<close>.
\<close>

section \<open>Resolving\<close>

record resolved_environment =
  re_discovered :: python_environment
  re_resolved :: "python_environment option"

text \<open>A directory stands for the interpreter in it.\<close>

definition resolve_executable :: "file_system \<Rightarrow> path \<Rightarrow> path" where
  "resolve_executable fs exe = (if is_dir fs exe then unwrap_or (find_executable fs exe) exe else exe)"

definition build_resolved :: "python_environment \<Rightarrow> resolved_python_env \<Rightarrow> python_environment" where
  "build_resolved env info =
     build (with_version (Some (res_version info))
       (with_symlinks (Some (sort_dedup (unwrap_or (symlinks env) [] @ [res_executable info] @ unwrap_or (res_symlinks info) [])))
       (with_project (project env) (with_prefix (Some (res_prefix info)) (with_name (env_name env)
       (with_manager (manager env) (with_executable (Some (res_executable info))
       (with_display_name (display_name env) (with_arch (Some (if res_is64_bit info then X64 else X86))
       (builder_new (kind env)))))))))))"

definition chain_add_to_cache ::
  "chain_world \<Rightarrow> resolved_python_env \<Rightarrow> python_environment \<Rightarrow> chain_state \<Rightarrow> chain_state outcome" where
  "chain_add_to_cache w info env s =
     (case add_to_cache (lw_crates (ch_linux_world w)) (lw_cache (ch_linux_world w)) info env (ls_interpreters (ch_linux s)) of
        (ic, r) \<Rightarrow> and_then r (\<lambda>_. Ret (s\<lparr>ch_linux := (ch_linux s)\<lparr>ls_interpreters := ic\<rparr>\<rparr>)))"

definition env_search_paths :: "file_system \<Rightarrow> env_vars \<Rightarrow> path list" where
  "env_search_paths fs vars =
     get_search_paths_from_env_variables fs (snd (get_know_global_search_locations fs vars [])) (os_user_home vars)"

text \<open>An identified environment is resolved by running its executable.\<close>

definition resolve_identified ::
  "chain_world \<Rightarrow> python_environment \<Rightarrow> chain_state \<Rightarrow> (chain_state \<times> resolved_environment) outcome" where
  "resolve_identified w env s =
     (case executable env of
        None \<Rightarrow> Ret (s, \<lparr>re_discovered = env, re_resolved = None\<rparr>)
      | Some x \<Rightarrow>
          and_then (chain_resolve w x s) (\<lambda>(s1, i).
            case i of
              None \<Rightarrow> Ret (s1, \<lparr>re_discovered = env, re_resolved = None\<rparr>)
            | Some info \<Rightarrow>
                let e = build_resolved env info
                in and_then (chain_add_to_cache w info e s1) (\<lambda>s2. Ret (s2, \<lparr>re_discovered = env, re_resolved = Some e\<rparr>))))"

definition resolve_environment ::
  "chain_world \<Rightarrow> env_vars \<Rightarrow> path \<Rightarrow> chain_state \<Rightarrow> (chain_state \<times> resolved_environment option) outcome" where
  "resolve_environment w vars exe s =
     and_then (python_env_new (ch_fs w) (resolve_executable (ch_fs w) exe) None None) (\<lambda>asked.
     and_then (chain_identify w (env_search_paths (ch_fs w) vars) asked s) (\<lambda>(s1, r).
       case r of
         None \<Rightarrow> Ret (s1, None)
       | Some env \<Rightarrow> and_then (resolve_identified w env s1) (\<lambda>(s2, r). Ret (s2, Some r))))"

section \<open>What discovery got wrong\<close>

record inaccurate_info =
  in_kind :: "environment_kind option"
  in_executable :: bool
  in_executable_not_in_symlinks :: bool
  in_prefix :: bool
  in_version :: "bool option"
  in_arch :: bool

text \<open>The first version with three numbers in a text.\<close>

definition version_triple :: "string \<Rightarrow> string option" where
  "version_triple s = find_map (\<lambda>t. map_option (\<lambda>rest. take (length t - length rest) t) (match_triple t)) (tails s)"

definition are_versions_different :: "string \<Rightarrow> string \<Rightarrow> bool option" where
  "are_versions_different actual expected =
     Option.bind (version_triple actual) (\<lambda>a. map_option (\<lambda>e. a \<noteq> e) (version_triple expected))"

definition canonical_prefix :: "file_system \<Rightarrow> path \<Rightarrow> path" where
  "canonical_prefix fs p = norm_case (unwrap_or (canonicalize fs p) p)"

definition report_inaccuracies_identified_after_resolving ::
  "file_system \<Rightarrow> python_environment \<Rightarrow> python_environment \<Rightarrow> inaccurate_info option" where
  "report_inaccuracies_identified_after_resolving fs env res =
     (case executable res of
        None \<Rightarrow> None
      | Some x \<Rightarrow>
          if env_prefix env \<noteq> None \<and> env_prefix res = None \<or> version res = None then None
          else let exe_known = executable env \<noteq> None;
                   links = unwrap_or (symlinks env) [];
                   info = \<lparr>in_kind = kind env,
                     in_executable = (exe_known \<and> \<not> path_eq (the (executable env)) x \<and> \<not> path_eq (the (executable env)) (norm_case x)),
                     in_executable_not_in_symlinks = (exe_known \<and> \<not> path_contains links x \<and> \<not> path_contains links (norm_case x)),
                     in_prefix = (case (env_prefix env, env_prefix res) of
                                    (Some p, Some q) \<Rightarrow> \<not> path_eq (canonical_prefix fs p) (canonical_prefix fs q) | _ \<Rightarrow> False),
                     in_version = are_versions_different (the (version res)) (unwrap_or (version env) []),
                     in_arch = (arch env \<noteq> None \<and> arch env \<noteq> arch res)\<rparr>
               in if in_executable info \<or> in_executable_not_in_symlinks info \<or> in_prefix info \<or> in_arch info
                     \<or> unwrap_or (in_version info) False
                  then Some info else None)"

section \<open>Lemmas\<close>

lemma build_resolved_frames [simp]:
  "kind (build_resolved env info) = kind env" "version (build_resolved env info) = Some (res_version info)"
  "env_prefix (build_resolved env info) = Some (res_prefix info)" "env_name (build_resolved env info) = env_name env"
  "project (build_resolved env info) = project env" "manager (build_resolved env info) = manager env"
  "display_name (build_resolved env info) = display_name env"
  "arch (build_resolved env info) = Some (if res_is64_bit info then X64 else X86)" "env_wf (build_resolved env info)"
  by (simp_all add: build_resolved_def env_wf_build)

lemma build_resolved_executable: "\<exists>x. executable (build_resolved env info) = Some x"
  by (simp add: build_resolved_def flip: not_None_eq)

lemma known_paths_with_executable_eq:
  assumes "symlinks b = None" shows "known_paths (with_executable (Some exe) b) = {components exe}"
  using assms
  by (cases "parent exe"; cases "file_name exe")
     (simp_all add: with_executable_def known_paths_update known_paths_set norm_case_def components_parent_join)

lemma build_resolved_paths:
  "known_paths (build_resolved env info) =
     components ` (set (unwrap_or (symlinks env) []) \<union> {res_executable info} \<union> set (unwrap_or (res_symlinks info) []))"
  by (auto simp: build_resolved_def known_paths_build known_paths_with_executable_eq components_sort_dedup)

lemma build_resolved_links:
  "\<exists>ls. symlinks (build_resolved env info) = Some ls \<and> components ` set ls = known_paths (build_resolved env info)"
proof -
  have "env_wf (build_resolved env info)" by simp
  with build_resolved_executable [of env info] obtain ls x where "symlinks (build_resolved env info) = Some ls" "executable (build_resolved env info) = Some x" "x \<in> set ls"
    by (auto simp: env_wf_def split: option.splits)
  then show ?thesis by (auto simp: known_paths_def)
qed

text \<open>The guard of \<open>add_to_cache\<close> always accepts the environment that was built.\<close>

lemma build_resolved_accepted:
  "path_contains (unwrap_or (symlinks (build_resolved env info)) []) (res_executable info)"
  "unwrap_or (version (build_resolved env info)) [] = res_version info"
  "path_eq (unwrap_or (env_prefix (build_resolved env info)) []) (res_prefix info)"
  using build_resolved_links [of env info] by (auto simp: path_contains_iff build_resolved_paths path_eq_def)

lemma add_to_cache_accepts:
  "add_to_cache ip cw info (build_resolved env info) c =
     (case create_cache (res_executable info) c of (c1, en) \<Rightarrow>
        if ce_poisoned en then (c1, Panic ''cache mutex poisoned'')
        else (put_entry (res_executable info)
                (track_symlinks ip cw (unwrap_or (symlinks (build_resolved env info)) []) (en, ic_files c1)) c1, Ret ()))"
  using build_resolved_accepted [of env info] by (simp add: add_to_cache_def Let_def)

lemma resolve_identified_resolved:
  assumes "resolve_identified w env s = Ret (t, r)" "re_resolved r = Some e"
  shows "re_discovered r = env \<and> (\<exists>x s1 info. executable env = Some x \<and> chain_resolve w x s = Ret (s1, Some info)
    \<and> e = build_resolved env info \<and> chain_add_to_cache w info e s1 = Ret t)"
proof (cases "executable env")
  case None
  with assms show ?thesis by (auto simp: resolve_identified_def)
next
  case (Some x)
  with assms(1) obtain s1 i where i: "chain_resolve w x s = Ret (s1, i)" by (auto simp: resolve_identified_def and_then_Ret)
  with Some assms show ?thesis by (cases i) (auto simp: resolve_identified_def and_then_Ret Let_def)
qed

lemma resolve_environment_Some:
  assumes "resolve_environment w vars exe s = Ret (t, Some r)"
  shows "\<exists>asked s1 env. chain_identify w (env_search_paths (ch_fs w) vars) asked s = Ret (s1, Some env)
    \<and> resolve_identified w env s1 = Ret (t, r)"
  using assms by (auto simp: resolve_environment_def and_then_Ret split: option.split_asm)

text \<open>Versions are compared by their first three numbers, whatever follows.\<close>

lemma version_triple_text:
  assumes "\<not> is_digit (hd rest) \<or> rest = []"
  shows "version_triple (version_text a b c @ rest) = Some (version_text a b c)"
proof -
  obtain ts where "tails (version_text a b c @ rest) = (version_text a b c @ rest) # ts"
    by (cases "version_text a b c @ rest") auto
  with match_triple_text [OF assms] show ?thesis by (simp add: version_triple_def)
qed

lemma split_version_triple: "split_on (CHR ''.'') (version_text a b c) = [show_nat a, show_nat b, show_nat c]"
proof -
  have "CHR ''.'' \<notin> set (show_nat n)" for n
    using show_nat_digits [of n] by (auto simp: list_all_iff is_digit_def)
  then show ?thesis
    using split_on_append_sep [of "CHR ''.''" "show_nat a" "show_nat b @ ''.'' @ show_nat c"]
      split_on_append_sep [of "CHR ''.''" "show_nat b" "show_nat c"]
    by (simp add: version_text_def split_on_no_sep)
qed

lemma version_text_inject: "version_text a b c = version_text a' b' c' \<longleftrightarrow> a = a' \<and> b = b' \<and> c = c'"
proof
  assume "version_text a b c = version_text a' b' c'"
  then have "[show_nat a, show_nat b, show_nat c] = [show_nat a', show_nat b', show_nat c']"
    by (metis split_version_triple)
  then show "a = a' \<and> b = b' \<and> c = c'" by (metis digits_value_show_nat list.inject)
qed simp

lemma are_versions_different_numbers:
  assumes "\<not> is_digit (hd rest) \<or> rest = []" "\<not> is_digit (hd rest') \<or> rest' = []"
  shows "are_versions_different (version_text a b c @ rest) (version_text a' b' c' @ rest') = Some ((a, b, c) \<noteq> (a', b', c'))"
  by (simp add: are_versions_different_def version_triple_text [OF assms(1)] version_triple_text [OF assms(2)] version_text_inject)

section \<open>Properties\<close>


text \<open>The interpreter of the environment of pyenv is resolved in a new server.\<close>

lemma resolve_demo:
  "\<exists>t r e. resolve_environment chain_demo_world (\<lambda>_. None) ''/r/versions/a'' chain_demo_state = Ret (t, Some r) \<and> re_resolved r = Some e"
proof -
  let ?exe = "''/r/versions/a/bin/python''" and ?w = chain_demo_world
  have "resolve_executable chain_demo_fs ''/r/versions/a'' = ?exe" by code_simp
  moreover have "python_env_new chain_demo_fs ?exe None None = Ret chain_demo_env" by code_simp
  moreover have fs: "ch_fs ?w = chain_demo_fs" by (simp add: chain_demo_world_def)
  moreover from chain_demo_identified [OF chain_demo_pyenv_world, of "env_search_paths chain_demo_fs (\<lambda>_. None)"] obtain p env where
    i: "chain_identify ?w (env_search_paths chain_demo_fs (\<lambda>_. None)) chain_demo_env chain_demo_state
          = Ret (chain_demo_state\<lparr>ch_pyenv := p\<rparr>, Some env)"
    and env: "pyenv_environment chain_demo_fs ?exe ''/r/versions/a'' (py_manager p) = Ret (Some env)" by blast
  moreover from pyenv_environment_claims [OF env] obtain x where x: "executable env = Some x" by (auto simp: claims_def)
  moreover obtain c en where c: "resolved_from demo_crates demo_now x empty_cache = (c, Ret (Some (resolved_of_info x demo_info)))"
    "ic_locks c = [components x \<mapsto> en]" "\<not> ce_poisoned en" using fresh_resolve_entry [OF demo_details] by blast
  moreover obtain c' where "add_to_cache demo_crates demo_now (resolved_of_info x demo_info)
      (build_resolved env (resolved_of_info x demo_info)) c = (c', Ret ())"
    using add_to_cache_returns [of c] c(2,3) by (metis fun_upd_apply option.distinct(1) option.inject)
  ultimately show ?thesis
    by (simp add: resolve_environment_def resolve_identified_def chain_resolve_def chain_add_to_cache_def Let_def
        chain_demo_state_def chain_demo_world_def)
qed


end
