(* ===== verification/Conda_Telemetry.thy ===== *)
theory Conda_Telemetry
  imports Conda "HOL-Library.Word"
begin

text \<open>
  What \<open>pet-conda\<close> learns from running Conda: \<open>conda_info.rs\<close>, the comparison of its answer with
  what was found without it (\<open>telemetry.rs\<close>) and the two operations of \<open>lib.rs\<close> that use them. The
  output of the process and the JSON decoder are arguments, and so is the order in which the values
  of a hash map are listed. The counters are those of a release build: they wrap at 16 bits.
\<close>

section \<open>Running Conda\<close>

record conda_info =
  ci_executable :: path
  ci_envs :: "path list"
  ci_conda_prefix :: "path option"
  ci_conda_version :: string
  ci_envs_dirs :: "path list"
  ci_config_files :: "path list"
  ci_rc_path :: "path option"
  ci_sys_rc_path :: "path option"
  ci_user_rc_path :: "path option"
  ci_root_prefix :: "path option"

record conda_info_json =
  cj_envs :: "path list option"
  cj_conda_prefix :: "path option"
  cj_conda_version :: "string option"
  cj_envs_dirs :: "path list option"
  cj_envs_path :: "path list option"
  cj_config_files :: "path list option"
  cj_rc_path :: "path option"
  cj_user_rc_path :: "path option"
  cj_sys_rc_path :: "path option"
  cj_root_prefix :: "path option"

text \<open>\<open>cp_run\<close> gives the output of \<open>conda info --json\<close> when the process succeeds.\<close>

record conda_process =
  cp_run :: "path \<Rightarrow> string option"
  cp_json :: "string \<Rightarrow> conda_info_json option"

definition conda_info_from :: "conda_process \<Rightarrow> file_system \<Rightarrow> path option \<Rightarrow> conda_info option" where
  "conda_info_from cp fs given =
     (let named = unwrap_or given ''conda''; exe = unwrap_or (resolve_symlink fs named) named
      in Option.bind (cp_run cp exe) (\<lambda>out. map_option (\<lambda>j.
           \<lparr>ci_executable = exe, ci_envs = unwrap_or (cj_envs j) [], ci_conda_prefix = cj_conda_prefix j,
            ci_conda_version = unwrap_or (cj_conda_version j) [],
            ci_envs_dirs = unwrap_or (cj_envs_dirs j) [] @ unwrap_or (cj_envs_path j) [],
            ci_config_files = unwrap_or (cj_config_files j) [], ci_rc_path = cj_rc_path j,
            ci_sys_rc_path = cj_sys_rc_path j, ci_user_rc_path = cj_user_rc_path j, ci_root_prefix = cj_root_prefix j\<rparr>)
         (cp_json cp (trim out))))"

definition conda_manager_from_info :: "path \<Rightarrow> conda_info \<Rightarrow> manager_type \<Rightarrow> conda_manager option" where
  "conda_manager_from_info exe info t =
     Some \<lparr>cm_executable = exe, cm_version = Some (ci_conda_version info), cm_conda_dir = ci_conda_prefix info, cm_type = t\<rparr>"

section \<open>What was missed\<close>

definition get_all_known_conda_rc :: "conda_context \<Rightarrow> python_environment list \<Rightarrow> condarc list outcome" where
  "get_all_known_conda_rc cx known =
     and_then (get_conda_conda_rc cx) (\<lambda>rc.
     and_then (map_outcome (conda_rc_from_path cx) (filter (is_conda_install (cx_fs cx)) (List.map_filter env_prefix known))) (\<lambda>rcs.
       Ret (to_list rc @ List.map_filter id rcs)))"

definition get_conda_rcs_and_env_dirs :: "conda_context \<Rightarrow> python_environment list \<Rightarrow> (path list \<times> path list) outcome" where
  "get_conda_rcs_and_env_dirs cx known =
     and_then (get_all_known_conda_rc cx known) (\<lambda>rcs. Ret (concat (map rc_files rcs), concat (map rc_env_dirs rcs)))"

text \<open>Only paths that no known environment has as its prefix are looked at, the others stay.\<close>

definition log_and_find_missing_envs ::
  "conda_context \<Rightarrow> path list \<Rightarrow> python_environment list \<Rightarrow> conda_info \<Rightarrow> path list option" where
  "log_and_find_missing_envs cx possibly_missing known info =
     (let prefixes = List.map_filter env_prefix known;
          t = (if is_mamba_executable (ci_executable info) then MgrMamba else MgrConda)
      in if possibly_missing = [] then None
         else Option.bind (conda_manager_from_info (ci_executable info) info t) (\<lambda>m.
           let missing = foldl (\<lambda>ms p.
                   if get_conda_environment_info (cx_meta cx) (cx_fs cx) p (Some m) \<noteq> None then ms
                   else filter (\<lambda>q. \<not> path_eq q p) ms)
                 possibly_missing (filter (\<lambda>p. \<not> path_contains prefixes p) possibly_missing)
           in if missing = [] then None else Some missing))"

record rc_counts =
  rcc_not_found :: "16 word"
  rcc_missing_envs :: "16 word"
  rcc_missing_dirs :: "16 word"
  rcc_env_dirs :: "path list"

definition rc_counts_zero :: rc_counts where
  "rc_counts_zero = \<lparr>rcc_not_found = 0, rcc_missing_envs = 0, rcc_missing_dirs = 0, rcc_env_dirs = []\<rparr>"

definition count_rc :: "path list \<Rightarrow> path list \<Rightarrow> path list \<Rightarrow> rc_counts \<Rightarrow> rc_counts" where
  "count_rc known_dirs missing dirs c =
     c\<lparr>rcc_not_found := rcc_not_found c + 1,
       rcc_missing_dirs := rcc_missing_dirs c + of_nat (length (filter (\<lambda>d. \<not> path_contains known_dirs d) dirs)),
       rcc_missing_envs := rcc_missing_envs c
         + of_nat (length (concat (map (\<lambda>d. filter (\<lambda>e. path_starts_with e d) missing) dirs))),
       rcc_env_dirs := rcc_env_dirs c @ dirs\<rparr>"

text \<open>The files that count are added to those discovered, so that no file counts twice.\<close>

fun count_missing_envs_in ::
  "conda_context \<Rightarrow> path list \<Rightarrow> path list \<Rightarrow> path list \<Rightarrow> path list \<Rightarrow> rc_counts \<Rightarrow> (path list \<times> rc_counts) outcome" where
  "count_missing_envs_in cx rcs known_dirs missing [] c = Ret (rcs, c)"
| "count_missing_envs_in cx rcs known_dirs missing (rc # files) c =
     (if \<not> exists (cx_fs cx) rc \<or> path_contains rcs rc then count_missing_envs_in cx rcs known_dirs missing files c
      else and_then (conda_rc_from_path cx rc) (\<lambda>cfg.
        count_missing_envs_in cx (rcs @ [rc]) known_dirs missing files
          (count_rc known_dirs missing (filter (exists (cx_fs cx)) (case cfg of Some r \<Rightarrow> rc_env_dirs r | None \<Rightarrow> [])) c)))"

definition count_missing_envs ::
  "conda_context \<Rightarrow> path list \<Rightarrow> path list \<Rightarrow> path list \<Rightarrow> path list \<Rightarrow> (path list \<times> rc_counts) outcome" where
  "count_missing_envs cx rcs known_dirs missing files = count_missing_envs_in cx rcs known_dirs missing files rc_counts_zero"

record missing_conda_environments =
  mce_missing :: "16 word"
  mce_env_dirs_not_found :: "16 word option"
  mce_user_provided_conda_exe :: "bool option"
  mce_root_prefix_not_found :: "bool option"
  mce_conda_prefix_not_found :: "bool option"
  mce_conda_manager_not_found :: "bool option"
  mce_sys_rc_not_found :: "bool option"
  mce_user_rc_not_found :: "bool option"
  mce_other_rc_not_found :: "16 word option"
  mce_missing_env_dirs_from_sys_rc :: "16 word option"
  mce_missing_env_dirs_from_user_rc :: "16 word option"
  mce_missing_env_dirs_from_other_rc :: "16 word option"
  mce_missing_from_sys_rc_env_dirs :: "16 word option"
  mce_missing_from_user_rc_env_dirs :: "16 word option"
  mce_missing_from_other_rc_env_dirs :: "16 word option"

definition flag :: "bool \<Rightarrow> bool option" where
  "flag b = (if b then Some True else None)"

definition positive :: "16 word \<Rightarrow> 16 word option" where
  "positive n = (if 0 < n then Some n else None)"

definition prefix_unknown :: "python_environment list \<Rightarrow> path option \<Rightarrow> bool" where
  "prefix_unknown known p =
     (case p of None \<Rightarrow> False | Some p \<Rightarrow> \<not> path_contains (List.map_filter env_prefix known) p)"

definition conda_manager_unknown :: "python_environment list \<Rightarrow> bool" where
  "conda_manager_unknown known \<longleftrightarrow> \<not> list_ex (\<lambda>e. kind e = Some environment_kind.Conda \<and> manager e \<noteq> None) known"

definition report_missing_conda_envs ::
  "conda_context \<Rightarrow> path list \<Rightarrow> python_environment list \<Rightarrow> conda_info \<Rightarrow> bool \<Rightarrow> missing_conda_environments outcome" where
  "report_missing_conda_envs cx possibly_missing known info user_provided =
     (let missing = unwrap_or (log_and_find_missing_envs cx possibly_missing known info) []
      in and_then (get_all_known_conda_rc cx known) (\<lambda>rcs.
         let files = concat (map rc_files rcs); dirs = concat (map rc_env_dirs rcs)
         in and_then (count_missing_envs cx files dirs missing (to_list (ci_sys_rc_path info))) (\<lambda>(files1, sys).
            and_then (count_missing_envs cx files1 dirs missing (to_list (ci_user_rc_path info))) (\<lambda>(files2, user).
            and_then (count_missing_envs cx files2 dirs missing (ci_config_files info)) (\<lambda>(files3, other).
              let conda_dirs = set (map components (rcc_env_dirs sys @ rcc_env_dirs user @ rcc_env_dirs other))
              in Ret
                \<lparr>mce_missing = of_nat (length missing),
                 mce_env_dirs_not_found =
                   (let n = card (conda_dirs - set (map components dirs)) in if 0 < n then Some (of_nat n) else None),
                 mce_user_provided_conda_exe = flag user_provided,
                 mce_root_prefix_not_found = flag (prefix_unknown known (ci_root_prefix info)),
                 mce_conda_prefix_not_found = flag (prefix_unknown known (ci_conda_prefix info)),
                 mce_conda_manager_not_found = flag (conda_manager_unknown known),
                 mce_sys_rc_not_found = flag (0 < rcc_not_found sys),
                 mce_user_rc_not_found = flag (0 < rcc_not_found user),
                 mce_other_rc_not_found = positive (rcc_not_found other),
                 mce_missing_env_dirs_from_sys_rc = positive (rcc_missing_dirs sys),
                 mce_missing_env_dirs_from_user_rc = positive (rcc_missing_dirs user),
                 mce_missing_env_dirs_from_other_rc = positive (rcc_missing_dirs other),
                 mce_missing_from_sys_rc_env_dirs = positive (rcc_missing_envs sys),
                 mce_missing_from_user_rc_env_dirs = positive (rcc_missing_envs user),
                 mce_missing_from_other_rc_env_dirs = positive (rcc_missing_envs other)\<rparr>)))))"

text \<open>The telemetry that is reported, if any.\<close>

definition find_and_report_missing_conda_envs ::
  "conda_process \<Rightarrow> conda_context \<Rightarrow> (conda \<Rightarrow> python_environment list) \<Rightarrow> path option \<Rightarrow> conda
   \<Rightarrow> missing_conda_environments option outcome" where
  "find_and_report_missing_conda_envs cp cx vals conda_exe co =
     (let fs = cx_fs cx
      in case or_else (conda_info_from cp fs conda_exe)
                (conda_info_from cp fs (find_mamba_binary fs (cv_path (cx_env cx)))) of
           None \<Rightarrow> Ret None
         | Some info \<Rightarrow>
             let new = filter (\<lambda>p. \<not> cache_contains_key (co_environments co) (components p)) (ci_envs info)
             in if new = [] then Ret None
                else and_then (report_missing_conda_envs cx new (vals co) info (conda_exe \<noteq> None)) (\<lambda>m. Ret (Some m)))"

record conda_telemetry_info =
  cti_can_spawn_conda :: bool
  cti_conda_rcs :: "path list"
  cti_env_dirs :: "path list"
  cti_environments_txt :: "path option"
  cti_environments_txt_exists :: "bool option"
  cti_user_provided_env_found :: "bool option"
  cti_environments_from_txt :: "path list"

definition get_info_for_telemetry ::
  "conda_process \<Rightarrow> conda_context \<Rightarrow> (conda \<Rightarrow> python_environment list) \<Rightarrow> path option \<Rightarrow> conda
   \<Rightarrow> conda_telemetry_info outcome" where
  "get_info_for_telemetry cp cx vals conda_exe co =
     (let fs = cx_fs cx;
          txt = map_option (\<lambda>home. path_join (path_join home ''.conda'') ''environments.txt'') (cv_home (cx_env cx))
      in and_then (get_conda_rcs_and_env_dirs cx (vals co)) (\<lambda>(rcs, dirs).
         and_then (get_conda_environment_paths cx (co_conda_executable co)) (\<lambda>found.
           Ret \<lparr>cti_can_spawn_conda = conda_info_from cp fs conda_exe \<noteq> None,
                cti_conda_rcs = rcs, cti_env_dirs = dirs,
                cti_environments_txt = txt, cti_environments_txt_exists = map_option (exists fs) txt,
                cti_user_provided_env_found =
                  map_option (\<lambda>d. path_contains found (norm_case d)) (get_conda_dir_from_exe fs (co_conda_executable co)),
                cti_environments_from_txt = get_conda_envs_from_environment_txt cx\<rparr>)))"

section \<open>Lemmas\<close>

lemma foldl_drop_failed:
  assumes "p \<in> set (foldl (\<lambda>ms p. if P p then ms else filter (\<lambda>q. \<not> path_eq q p) ms) ms ps)"
  shows "p \<in> set ms \<and> (p \<in> set ps \<longrightarrow> P p)"
  using assms
proof (induction ps arbitrary: ms)
  case (Cons q ps)
  from Cons.IH [of "if P q then ms else filter (\<lambda>x. \<not> path_eq x q) ms"] Cons.prems show ?case
    by (cases "P q") auto
qed simp

text \<open>What counts as missing was asked about, and is either the prefix of a known environment or an
  environment that can be read.\<close>

lemma missing_envs_readable:
  assumes "log_and_find_missing_envs cx possibly_missing known info = Some missing" "p \<in> set missing"
  shows "p \<in> set possibly_missing \<and> (path_contains (List.map_filter env_prefix known) p
    \<or> (\<exists>m. get_conda_environment_info (cx_meta cx) (cx_fs cx) p (Some m) \<noteq> None))"
proof -
  let ?prefixes = "List.map_filter env_prefix known"
  let ?info = "\<lambda>m p. get_conda_environment_info (cx_meta cx) (cx_fs cx) p (Some m)"
  from assms obtain m where "p \<in> set (foldl (\<lambda>ms p. if ?info m p \<noteq> None then ms else filter (\<lambda>q. \<not> path_eq q p) ms) possibly_missing
      (filter (\<lambda>p. \<not> path_contains ?prefixes p) possibly_missing))"
    by (auto simp: log_and_find_missing_envs_def Let_def bind_eq_Some_conv simp del: not_None_eq split: if_split_asm)
  from foldl_drop_failed [OF this] show ?thesis by auto
qed

text \<open>Files that have been counted once do not count again.\<close>

lemma count_missing_envs_in_rcs:
  "count_missing_envs_in cx rcs known_dirs missing files c = Ret (rcs', c')
   \<Longrightarrow> set rcs \<subseteq> set rcs' \<and> (\<forall>f \<in> set files. exists (cx_fs cx) f \<longrightarrow> path_contains rcs' f)"
  by (induction cx rcs known_dirs missing files c rule: count_missing_envs_in.induct)
    (auto simp: and_then_Ret path_contains_iff split: if_split_asm)

lemma count_missing_envs_again:
  assumes "count_missing_envs cx rcs known_dirs missing files = Ret (rcs', c)"
  shows "count_missing_envs cx rcs' known_dirs missing files = Ret (rcs', rc_counts_zero)"
proof -
  have "count_missing_envs_in cx rs known_dirs missing fs c = Ret (rs, c)"
    if "\<forall>f \<in> set fs. exists (cx_fs cx) f \<longrightarrow> path_contains rs f" for rs fs c
    using that by (induction fs) auto
  with count_missing_envs_in_rcs assms show ?thesis by (simp add: count_missing_envs_def)
qed

end
