(* ===== verification/Server.thy ===== *)
theory Server
  imports Resolve Json_Rpc Conda_Telemetry
begin

text \<open>
  The requests of the JSON-RPC server that are not a theory of their own, \<open>pet/src/jsonrpc.rs\<close>: the
  table of handlers that \<open>start_jsonrpc_server\<close> registers, and the handlers of \<open>info\<close>, \<open>resolve\<close>,
  \<open>find\<close> and \<open>clear\<close>. Each handler runs in a thread of its own that sends the reply; a thread that
  panics sends nothing. Decoding the parameters is \<open>serde_json\<close> and an argument. In the text of an error
  only the words of the code are kept, not the value it prints.
\<close>

section \<open>The handlers\<close>

datatype server_handler =
    HandleInfo | HandleConfigure | HandleRefresh | HandleResolve | HandleFind | HandleCondaTelemetry | HandleClearCache

definition server_handlers :: "(server_handler, 'n) handlers" where
  "server_handlers =
     fold (\<lambda>(m, h). add_request_handler m h)
       [(''info'', HandleInfo), (''configure'', HandleConfigure), (''refresh'', HandleRefresh), (''resolve'', HandleResolve),
        (''find'', HandleFind), (''condaInfo'', HandleCondaTelemetry), (''clear'', HandleClearCache)] handlers_new"

record info_response =
  ir_pet_version :: string
  ir_build_id :: "string option"
  ir_commit_sha :: "string option"

text \<open>The version and the optional variables are those of the build.\<close>

definition info_current :: "string \<Rightarrow> string option \<Rightarrow> string option \<Rightarrow> info_response" where
  "info_current pkg_version build_id commit_sha =
     (let keep = (\<lambda>v. case v of Some [] \<Rightarrow> None | _ \<Rightarrow> v)
      in \<lparr>ir_pet_version = pkg_version, ir_build_id = keep build_id, ir_commit_sha = keep commit_sha\<rparr>)"

datatype reply =
    ReplyInfo info_response
  | ReplyEnvironment python_environment
  | ReplyEnvironments "python_environment list option"
  | ReplyCondaInfo conda_telemetry_info
  | ReplyNull
  | ReplyError int string

definition handle_info :: "string \<Rightarrow> string option \<Rightarrow> string option \<Rightarrow> reply list" where
  "handle_info pkg_version build_id commit_sha = [ReplyInfo (info_current pkg_version build_id commit_sha)]"

definition handle_resolve ::
  "(json \<Rightarrow> path option) \<Rightarrow> chain_world \<Rightarrow> env_vars \<Rightarrow> json \<Rightarrow> chain_state \<Rightarrow> (chain_state \<times> reply list) outcome" where
  "handle_resolve parse w vars params s =
     (case parse params of
        None \<Rightarrow> Ret (s, [ReplyError (- 4) ''Failed to parse resolve''])
      | Some exe \<Rightarrow>
          and_then (resolve_environment w vars exe s) (\<lambda>(t, r).
            Ret (t, [case r of
                       None \<Rightarrow> ReplyError (- 4) ''Failed to resolve env''
                     | Some r \<Rightarrow> ReplyEnvironment (unwrap_or (re_resolved r) (re_discovered r))])))"

text \<open>What a thread has sent when it ends.\<close>

definition sent :: "('s \<times> reply list) outcome \<Rightarrow> reply list" where
  "sent r = (case r of Ret (s, rs) \<Rightarrow> rs | Panic m \<Rightarrow> [])"

text \<open>A \<open>find\<close> request: a file is identified, a directory is searched as a workspace folder; a cache
  reporter in front of a collecting one gathers what is reported.\<close>

definition find_task :: "search_env \<Rightarrow> configuration \<Rightarrow> path \<Rightarrow> task" where
  "find_task se c p =
     (if is_file (se_fs se) p then identify_python_executables_using_locators se [p] (global_search_paths se)
      else find_python_environments_in_workspace_folder_recursive se (global_search_paths se)
             (unwrap_or (environment_directories c) []) p)"

definition collected :: "notification list \<Rightarrow> python_environment list" where
  "collected calls =
     col_environments (wrapped (fold (cache_call collect_report_manager collect_report_environment) calls
       (cache_reporter_new \<lparr>col_managers = [], col_environments = []\<rparr>)))"

definition find_reply :: "notification list \<Rightarrow> reply" where
  "find_reply calls = (let envs = collected calls in ReplyEnvironments (if envs = [] then None else Some envs))"

text \<open>The replies of one schedule of the search: its calls and whether it panicked.\<close>

definition handle_find :: "(json \<Rightarrow> path option) \<Rightarrow> search_env \<Rightarrow> configuration \<Rightarrow> json \<Rightarrow> reply list set" where
  "handle_find parse se c params =
     (case parse params of
        None \<Rightarrow> {[ReplyError (- 4) ''Failed to parse find'']}
      | Some p \<Rightarrow> (\<lambda>(calls, panicked). if panicked then [] else [find_reply calls]) ` traces (find_task se c p))"

text \<open>A \<open>condaInfo\<close> request, with the Conda executable of the configuration.\<close>

definition handle_conda_telemetry ::
  "conda_process \<Rightarrow> (conda \<Rightarrow> python_environment list) \<Rightarrow> conda_context \<Rightarrow> configuration \<Rightarrow> conda \<Rightarrow> (conda \<times> reply list) outcome" where
  "handle_conda_telemetry cp vals cx c co =
     and_then (get_info_for_telemetry cp cx vals (conda_executable c) co) (\<lambda>info. Ret (co, [ReplyCondaInfo info]))"

text \<open>A \<open>clear\<close> request. The entries in memory are dropped first; \<open>removed\<close> says whether
  \<open>remove_dir_all\<close> succeeds, and a removal that fails leaves the files.\<close>

definition handle_clear_cache :: "(path \<Rightarrow> bool) \<Rightarrow> interpreter_cache \<Rightarrow> interpreter_cache \<times> reply list" where
  "handle_clear_cache removed c =
     (case ic_dir c of
        Some d \<Rightarrow> if removed d then (clear_cache c, [ReplyNull])
                  else (c\<lparr>ic_locks := Map.empty\<rparr>, [ReplyError (- 4) ''Failed to clear cache''])
      | None \<Rightarrow> (clear_cache c, [ReplyNull]))"

section \<open>Lemmas\<close>

lemma collect_fold:
  "col_environments (fold (report_call collect_report_manager collect_report_environment) ns r) =
   col_environments r @ note_environments ns"
proof (induction ns arbitrary: r)
  case (Cons n ns)
  then show ?case by (cases n) (simp_all add: collect_report_manager_def collect_report_environment_def)
qed simp

lemma collected_first: "collected calls = note_environments (first_notes {} {} calls)"
  by (simp add: collected_def cache_call_first cache_reporter_new_def collect_fold)

lemma collected_keys:
  "distinct (map env_key (collected calls)) \<and> env_key ` set (collected calls) = env_key ` set (note_environments calls) - {None}
   \<and> set (collected calls) \<subseteq> set (note_environments calls)"
proof -
  have "env_key ` set (collected calls) \<subseteq> env_key ` set (note_environments calls) - {None}"
    using first_notes_env_keys [of "{}" "{}" calls] first_notes_subset [of "{}" "{}" calls]
    unfolding collected_first by auto
  moreover have "env_key e \<in> env_key ` set (collected calls)" if "e \<in> set (note_environments calls)" "env_key e \<noteq> None" for e
    using that first_notes_complete [of e calls _ "{}" "{}"] unfolding collected_first
    by (auto simp: set_note_environments simp del: image_iff)
  ultimately have "env_key ` set (collected calls) = env_key ` set (note_environments calls) - {None}" by blast
  then show ?thesis
    using first_notes_envs [of "{}" "{}" calls] first_notes_subset [of "{}" "{}" calls] by (simp add: collected_first)
qed

text \<open>A configuration file of Conda with an entry that is not a text leaves the request without a reply.\<close>

lemma conda_info_unanswered:
  assumes "get_conda_conda_rc cx = Panic m"
  shows "sent (handle_conda_telemetry cp vals cx c co) = []"
  by (simp add: sent_def handle_conda_telemetry_def get_info_for_telemetry_def get_conda_rcs_and_env_dirs_def
      get_all_known_conda_rc_def Let_def assms)

text \<open>After a successful \<open>clear\<close> nothing is remembered of an interpreter: it has no entry, and its
  file was in the directory that was removed.\<close>

lemma clear_cache_file:
  assumes "ic_dir c = Some d" "simple_name (ip_hash ip exe @ ''.4.json'')"
  shows "ic_files (clear_cache c) (generate_cache_file ip d exe) = None"
  using assms
  by (simp add: clear_cache_def generate_cache_file_def path_starts_with_def components_join norm_case_def restrict_map_def)

lemma resolved_from_cleared:
  assumes "simple_name (ip_hash ip exe @ ''.4.json'')"
  shows "snd (resolved_from ip w exe (clear_cache c)) = get_interpreter_details ip w exe"
proof -
  have "ic_locks (clear_cache c) = Map.empty" "ic_dir (clear_cache c) = ic_dir c" by (simp_all add: clear_cache_def)
  moreover have "get_cache_from_file ip w d exe (ic_files (clear_cache c)) = (ic_files (clear_cache c), None)" if "ic_dir c = Some d" for d
    using clear_cache_file [OF that assms] by (simp add: get_cache_from_file_def)
  ultimately show ?thesis
    by (cases "ic_dir c")
      (simp_all add: resolved_from_def create_cache_def cache_entry_create_def entry_get_def verify_in_memory_cache_def Let_def
        split: outcome.split option.split)
qed

section \<open>Properties\<close>


text \<open>The workspace folder of theory \<open>Find\<close> with a broken virtual environment.\<close>

lemma broken_venv_find:
  "task_notes (find_task broken_venv_env workspace_config ''/w'') = [EnvironmentNote broken_venv]"
  "\<not> aborts (find_task broken_venv_env workspace_config ''/w'')"
  by code_simp+


text \<open>C38: A \<open>clear\<close> request that is answered without an error makes every interpreter be run again,
  also one whose entry had been poisoned by a panic; when the cache directory cannot be removed, for
  instance because nothing has been stored in it yet, the client gets an error although the entries in memory are
  gone.\<close>

theorem clear_recovers:
  assumes "handle_clear_cache removed c = (c', rs)" "simple_name (ip_hash ip exe @ ''.4.json'')"
  shows "(rs = [ReplyNull] \<and> snd (resolved_from ip w exe c') = get_interpreter_details ip w exe)
    \<or> (rs = [ReplyError (- 4) ''Failed to clear cache''] \<and> ic_locks c' = Map.empty \<and> (\<exists>d. ic_dir c = Some d \<and> \<not> removed d))"
  using assms resolved_from_cleared [OF assms(2), of w c]
  by (auto simp: handle_clear_cache_def split: option.split_asm if_split_asm)

theorem clear_recovers_witness:
  "snd (resolved_from demo_crates demo_now ''/p'' (fst (handle_clear_cache (\<lambda>_. True) empty_cache)))
   = get_interpreter_details demo_crates demo_now ''/p''"
proof -
  obtain c' rs where c: "handle_clear_cache (\<lambda>_. True) empty_cache = (c', rs)" by fastforce
  have "simple_name (ip_hash demo_crates ''/p'' @ ''.4.json'')" by code_simp
  from clear_recovers [OF c this, of demo_now] c show ?thesis by simp
qed


definition garbled_world :: chain_world where
  "garbled_world = chain_demo_world\<lparr>ch_linux_world := (ch_linux_world chain_demo_world)\<lparr>lw_cache := demo_world NotUtf8 (Some 1)\<rparr>\<rparr>"


end
