(* ===== verification/Command_Line.thy ===== *)
theory Command_Line
  imports Resolve
begin

text \<open>
  The command line: \<open>pet/src/main.rs\<close> after clap has parsed the arguments, and \<open>pet/src/lib.rs\<close>, the
  commands \<open>find\<close> and \<open>resolve\<close> on the search of theory \<open>Find\<close> and the resolution of theory
  \<open>Resolve\<close>. The locators of a configuration are an argument, and so is how the search for missing
  environments ended, which reports telemetry only. Times are not printed, and the summary leaves
  out the times of the phases.
\<close>

section \<open>Arguments\<close>

record find_options =
  fo_print_list :: bool
  fo_print_summary :: bool
  fo_verbose :: bool
  fo_report_missing :: bool
  fo_search_paths :: "path list option"
  fo_workspace_only :: bool
  fo_cache_directory :: "path option"
  fo_kind :: "environment_kind option"
  fo_json :: bool
  fo_conda_executable :: "path option"
  fo_pipenv_executable :: "path option"
  fo_poetry_executable :: "path option"
  fo_environment_directories :: "path list option"

text \<open>The fields of \<open>Commands::Find\<close> are those of the options; the summary is always printed.\<close>

datatype command =
    FindCommand find_options
  | ResolveCommand path "path option" bool bool
  | ServerCommand

definition default_command :: command where
  "default_command = FindCommand
     \<lparr>fo_print_list = True, fo_print_summary = True, fo_verbose = False, fo_report_missing = False,
      fo_search_paths = None, fo_workspace_only = False, fo_cache_directory = None, fo_kind = None,
      fo_json = False, fo_conda_executable = None, fo_pipenv_executable = None,
      fo_poetry_executable = None, fo_environment_directories = None\<rparr>"

text \<open>When only files are given, nothing but the workspace is searched.\<close>

definition only_files :: "file_system \<Rightarrow> find_options \<Rightarrow> bool" where
  "only_files fs opts = (case fo_search_paths opts of Some ps \<Rightarrow> list_all (is_file fs) ps | None \<Rightarrow> False)"

definition main_command :: "file_system \<Rightarrow> command option \<Rightarrow> command" where
  "main_command fs c =
     (case unwrap_or c default_command of
        FindCommand opts \<Rightarrow> FindCommand (opts\<lparr>fo_print_summary := True, fo_workspace_only := fo_workspace_only opts \<or> only_files fs opts\<rparr>)
      | other \<Rightarrow> other)"

section \<open>The command find\<close>

definition find_scope :: "find_options \<Rightarrow> search_scope option" where
  "find_scope opts = (if fo_workspace_only opts then Some ScopeWorkspace else map_option ScopeGlobal (fo_kind opts))"

text \<open>The paths to search: those given, or else the working directory.\<close>

definition cli_search_paths :: "glob_matcher \<Rightarrow> path option \<Rightarrow> find_options \<Rightarrow> path list" where
  "cli_search_paths glob cwd opts =
     (let given = expand_glob_patterns glob (unwrap_or (fo_search_paths opts) [])
      in sort_dedup (if given = [] then to_list cwd else given))"

definition cli_create_config :: "file_system \<Rightarrow> glob_matcher \<Rightarrow> path option \<Rightarrow> find_options \<Rightarrow> configuration" where
  "cli_create_config fs glob cwd opts =
     configuration_default
       \<lparr>workspace_directories := Some (filter (is_dir fs) (cli_search_paths glob cwd opts)),
        executables := Some (filter (is_file fs) (cli_search_paths glob cwd opts)),
        conda_executable := fo_conda_executable opts, pipenv_executable := fo_pipenv_executable opts,
        poetry_executable := fo_poetry_executable opts,
        environment_directories :=
          map_option (\<lambda>dirs. filter (is_dir fs) (expand_glob_patterns glob dirs)) (fo_environment_directories opts)\<rparr>"

text \<open>The first cache directory that is set stays.\<close>

definition cli_cache_directory :: "path option \<Rightarrow> path option lock \<Rightarrow> path option lock \<times> unit outcome" where
  "cli_cache_directory d l = (case d of Some p \<Rightarrow> set_cache_directory p l | None \<Rightarrow> (l, Ret ()))"

text \<open>What \<open>find_and_report_envs_stdio\<close> searches; \<open>setup\<close> creates the locators and configures them.\<close>

definition command_search ::
  "(configuration \<Rightarrow> search_env) \<Rightarrow> file_system \<Rightarrow> glob_matcher \<Rightarrow> path option \<Rightarrow> find_options \<Rightarrow> task" where
  "command_search setup fs glob cwd opts =
     (let c = cli_create_config fs glob cwd opts in find_and_report_envs (setup c) c (find_scope opts))"

text \<open>The text form: the console reporter behind the cache reporter, and the counts of its summary.\<close>

definition find_envs :: "find_options \<Rightarrow> notification list \<Rightarrow> stdio_reporter" where
  "find_envs opts calls =
     wrapped (fold (cache_call stdio_report_manager stdio_report_environment) calls
       (cache_reporter_new (stdio_reporter_new (fo_print_list opts) (search_kind (find_scope opts)))))"

definition kind_label :: "environment_kind option \<Rightarrow> string" where
  "kind_label k = (case k of Some k \<Rightarrow> kind_debug k | None \<Rightarrow> ''Unknown'')"

definition kind_order :: "environment_kind option list" where
  "kind_order =
     [Some Conda, Some GlobalPaths, Some Hatch, Some Homebrew, Some LinuxGlobal, Some MacCommandLineTools,
      Some MacPythonOrg, Some MacXCode, Some Pipenv, Some Pixi, Some Poetry, Some Pyenv,
      Some PyenvVirtualEnv, None, Some Uv, Some UvWorkspace, Some Venv, Some VirtualEnv,
      Some VirtualEnvWrapper, Some WinPython, Some WindowsRegistry, Some WindowsStore]"

definition summary_environments :: "stdio_reporter \<Rightarrow> (string \<times> 16 word) list" where
  "summary_environments r =
     List.map_filter (\<lambda>k. map_option (Pair (kind_label k)) (std_environments r k)) kind_order"

definition manager_order :: "manager_type list" where
  "manager_order = [MgrConda, MgrMamba, MgrPipenv, MgrPoetry, MgrPyenv]"

definition summary_managers :: "stdio_reporter \<Rightarrow> (string \<times> 16 word) list" where
  "summary_managers r =
     List.map_filter (\<lambda>t. map_option (Pair (manager_debug t)) (std_managers r t)) manager_order"

definition summary_total :: "stdio_reporter \<Rightarrow> 16 word" where
  "summary_total r = sum_list (map snd (summary_environments r))"

text \<open>The JSON form: the collecting reporter behind the cache reporter.\<close>

definition collect_reporter_new :: collect_reporter where
  "collect_reporter_new = \<lparr>col_managers = [], col_environments = []\<rparr>"

definition find_envs_json :: "find_options \<Rightarrow> notification list \<Rightarrow> collect_reporter" where
  "find_envs_json opts calls =
     (let r = wrapped (fold (cache_call collect_report_manager collect_report_environment) calls
                (cache_reporter_new collect_reporter_new))
      in r\<lparr>col_environments := (case fo_kind opts of
             Some k \<Rightarrow> filter (\<lambda>e. kind e = Some k) (col_environments r) | None \<Rightarrow> col_environments r)\<rparr>)"

datatype find_output = JsonOutput collect_reporter | TextOutput stdio_reporter

definition command_output :: "find_options \<Rightarrow> unit outcome \<Rightarrow> notification list \<Rightarrow> find_output outcome" where
  "command_output opts missing calls =
     and_then (if fo_report_missing opts then missing else Ret ()) (\<lambda>_.
       Ret (if fo_json opts then JsonOutput (find_envs_json opts calls) else TextOutput (find_envs opts calls)))"

section \<open>The command resolve\<close>

datatype resolve_output =
    ResolvedJson "python_environment option"
  | ResolvedText path "notification list"
  | NotResolved path

definition resolved_notes :: "python_environment \<Rightarrow> notification list" where
  "resolved_notes e = map ManagerNote (to_list (manager e)) @ [EnvironmentNote e]"

definition resolve_report_stdio ::
  "chain_world \<Rightarrow> env_vars \<Rightarrow> path option \<Rightarrow> path \<Rightarrow> bool \<Rightarrow> chain_state \<Rightarrow> resolve_output outcome" where
  "resolve_report_stdio w vars cwd exe json s =
     (let c = configuration_default\<lparr>workspace_directories := map_option (\<lambda>d. [d]) cwd\<rparr>
      in and_then (resolve_environment w vars exe (chain_configure c s)) (\<lambda>(t, r). Ret
           (case r of
              Some re \<Rightarrow>
                let e = unwrap_or (re_resolved re) (re_discovered re)
                in if json then ResolvedJson (Some e)
                   else ResolvedText exe (printed (wrapped
                     (fold (cache_call stdio_report_manager stdio_report_environment) (resolved_notes e)
                        (cache_reporter_new (stdio_reporter_new True None)))))
            | None \<Rightarrow> if json then ResolvedJson None else NotResolved exe)))"

section \<open>Lemmas\<close>

subsection \<open>The configuration\<close>

text \<open>Every path that is searched is given once, and is a workspace folder or an interpreter when it exists.\<close>

lemma cli_create_config_paths:
  assumes "c = cli_create_config fs glob cwd opts" "\<And>p. exists fs p \<longleftrightarrow> is_dir fs p \<or> is_file fs p"
  shows "set (unwrap_or (workspace_directories c) []) \<union> set (unwrap_or (executables c) [])
      = {p \<in> set (cli_search_paths glob cwd opts). exists fs p}"
    and "distinct (map components (unwrap_or (workspace_directories c) []))"
    and "distinct (map components (unwrap_or (executables c) []))"
  using assms sort_dedup_distinct
  by (auto simp: cli_create_config_def cli_search_paths_def Let_def intro!: distinct_map_filter)

lemma cli_create_config_default:
  "cli_create_config fs glob (Some d) opts =
     configuration_default\<lparr>workspace_directories := Some (if is_dir fs d then [d] else []),
       executables := Some (if is_file fs d then [d] else []),
       conda_executable := fo_conda_executable opts, pipenv_executable := fo_pipenv_executable opts,
       poetry_executable := fo_poetry_executable opts,
       environment_directories := map_option (\<lambda>dirs. filter (is_dir fs) (expand_glob_patterns glob dirs)) (fo_environment_directories opts)\<rparr>"
  if "expand_glob_patterns glob (unwrap_or (fo_search_paths opts) []) = []"
  using that by (simp add: cli_create_config_def cli_search_paths_def sort_dedup_def path_sort_def)

text \<open>A kind does not keep the search out of the workspace folders.\<close>

lemma kind_searches_workspaces:
  assumes "fo_kind opts = Some k" "\<not> fo_workspace_only opts"
    and "expand_glob_patterns glob (unwrap_or (fo_search_paths opts) []) = []" "is_dir fs d"
  shows "find_scope opts = Some (ScopeGlobal k)"
    and "set (task_notes (find_python_environments_in_workspace_folder_recursive se (global_search_paths se)
           (unwrap_or (environment_directories (cli_create_config fs glob (Some d) opts)) []) d))
         \<subseteq> set (task_notes (command_search (\<lambda>_. se) fs glob (Some d) opts))"
  using assms find_and_report_workspace_notes [of d "cli_create_config fs glob (Some d) opts" se]
  by (simp_all add: find_scope_def command_search_def Let_def cli_create_config_default)

subsection \<open>What is printed\<close>

lemma stdio_step:
  defines "step \<equiv> report_call stdio_report_manager stdio_report_environment"
  shows "std_kind (step n r) = std_kind r" "print_list (step n r) = print_list r"
    "printed (step n r) = printed r @ (if print_list r \<and> sendable (std_kind r) n then [n] else [])"
    "std_environments (step (ManagerNote m) r) = std_environments r"
    "std_environments (step (EnvironmentNote e) r) kd =
       (if kind e = kd \<and> should_report_environment (std_kind r) e
        then Some (unwrap_or (std_environments r kd) 0 + 1) else std_environments r kd)"
  by (cases n; auto simp: step_def stdio_report_manager_def stdio_report_environment_def Let_def
        should_report_environment_def split: option.splits)+

lemma stdio_run:
  "std_environments (fold (report_call stdio_report_manager stdio_report_environment) ns r) kd =
     (let n = length (filter (\<lambda>e. kind e = kd \<and> should_report_environment (std_kind r) e) (note_environments ns))
      in if n = 0 then std_environments r kd else Some (unwrap_or (std_environments r kd) 0 + of_nat n))"
  "printed (fold (report_call stdio_report_manager stdio_report_environment) ns r) =
     printed r @ (if print_list r then filter (sendable (std_kind r)) ns else [])"
proof (induction ns arbitrary: r)
  case (Cons n ns)
  {
    case 1
    show ?case
    proof (cases n)
      case (ManagerNote m)
      then show ?thesis by (simp add: Cons.IH(1) stdio_step del: report_call.simps)
    next
      case (EnvironmentNote e)
      then show ?thesis
        by (cases "kind e = kd \<and> should_report_environment (std_kind r) e")
          (auto simp: Cons.IH(1) stdio_step Let_def simp del: report_call.simps)
    qed
  next
    case 2
    show ?case by (simp add: Cons.IH(2) stdio_step)
  }
qed (simp_all add: Let_def)

lemma collect_run:
  "fold (report_call collect_report_manager collect_report_environment) ns r =
     \<lparr>col_managers = col_managers r @ note_managers ns, col_environments = col_environments r @ note_environments ns\<rparr>"
proof (induction ns arbitrary: r)
  case (Cons n ns)
  then show ?case by (cases n) (simp_all add: collect_report_manager_def collect_report_environment_def)
qed simp

lemma find_envs_eq:
  "printed (find_envs opts calls) =
     (if fo_print_list opts then filter (sendable (search_kind (find_scope opts))) (first_notes {} {} calls) else [])"
  "std_environments (find_envs opts calls) kd =
     (let n = length (filter (\<lambda>e. kind e = kd \<and> should_report_environment (search_kind (find_scope opts)) e)
                (note_environments (first_notes {} {} calls)))
      in if n = 0 then None else Some (of_nat n))"
  by (simp_all add: find_envs_def cache_call_first cache_reporter_new_def stdio_run stdio_reporter_new_def Let_def)

lemma find_envs_json_eq:
  "col_managers (find_envs_json opts calls) = note_managers (first_notes {} {} calls)"
  "col_environments (find_envs_json opts calls) =
     filter (should_report_environment (fo_kind opts)) (note_environments (first_notes {} {} calls))"
proof -
  show "col_managers (find_envs_json opts calls) = note_managers (first_notes {} {} calls)"
    by (simp add: find_envs_json_def cache_call_first cache_reporter_new_def collect_run collect_reporter_new_def Let_def)
  have "filter (should_report_environment None) es = es" for es
    by (simp add: should_report_environment_def filter_id_conv)
  then show "col_environments (find_envs_json opts calls) =
     filter (should_report_environment (fo_kind opts)) (note_environments (first_notes {} {} calls))"
    by (cases "fo_kind opts") (simp_all add: find_envs_json_def cache_call_first cache_reporter_new_def collect_run
        collect_reporter_new_def should_report_environment_def [abs_def] Let_def)
qed

lemma note_environments_sendable:
  "note_environments (filter (sendable k) ns) = filter (should_report_environment k) (note_environments ns)"
proof (induction ns)
  case (Cons n ns)
  then show ?case by (cases n) simp_all
qed simp

lemma search_kind_scope: "search_kind (find_scope opts) = (if fo_workspace_only opts then None else fo_kind opts)"
  by (cases "fo_kind opts") (simp_all add: search_kind_def find_scope_def)

text \<open>Both forms list the same environments, in the same order, unless a kind is asked for in a
  search of the workspace only: then the text form does not filter.\<close>

lemma find_forms_agree:
  assumes "fo_print_list opts" "fo_workspace_only opts \<Longrightarrow> fo_kind opts = None"
  shows "note_environments (printed (find_envs opts calls)) = col_environments (find_envs_json opts calls)"
  using assms by (auto simp: find_envs_eq find_envs_json_eq note_environments_sendable search_kind_scope)

lemma find_forms_differ:
  assumes "fo_print_list opts" "fo_workspace_only opts"
  shows "note_environments (printed (find_envs opts calls)) = note_environments (first_notes {} {} calls)"
  using assms by (simp add: find_envs_eq note_environments_sendable search_kind_scope should_report_environment_def filter_id_conv)

text \<open>Without a kind, the JSON form lists what a refresh of the server would notify the client of.\<close>

lemma find_json_is_refresh:
  "fo_kind opts = None \<Longrightarrow> col_environments (find_envs_json opts calls) = refresh_sent st calls"
  by (simp add: find_envs_json_eq refresh_sent_first should_report_environment_def filter_id_conv)

subsection \<open>The summary\<close>

lemma kind_order_facts: "distinct kind_order" "k \<in> set kind_order"
  "sorted (map kind_label kind_order)" "distinct (map kind_label kind_order)"
proof -
  show "distinct kind_order" "sorted (map kind_label kind_order)" "distinct (map kind_label kind_order)"
    by (simp_all add: kind_order_def kind_label_def)
  show "k \<in> set kind_order"
  proof (cases k)
    case (Some k')
    then show ?thesis by (cases k') (simp_all add: kind_order_def)
  qed (simp add: kind_order_def)
qed

lemma sum_kinds: "(\<Sum>k\<leftarrow>kind_order. length (filter (\<lambda>e. kind e = k \<and> P e) es)) = length (filter P es)"
proof (induction es)
  case (Cons e es)
  have "(\<Sum>k\<leftarrow>kind_order. length (filter (\<lambda>e. kind e = k \<and> P e) (e # es))) =
      (\<Sum>k\<leftarrow>kind_order. length (filter (\<lambda>e. kind e = k \<and> P e) es) + (if kind e = k \<and> P e then 1 else 0))"
    by (rule arg_cong [where f = sum_list]) simp
  also have "\<dots> = length (filter P es) + (\<Sum>k\<leftarrow>kind_order. if kind e = k \<and> P e then 1 else 0)"
    by (simp only: sum_list_addf Cons.IH)
  also have "(\<Sum>k\<leftarrow>kind_order. if kind e = k \<and> P e then 1 else 0) = (if P e then 1 else (0 :: nat))"
    using kind_order_facts(2) [of "kind e"] by (simp add: sum_list_distinct_conv_sum_set [OF kind_order_facts(1)])
  finally show ?case by simp
qed (simp add: sum_list_0)

lemma summary_environments_total:
  "sum_list (map snd (List.map_filter (\<lambda>k. map_option (Pair (kind_label k)) (m k)) ks)) = (\<Sum>k\<leftarrow>ks. unwrap_or (m k) (0 :: 16 word))"
  by (induction ks) (auto simp: List.map_filter_def)

lemma sum_list_of_nat: "(\<Sum>k\<leftarrow>ks. of_nat (f k)) = (of_nat (\<Sum>k\<leftarrow>ks. f k) :: 16 word)"
  by (induction ks) simp_all

text \<open>The total of the summary is the number of environments that are shown, modulo \<open>2 ^ 16\<close>.\<close>

lemma find_summary_total:
  "summary_total (find_envs opts calls) =
     of_nat (length (filter (should_report_environment (search_kind (find_scope opts))) (note_environments (first_notes {} {} calls))))"
proof -
  let ?n = "\<lambda>k. length (filter (\<lambda>e. kind e = k \<and> should_report_environment (search_kind (find_scope opts)) e)
              (note_environments (first_notes {} {} calls)))"
  have "summary_total (find_envs opts calls) = (\<Sum>k\<leftarrow>kind_order. of_nat (?n k))"
    unfolding summary_total_def summary_environments_def summary_environments_total
    by (rule arg_cong [where f = sum_list]) (simp add: find_envs_eq(2) Let_def)
  then show ?thesis by (simp add: sum_list_of_nat sum_kinds)
qed

subsection \<open>Resolving\<close>

text \<open>The text form prints exactly one environment, the one of the JSON form, when it has a key.\<close>

lemma resolve_forms_agree:
  assumes "resolve_report_stdio w vars cwd exe True s = Ret (ResolvedJson (Some e))" "env_key e \<noteq> None"
  shows "resolve_report_stdio w vars cwd exe False s = Ret (ResolvedText exe (resolved_notes e))"
proof -
  have "first_notes {} {} (resolved_notes e) = resolved_notes e"
    using assms(2) by (cases "manager e") (auto simp: resolved_notes_def)
  moreover have "filter (sendable None) (resolved_notes e) = resolved_notes e"
    by (auto simp: resolved_notes_def should_report_environment_def filter_id_conv)
  ultimately have "printed (wrapped (fold (cache_call stdio_report_manager stdio_report_environment) (resolved_notes e)
      (cache_reporter_new (stdio_reporter_new True None)))) = resolved_notes e"
    by (simp add: cache_call_first cache_reporter_new_def stdio_run(2) stdio_reporter_new_def)
  with assms(1) show ?thesis
    by (auto simp: resolve_report_stdio_def Let_def and_then_Ret split: option.split_asm)
qed

end
