(* ===== verification/Spec2Isabelle.thy ===== *)
theory Spec2Isabelle
  imports Refresh_Liveness Missing_Envs Json_Rpc Find Windows_Registry Windows_Store Win_Python Poetry_Telemetry Server Command_Line
begin

text \<open>
  A verification library for \<open>pet\<close>, the server that discovers Python environments. All paths below
  are relative to \<open>src/crates/\<close>.

  \<^bold>\<open>The program.\<close> An editor starts the server and talks JSON-RPC with it over the standard streams
  (\<open>pet-jsonrpc\<close>). A \<open>configure\<close> request publishes a configuration and hands it to the locators, a
  \<open>refresh\<close> request searches for environments and notifies the client of each, \<open>resolve\<close> and
  \<open>find\<close> answer for one interpreter or one directory, and \<open>info\<close>, \<open>condaInfo\<close> and \<open>clear\<close> serve
  diagnosis (\<open>pet/src/jsonrpc.rs\<close>). Each tool that creates environments has a locator, a crate of
  its own: \<open>try_from\<close> says whether an interpreter is one of its environments, \<open>find\<close> searches the
  places the tool uses. The chain of locators (\<open>pet/src/locators.rs\<close>) asks them in order, the
  search (\<open>pet/src/find.rs\<close>) runs their \<open>find\<close> in threads, walks the directories of the
  configuration and of \<open>PATH\<close>, and passes what it finds through reporters (\<open>pet-reporter\<close>) that
  drop duplicates. An interpreter no locator knows is run and asked about itself
  (\<open>pet-python-utils\<close>), with a cache in memory and on disk. A refresh works on locators of its
  own; what it discovered is then handed to the shared ones.

  \<^bold>\<open>Foundations.\<close> \<open>Pet_Prelude\<close> holds what all theories share: panics as values (\<open>outcome\<close>,
  \<open>and_then\<close>, \<open>map_outcome\<close>), the operations of Rust's strings, first matches, deduplication.
  \<open>Unix_Path\<close> models \<open>std::path\<close> by the components of a path, with the derived order, and the file
  system as a record of functions; \<open>Fs_Path\<close> is \<open>pet-fs/src/path.rs\<close>, \<open>Path_Walk\<close> holds ancestors
  and prefixes, \<open>Glob\<close> is \<open>pet-fs/src/glob.rs\<close>, \<open>Toml_Data\<close> the values of a TOML document,
  \<open>Platform_Dirs\<close> is \<open>platform_dirs.rs\<close>. \<open>Transition\<close> states the contract of a concurrent
  component as locales: \<open>inv_system\<close> (an invariant of a step relation) and \<open>live_system\<close> (progress
  with a measure); \<open>Tasks\<close> describes nested threads by the set of their traces. Every locale is
  interpreted on the definitions of the components: the first two on the coordinator, the caches
  and the protocols, \<open>env_locator\<close> and \<open>building_locator\<close> (theory \<open>Virtual_Envs\<close>) on the locators,
  \<open>link_chain\<close> on the chain.

  \<^bold>\<open>Data, reporters, transport.\<close> \<open>Env_Types\<close>: the environment record, its builder, its keys and
  orders (\<open>pet-core\<close>). \<open>Reporter\<close>: the cache, JSON-RPC, stdio and collecting reporters and the
  guard of a generation. \<open>Json_Rpc\<close>: framing, dispatch and the loop of the server. \<open>Pyvenv_Cfg\<close>,
  \<open>Executables\<close>, \<open>Versions\<close>: \<open>pyvenv.cfg\<close>, names and search of executables, the versions that
  headers, the standard library and \<open>build-details.json\<close> tell. \<open>Os_Environment\<close>: the process
  environment with its list of global directories that threads share.

  \<^bold>\<open>Requests.\<close> \<open>Refresh_Coordinator\<close> is the state machine that lets equal refreshes share one run,
  with each operation of the coordinator and the thread of \<open>handle_refresh\<close> as a step relation
  that includes panics while a reply is written; \<open>Refresh_Liveness\<close> proves that it never stops
  short: no panic of the coordinator is reachable, no lock is poisoned, the threads terminate and
  every request is answered exactly once. \<open>Configure\<close>: the transaction of \<open>handle_configure\<close> with
  its roll back, the parameters of a refresh. \<open>Missing_Envs\<close>: the compare-and-exchange protocol
  that runs the follow-up of a refresh once per generation. \<open>Refresh_Sync\<close>: what a refresh hands
  over to the shared locators. \<open>Find\<close>: the four phases of a search. \<open>Resolve\<close>:
  \<open>pet/src/resolve.rs\<close> and the comparison of \<open>pet-telemetry\<close>. \<open>Server\<close>: the table of handlers and
  the requests \<open>info\<close>, \<open>resolve\<close>, \<open>find\<close>, \<open>condaInfo\<close> and \<open>clear\<close>. \<open>Command_Line\<close>: the commands
  \<open>find\<close> and \<open>resolve\<close> of \<open>pet/src/main.rs\<close> and \<open>lib.rs\<close>, which run the same search and resolution
  once and print the result as text or as JSON.

  \<^bold>\<open>Caches.\<close> \<open>Locator_Cache\<close> is \<open>pet-core/src/cache.rs\<close>, a table whose callers wait for a
  computation in flight; \<open>Interpreter_Cache\<close> is the cache of interpreters of \<open>pet-python-utils\<close>
  with its files and locks; \<open>Conda_Cache\<close> the details of Conda environments by fingerprint;
  \<open>Windows_Registry\<close> holds the shared result of a registry walk. Each has an invariant over all
  interleavings, including changes of the disk.

  \<^bold>\<open>Locators.\<close> \<open>Virtual_Envs\<close> (venv, virtualenv, Pixi and the global directories),
  \<open>Virtualenvwrapper\<close>, \<open>Pipenv\<close>, \<open>Pyenv\<close>, \<open>Poetry\<close>, \<open>Hatch\<close>, \<open>Uv\<close>, \<open>Homebrew\<close>, \<open>Linux_Global\<close>,
  \<open>Mac_Locators\<close> (python.org, command line tools, Xcode), \<open>Windows_Registry\<close>, \<open>Windows_Store\<close>,
  \<open>Win_Python\<close>; Conda in \<open>Conda_Files\<close>, \<open>Conda_Locations\<close>, \<open>Conda_Cache\<close> and \<open>Conda\<close>.
  \<open>Conda_Telemetry\<close> and \<open>Poetry_Telemetry\<close> read what running the tool tells and compare it.
  \<open>Locators\<close> is the identification over any locators, \<open>Locator_Chain\<close> composes it with the
  locators of Linux and macOS and the state they share.

  \<^bold>\<open>What is shown.\<close> For a locator: what it claims is normalised, of a kind it announces and about
  the interpreter that was asked about (\<open>env_locator\<close>), and, for Hatch, uv and Pipenv, what its
  search reports is what \<open>try_from\<close> answers for the reported interpreter. For a cache: an entry is
  never stale beyond what its key can tell, one computation runs at a time and no caller waits for
  ever. For a request: exactly one reply, or the conditions under which there is none. For the
  search: the notified keys do not depend on the schedule. For texts: what is written is read back
  (frames, version lines, names and listings of environments). The lemmas about a component are in
  its theory, the properties at its end.

  \<^bold>\<open>Bounds.\<close> Recursion follows the structure of the data, or has a measure: the length of a path
  for walks to the parent, the nesting of braces for patterns (cut at 1024 as in the code), the
  work left for the threads. The climb to a WinPython installation has the five rounds of the code
  as fuel. Generations are 64-bit words; the properties about them assume that a generation does
  not return to an earlier value, that is, fewer than \<open>2 ^ 64\<close> configurations. Telemetry counters
  are 16-bit words that wrap.

  \<^bold>\<open>Assumptions of the model.\<close> The configuration is that of Unix: case normalisation is the
  identity and paths are separated by \<open>/\<close>. The three Windows locators are modelled on paths
  written that way, which Windows accepts; the registry is data, and the normalisation of a path
  an argument where it matters. Regular expressions are translated to functions on ASCII text.
  What other crates and processes compute is an argument: the parsers of JSON, TOML and YAML,
  hashes, globbing of the file system, the output of spawned processes, file times. Reading a file
  or a directory is one step. The threads that a locator's own \<open>find\<close> spawns run one after the
  other, except where a theory describes their interleaving. A lock is held for the whole of its
  critical section; poisoning is part of the model where the code can panic while it holds the
  lock.

  \<^bold>\<open>Not modelled.\<close> The Windows variants of the other crates, chosen at compile time; parsing the
  arguments of the command line; logging, tracing and the times of the phases in the progress
  telemetry; the \<open>Display\<close> output of the data types and the list of paths of the verbose form.
  None of them decides which environments are reported.
\<close>

end
